(* ===== verification/Prelude.thy ===== *)
theory Prelude
  imports Complex_Main "HOL-Library.Word" "HOL-Library.Product_Lexorder"
    "HOL-Library.List_Lexorder" "HOL-Library.Multiset"
begin

text \<open>
  Shared vocabulary of the development: the machine-level types of the Go program, the
  shape of a fallible stateful operation, the theorem collections the component theories
  fill, and the list and sorting facts their proofs share.
\<close>

section \<open>Types\<close>

text \<open>
  A Go \<^verbatim>\<open>string\<close> is a sequence of bytes, which is what HOL's \<open>string\<close>
  (a list of 8-bit characters) is.  A \<^verbatim>\<open>uuid.UUID\<close> is 16 bytes; PostgreSQL compares
  UUIDs as big-endian byte strings, which is the order of \<open>128 word\<close>.  Instants and
  durations are counted in microseconds (PostgreSQL's resolution).
\<close>

type_synonym uuid = "128 word"
type_synonym time = int
type_synonym rune = nat

text \<open>
  A Go function that returns \<open>(T, error)\<close> and acts on a state of type \<open>'w\<close>.
\<close>

type_synonym ('w, 'e, 'a) op = "'w \<Rightarrow> ('e + 'a) \<times> 'w"

section \<open>Theorem collections\<close>

text \<open>
  \<open>frame\<close>: which fields of the state an operation leaves alone.  \<open>preserves\<close>: which
  invariants it keeps.  \<open>sql_defs\<close>: the SQL statements, for proofs that unfold them.
\<close>

named_theorems frame
named_theorems preserves
named_theorems sql_defs

section \<open>Lists\<close>

lemma find_Some_in: "find P xs = Some x \<Longrightarrow> x \<in> set xs \<and> P x"
  by (induction xs) (auto split: if_splits)

lemma find_None_iff_ex: "find P xs = None \<longleftrightarrow> (\<forall>x \<in> set xs. \<not> P x)"
  by (induction xs) auto

lemma find_append: "find P (xs @ ys) = (case find P xs of None \<Rightarrow> find P ys | Some x \<Rightarrow> Some x)"
  by (induction xs) auto

lemma find_filter: "(\<And>x. P x \<Longrightarrow> Q x) \<Longrightarrow> find P (filter Q xs) = find P xs"
  by (induction xs) auto

lemma distinct_map_filter: "distinct (map f xs) \<Longrightarrow> distinct (map f (filter P xs))"
  by (induction xs) auto

lemma distinct_map_unique:
  "distinct (map f xs) \<Longrightarrow> x \<in> set xs \<Longrightarrow> y \<in> set xs \<Longrightarrow> f x = f y \<Longrightarrow> x = y"
  by (auto simp: distinct_map inj_on_def)

lemma filter_id: "(\<And>x. x \<in> set xs \<Longrightarrow> P x) \<Longrightarrow> filter P xs = xs"
  by (induction xs) auto

lemma filter_none: "(\<And>x. x \<in> set xs \<Longrightarrow> \<not> P x) \<Longrightarrow> filter P xs = []"
  by (induction xs) auto

lemma filter_unique_key:
  "distinct (map f xs) \<Longrightarrow> length (filter (\<lambda>x. f x = k \<and> P x) xs) \<le> 1"
proof (induction xs)
  case (Cons a xs)
  show ?case
  proof (cases "f a = k \<and> P a")
    case True
    with Cons.prems have "filter (\<lambda>x. f x = k \<and> P x) xs = []"
      by (intro filter_none) (force simp: image_iff)
    with True show ?thesis by simp
  next
    case False
    with Cons show ?thesis by auto
  qed
qed simp

text \<open>An update of the rows that satisfy \<open>P\<close>, the shape of a SQL \<^verbatim>\<open>UPDATE\<close>.\<close>

definition update_where :: "('r \<Rightarrow> bool) \<Rightarrow> ('r \<Rightarrow> 'r) \<Rightarrow> 'r list \<Rightarrow> 'r list" where
  "update_where P f rows = map (\<lambda>r. if P r then f r else r) rows"

lemma update_where_Nil [simp]: "update_where P f [] = []"
  by (simp add: update_where_def)

lemma update_where_Cons [simp]:
  "update_where P f (r # rs) = (if P r then f r else r) # update_where P f rs"
  by (simp add: update_where_def)

lemma length_update_where [simp]: "length (update_where P f rows) = length rows"
  by (simp add: update_where_def)

lemma set_update_where: "set (update_where P f rows) = (\<lambda>r. if P r then f r else r) ` set rows"
  by (simp add: update_where_def)

lemma map_update_where_same:
  "(\<And>r. P r \<Longrightarrow> g (f r) = g r) \<Longrightarrow> map g (update_where P f rows) = map g rows"
  by (induction rows) auto

lemma update_where_none: "(\<And>r. r \<in> set rows \<Longrightarrow> \<not> P r) \<Longrightarrow> update_where P f rows = rows"
  by (induction rows) auto

lemma filter_update_where_disjoint:
  "(\<And>r. P r \<Longrightarrow> \<not> Q r) \<Longrightarrow> (\<And>r. P r \<Longrightarrow> \<not> Q (f r)) \<Longrightarrow>
    filter Q (update_where P f rows) = filter Q rows"
  by (induction rows) auto

section \<open>Sorting\<close>

lemma sorted_wrt_less_distinct:
  "sorted_wrt (<) xs \<Longrightarrow> distinct (xs :: 'k::linorder list)"
  by (induction xs) auto

lemma sort_key_strict:
  assumes "distinct (map key xs)"
  shows "sorted_wrt (<) (map key (sort_key key xs :: 'r list) :: 'k::linorder list)"
proof -
  have "mset (map key (sort_key key xs)) = mset (map key xs)" by simp
  then have "distinct (map key (sort_key key xs))"
    using assms by (metis mset_eq_imp_distinct_iff)
  then show ?thesis
    using sorted_sort_key [of key xs] by (simp add: strict_sorted_iff)
qed

lemma sort_key_set_eq:
  assumes "distinct (map key xs)" "distinct (map key ys)" "set xs = set ys"
  shows "sort_key key xs = sort_key (key :: 'r \<Rightarrow> 'k::linorder) ys"
proof -
  have "map key (sort_key key xs) = map key (sort_key key ys)"
    by (rule sorted_distinct_set_unique)
      (use assms sort_key_strict [OF assms(1)] sort_key_strict [OF assms(2)]
        in \<open>simp_all add: sorted_wrt_less_distinct strict_sorted_iff\<close>)
  moreover have "inj_on key (set xs)" using assms(1) by (simp add: distinct_map)
  ultimately show ?thesis using assms(3) by (intro map_inj_on [of key]) simp_all
qed

lemma distinct_map_set_eq: "distinct (map key xs) \<Longrightarrow> distinct xs"
  by (simp add: distinct_map)

section \<open>Fallible stateful operations\<close>

text \<open>
  Go's sequencing: a call whose error ends the function (\<open>and_then\<close>), the final return
  (\<open>ret\<close>, \<open>fail\<close>), a rewritten error (\<open>map_err\<close>, for \<^verbatim>\<open>fmt.Errorf("...: %w", err)\<close>),
  and a call whose error the function looks into (\<open>handle\<close>).
\<close>

definition ret :: "'a \<Rightarrow> ('w, 'e, 'a) op" where
  "ret x w = (Inr x, w)"

definition fail :: "'e \<Rightarrow> ('w, 'e, 'a) op" where
  "fail e w = (Inl e, w)"

definition and_then :: "('w, 'e, 'a) op \<Rightarrow> ('a \<Rightarrow> ('w, 'e, 'b) op) \<Rightarrow> ('w, 'e, 'b) op" where
  "and_then f g w = (case f w of (Inl e, w') \<Rightarrow> (Inl e, w') | (Inr x, w') \<Rightarrow> g x w')"

definition map_err :: "('e \<Rightarrow> 'e) \<Rightarrow> ('w, 'e, 'a) op \<Rightarrow> ('w, 'e, 'a) op" where
  "map_err h f w = (case f w of (Inl e, w') \<Rightarrow> (Inl (h e), w') | (Inr x, w') \<Rightarrow> (Inr x, w'))"

definition handle ::
  "('w, 'e, 'a) op \<Rightarrow> ('a \<Rightarrow> ('w, 'e, 'b) op) \<Rightarrow> ('e \<Rightarrow> ('w, 'e, 'b) op) \<Rightarrow> ('w, 'e, 'b) op" where
  "handle f g h w = (case f w of (Inl e, w') \<Rightarrow> h e w' | (Inr x, w') \<Rightarrow> g x w')"

definition of_result :: "'e + 'a \<Rightarrow> ('w, 'e, 'a) op" where
  "of_result r w = (r, w)"

text \<open>\<open>keeps J f\<close>: \<open>f\<close> preserves the invariant \<open>J\<close>, whatever its outcome.\<close>

definition keeps :: "('w \<Rightarrow> bool) \<Rightarrow> ('w, 'e, 'a) op \<Rightarrow> bool" where
  "keeps J f \<longleftrightarrow> (\<forall>w. J w \<longrightarrow> J (snd (f w)))"

lemma fst_eqE: "fst x = a \<Longrightarrow> (\<And>b. x = (a, b) \<Longrightarrow> thesis) \<Longrightarrow> thesis"
  by (cases x) simp

lemma keepsD: "keeps J f \<Longrightarrow> J w \<Longrightarrow> f w = (r, w') \<Longrightarrow> J w'"
  by (metis keeps_def snd_conv)

lemma keepsI: "(\<And>w r w'. J w \<Longrightarrow> f w = (r, w') \<Longrightarrow> J w') \<Longrightarrow> keeps J f"
  by (simp add: keeps_def) (metis prod.collapse)

lemma keeps_ret [preserves]: "keeps J (ret x)"
  by (simp add: keeps_def ret_def)

lemma keeps_fail [preserves]: "keeps J (fail e)"
  by (simp add: keeps_def fail_def)

lemma keeps_of_result [preserves]: "keeps J (of_result r)"
  by (simp add: keeps_def of_result_def)

lemma keeps_and_then [preserves]:
  "keeps J f \<Longrightarrow> (\<And>x. keeps J (g x)) \<Longrightarrow> keeps J (and_then f g)"
  by (force simp: keeps_def and_then_def split: prod.splits sum.splits)

lemma keeps_map_err [preserves]: "keeps J f \<Longrightarrow> keeps J (map_err h f)"
  by (force simp: keeps_def map_err_def split: prod.splits sum.splits)

lemma keeps_handle [preserves]:
  "keeps J f \<Longrightarrow> (\<And>x. keeps J (g x)) \<Longrightarrow> (\<And>e. keeps J (h e)) \<Longrightarrow> keeps J (handle f g h)"
  by (force simp: keeps_def handle_def split: prod.splits sum.splits)

lemma keeps_if [preserves]: "(b \<Longrightarrow> keeps J f) \<Longrightarrow> (\<not> b \<Longrightarrow> keeps J g) \<Longrightarrow> keeps J (if b then f else g)"
  by simp

lemma keeps_case_option [preserves]:
  "(x = None \<Longrightarrow> keeps J f) \<Longrightarrow> (\<And>y. x = Some y \<Longrightarrow> keeps J (g y)) \<Longrightarrow>
    keeps J (case x of None \<Rightarrow> f | Some y \<Rightarrow> g y)"
  by (cases x) auto

lemma keeps_case_sum [preserves]:
  "(\<And>e. x = Inl e \<Longrightarrow> keeps J (f e)) \<Longrightarrow> (\<And>y. x = Inr y \<Longrightarrow> keeps J (g y)) \<Longrightarrow>
    keeps J (case x of Inl e \<Rightarrow> f e | Inr y \<Rightarrow> g y)"
  by (cases x) auto

lemma keeps_case_prod [preserves]:
  "(\<And>a b. x = (a, b) \<Longrightarrow> keeps J (f a b)) \<Longrightarrow> keeps J (case x of (a, b) \<Rightarrow> f a b)"
  by (cases x) auto

lemma and_then_Inr:
  "and_then f g w = (Inr y, w'') \<longleftrightarrow> (\<exists>x w'. f w = (Inr x, w') \<and> g x w' = (Inr y, w''))"
  by (auto simp: and_then_def split: prod.splits sum.splits)

lemma and_then_Inl:
  "and_then f g w = (Inl e, w'') \<longleftrightarrow>
     f w = (Inl e, w'') \<or> (\<exists>x w'. f w = (Inr x, w') \<and> g x w' = (Inl e, w''))"
  by (auto simp: and_then_def split: prod.splits sum.splits)

lemma handle_eq:
  "handle f g h w = (r, w'') \<longleftrightarrow>
     (\<exists>x w'. f w = (Inr x, w') \<and> g x w' = (r, w'')) \<or> (\<exists>e w'. f w = (Inl e, w') \<and> h e w' = (r, w''))"
  by (auto simp: handle_def split: prod.splits sum.splits)

lemma handle_simps [simp]:
  "f w = (Inl e, w') \<Longrightarrow> handle f g h w = h e w'"
  "f w = (Inr x, w') \<Longrightarrow> handle f g h w = g x w'"
  by (simp_all add: handle_def)

lemma map_err_Inr [simp]: "map_err h f w = (Inr x, w') \<longleftrightarrow> f w = (Inr x, w')"
  by (auto simp: map_err_def split: prod.splits sum.splits)

lemma map_err_Inl: "map_err h f w = (Inl e, w') \<longleftrightarrow> (\<exists>e'. f w = (Inl e', w') \<and> e = h e')"
  by (auto simp: map_err_def split: prod.splits sum.splits)

lemma ret_iff [simp]: "ret x w = (r, w') \<longleftrightarrow> r = Inr x \<and> w' = w"
  by (auto simp: ret_def)

lemma fail_iff [simp]: "fail e w = (r, w') \<longleftrightarrow> r = Inl e \<and> w' = w"
  by (auto simp: fail_def)

lemma of_result_iff [simp]: "of_result r w = (r', w') \<longleftrightarrow> r' = r \<and> w' = w"
  by (auto simp: of_result_def)

lemma and_then_simps [simp]:
  "f w = (Inl e, w') \<Longrightarrow> and_then f g w = (Inl e, w')"
  "f w = (Inr x, w') \<Longrightarrow> and_then f g w = g x w'"
  by (simp_all add: and_then_def)

text \<open>When the first part establishes something the second part relies on.\<close>

lemma keeps_and_then_post:
  assumes f: "\<And>w e w'. J w \<Longrightarrow> f w = (Inl e, w') \<Longrightarrow> J w'"
    and fK: "\<And>w x w'. J w \<Longrightarrow> f w = (Inr x, w') \<Longrightarrow> K x w'"
    and g: "\<And>x. keeps (K x) (g x)" and K: "\<And>x w. K x w \<Longrightarrow> J w"
  shows "keeps J (and_then f g)"
proof (rule keepsI)
  fix w r w' assume J: "J w" and r: "and_then f g w = (r, w')"
  obtain q w1 where q: "f w = (q, w1)" by fastforce
  show "J w'"
  proof (cases q)
    case (Inl e)
    with J q r f show ?thesis by simp
  next
    case (Inr x)
    with J q have "K x w1" by (simp add: fK)
    moreover from Inr q r have "g x w1 = (r, w')" by simp
    ultimately show ?thesis using keepsD [OF g] K by blast
  qed
qed

end
