(* ===== verification/Go_Lib.thy ===== *)
theory Go_Lib
  imports Prelude
begin

text \<open>
  The parts of Go's standard library that the program's own decisions rest on:
  \<^verbatim>\<open>strings\<close>, \<^verbatim>\<open>path/filepath\<close>, \<^verbatim>\<open>strconv.Atoi\<close> and UTF-8
  (\<^verbatim>\<open>unicode/utf8\<close>, \<^verbatim>\<open>range\<close> over a string), over byte strings.
\<close>

section \<open>strings\<close>

definition has_prefix :: "string \<Rightarrow> string \<Rightarrow> bool" where
  "has_prefix s p \<longleftrightarrow> take (length p) s = p"

definition trim_prefix :: "string \<Rightarrow> string \<Rightarrow> string" where
  "trim_prefix s p = (if has_prefix s p then drop (length p) s else s)"

text \<open>\<^verbatim>\<open>strings.IndexByte\<close>: the first position of a byte, \<open>None\<close> for -1.\<close>

fun index_byte :: "string \<Rightarrow> char \<Rightarrow> nat option" where
  "index_byte [] b = None"
| "index_byte (c # cs) b = (if c = b then Some 0 else map_option Suc (index_byte cs b))"

text \<open>\<^verbatim>\<open>strings.TrimRight(s, cutset)\<close> for a one-byte cutset.\<close>

definition trim_right :: "string \<Rightarrow> char \<Rightarrow> string" where
  "trim_right s c = rev (dropWhile (\<lambda>x. x = c) (rev s))"

text \<open>\<^verbatim>\<open>strings.ReplaceAll\<close> of one byte by another.\<close>

definition replace_byte :: "char \<Rightarrow> char \<Rightarrow> string \<Rightarrow> string" where
  "replace_byte a b s = map (\<lambda>c. if c = a then b else c) s"

text \<open>
  \<^verbatim>\<open>strings.ToLower\<close> as far as its result can be an ASCII word, which is all the program compares
  it with: upper-case ASCII letters, and the two other characters whose lower case is ASCII, U+0130
  (bytes C4 B0, an i) and U+212A (bytes E2 84 AA, a k).
\<close>

definition lower_byte :: "char \<Rightarrow> char" where
  "lower_byte c = (let n = (of_char c :: nat) in if 65 \<le> n \<and> n \<le> 90 then char_of (n + 32) else c)"

fun to_lower :: "string \<Rightarrow> string" where
  "to_lower [] = []"
| "to_lower (c # s) =
     (if c = CHR 0xC4 \<and> take 1 s = [CHR 0xB0] then CHR ''i'' # to_lower (drop 1 s)
      else if c = CHR 0xE2 \<and> take 2 s = [CHR 0x84, CHR 0xAA] then CHR ''k'' # to_lower (drop 2 s)
      else lower_byte c # to_lower s)"

text \<open>\<^verbatim>\<open>strings.Split(s, sep)\<close> for a one-byte separator.\<close>

fun split_on :: "char \<Rightarrow> string \<Rightarrow> string list" where
  "split_on sep [] = [[]]"
| "split_on sep (c # cs) =
     (if c = sep then [] # split_on sep cs
      else (case split_on sep cs of [] \<Rightarrow> [[c]] | w # ws \<Rightarrow> (c # w) # ws))"

lemma index_byte_takeWhile:
  "(case index_byte s b of Some i \<Rightarrow> take i s | None \<Rightarrow> s) = takeWhile (\<lambda>c. c \<noteq> b) s"
  by (induction s) (auto split: option.splits)

section \<open>path/filepath\<close>

text \<open>
  \<^verbatim>\<open>filepath.Base\<close> on Unix: the last element, with \<^verbatim>\<open>.\<close> for the empty path and
  \<^verbatim>\<open>/\<close> for a path of slashes only.
\<close>

definition filepath_base :: "string \<Rightarrow> string" where
  "filepath_base p =
     (if p = [] then ''.''
      else let q = trim_right p (CHR ''/'');
               b = rev (takeWhile (\<lambda>c. c \<noteq> CHR ''/'') (rev q))
           in if b = [] then ''/'' else b)"

text \<open>
  \<^verbatim>\<open>filepath.Ext\<close>: the suffix from the last dot of the last path element, with the dot;
  empty when that element has no dot.
\<close>

definition filepath_ext :: "string \<Rightarrow> string" where
  "filepath_ext p =
     (let r = takeWhile (\<lambda>c. c \<noteq> CHR ''/'') (rev p) in
      if CHR ''.'' \<in> set r
      then rev (takeWhile (\<lambda>c. c \<noteq> CHR ''.'') r @ ''.'')
      else [])"

lemma filepath_base_no_slash: "filepath_base p \<noteq> ''/'' \<Longrightarrow> CHR ''/'' \<notin> set (filepath_base p)"
  by (auto simp: filepath_base_def Let_def split: if_splits dest: set_takeWhileD)

lemma filepath_base_nonempty: "filepath_base p \<noteq> []"
  by (auto simp: filepath_base_def Let_def)

section \<open>strconv.Atoi\<close>

definition digit_val :: "char \<Rightarrow> int option" where
  "digit_val c = (let n = (of_char c :: nat) in if 48 \<le> n \<and> n \<le> 57 then Some (int n - 48) else None)"

fun digits_val :: "int \<Rightarrow> string \<Rightarrow> int option" where
  "digits_val acc [] = Some acc"
| "digits_val acc (c # cs) =
     (case digit_val c of None \<Rightarrow> None | Some d \<Rightarrow> digits_val (10 * acc + d) cs)"

definition max_int64 :: int where "max_int64 = 9223372036854775807"
definition min_int64 :: int where "min_int64 = - 9223372036854775808"

text \<open>
  The value and whether \<^verbatim>\<open>err == nil\<close>.  A syntax error yields 0, a value out of
  range yields the nearest \<^verbatim>\<open>int64\<close> bound, both with an error.
\<close>

definition atoi :: "string \<Rightarrow> int \<times> bool" where
  "atoi s =
     (let neg = (s \<noteq> [] \<and> hd s = CHR ''-'');
          ds = (if s \<noteq> [] \<and> (hd s = CHR ''-'' \<or> hd s = CHR ''+'') then tl s else s)
      in if ds = [] then (0, False)
         else case digits_val 0 ds of
           None \<Rightarrow> (0, False)
         | Some v \<Rightarrow>
             (let n = (if neg then - v else v) in
              if n > max_int64 then (max_int64, False)
              else if n < min_int64 then (min_int64, False)
              else (n, True)))"

section \<open>UTF-8\<close>

text \<open>A code point that UTF-8 can encode: not a surrogate, at most U+10FFFF.\<close>

definition valid_rune :: "rune \<Rightarrow> bool" where
  "valid_rune r \<longleftrightarrow> r < 0xD800 \<or> (0xE000 \<le> r \<and> r \<le> 0x10FFFF)"

fun encode_rune :: "rune \<Rightarrow> nat list" where
  "encode_rune r =
     (if r < 0x80 then [r]
      else if r < 0x800 then [0xC0 + r div 64, 0x80 + r mod 64]
      else if r < 0x10000 then [0xE0 + r div 4096, 0x80 + r div 64 mod 64, 0x80 + r mod 64]
      else [0xF0 + r div 262144, 0x80 + r div 4096 mod 64, 0x80 + r div 64 mod 64, 0x80 + r mod 64])"

declare encode_rune.simps [simp del]

definition utf8_encode :: "rune list \<Rightarrow> string" where
  "utf8_encode rs = map char_of (concat (map encode_rune rs))"

definition cont_byte :: "nat \<Rightarrow> bool" where
  "cont_byte b \<longleftrightarrow> 0x80 \<le> b \<and> b \<le> 0xBF"

text \<open>
  One rune off the front of a byte string, by the table of well-formed sequences that
  \<^verbatim>\<open>unicode/utf8\<close> uses (no overlong forms, no surrogates, at most U+10FFFF).
\<close>

definition decode_rune :: "nat list \<Rightarrow> (rune \<times> nat list) option" where
  "decode_rune bs =
     (case bs of [] \<Rightarrow> None
      | b0 # r0 \<Rightarrow>
        if b0 < 0x80 then Some (b0, r0)
        else if 0xC2 \<le> b0 \<and> b0 \<le> 0xDF then
          (case r0 of b1 # r1 \<Rightarrow>
             if cont_byte b1 then Some ((b0 - 0xC0) * 64 + (b1 - 0x80), r1) else None
           | _ \<Rightarrow> None)
        else if 0xE0 \<le> b0 \<and> b0 \<le> 0xEF then
          (case r0 of b1 # b2 # r2 \<Rightarrow>
             if cont_byte b1 \<and> cont_byte b2 \<and> (b0 = 0xE0 \<longrightarrow> 0xA0 \<le> b1) \<and> (b0 = 0xED \<longrightarrow> b1 \<le> 0x9F)
             then Some ((b0 - 0xE0) * 4096 + (b1 - 0x80) * 64 + (b2 - 0x80), r2) else None
           | _ \<Rightarrow> None)
        else if 0xF0 \<le> b0 \<and> b0 \<le> 0xF4 then
          (case r0 of b1 # b2 # b3 # r3 \<Rightarrow>
             if cont_byte b1 \<and> cont_byte b2 \<and> cont_byte b3
                \<and> (b0 = 0xF0 \<longrightarrow> 0x90 \<le> b1) \<and> (b0 = 0xF4 \<longrightarrow> b1 \<le> 0x8F)
             then Some ((b0 - 0xF0) * 262144 + (b1 - 0x80) * 4096 + (b2 - 0x80) * 64 + (b3 - 0x80), r3)
             else None
           | _ \<Rightarrow> None)
        else None)"

lemma decode_rune_shorter: "decode_rune bs = Some (r, rest) \<Longrightarrow> length rest < length bs"
  by (auto simp: decode_rune_def split: list.splits if_splits)

function decode_bytes :: "nat list \<Rightarrow> rune list option" where
  "decode_bytes [] = Some []"
| "decode_bytes (b # bs) =
     (case decode_rune (b # bs) of
        None \<Rightarrow> None
      | Some (r, rest) \<Rightarrow> map_option (Cons r) (decode_bytes rest))"
  by pat_completeness auto
termination
  by (relation "measure length") (auto dest: decode_rune_shorter)

lemma decode_bytes_step:
  "bs \<noteq> [] \<Longrightarrow> decode_bytes bs = (case decode_rune bs of
     None \<Rightarrow> None | Some (r, rest) \<Rightarrow> map_option (Cons r) (decode_bytes rest))"
  by (cases bs) auto

text \<open>One decoded rune at a time: the case split and the induction the proofs below use.\<close>

lemma decode_bytes_Some_induct [consumes 1, case_names Nil Rune]:
  assumes "decode_bytes bs = Some rs"
    and "P [] []"
    and "\<And>bs r rest rs. decode_rune bs = Some (r, rest) \<Longrightarrow> P rest rs \<Longrightarrow> P bs (r # rs)"
  shows "P bs rs"
  using assms(1)
proof (induction bs arbitrary: rs rule: decode_bytes.induct)
  case 1
  with assms(2) show ?case by simp
next
  case (2 b bs)
  then obtain r rest rs' where "decode_rune (b # bs) = Some (r, rest)"
    "decode_bytes rest = Some rs'" "rs = r # rs'"
    by (auto split: option.splits)
  with 2(1) assms(3) show ?case by auto
qed

text \<open>\<open>None\<close> when the string is not valid UTF-8 (\<^verbatim>\<open>utf8.ValidString\<close> is false).\<close>

definition utf8_decode :: "string \<Rightarrow> rune list option" where
  "utf8_decode s = decode_bytes (map of_char s)"

lemma decode_encode_rune:
  assumes "valid_rune r"
  shows "decode_rune (encode_rune r @ bs) = Some (r, bs)"
proof -
  have 64: "0x80 + (r div 64 mod 64) \<le> 0xBF" "0x80 + r mod 64 \<le> 0xBF" "0x80 + (r div 4096 mod 64) \<le> 0xBF"
    by simp_all
  consider "r < 0x80" | "0x80 \<le> r" "r < 0x800" | "0x800 \<le> r" "r < 0x10000"
    | "0x10000 \<le> r" "r \<le> 0x10FFFF"
    using assms unfolding valid_rune_def by linarith
  then show ?thesis
  proof cases
    case 1
    then show ?thesis by (simp add: encode_rune.simps decode_rune_def)
  next
    case 2
    then have "2 \<le> r div 64" and "r div 64 < 32" by auto
    with 2 64 show ?thesis by (auto simp: encode_rune.simps decode_rune_def cont_byte_def)
  next
    case 3
    then have a: "r div 4096 < 16" "r div 64 = r div 4096 * 64 + r div 64 mod 64"
      by (auto simp: div_mult2_eq [of r 64 64, simplified])
    moreover have "r div 4096 = 0 \<Longrightarrow> 32 \<le> r div 64 mod 64" using 3 a by auto
    moreover have "r div 64 mod 64 < 32" if d: "r div 4096 = 13"
    proof -
      from d have "r < 0xE000" by simp
      with assms have "r div 64 < 0xD800 div 64" by (auto simp: valid_rune_def)
      with d a show ?thesis by auto
    qed
    moreover have "r div 4096 * 4096 + r div 64 mod 64 * 64 + r mod 64 = r"
      using a div_mult_mod_eq [of r 64] by linarith
    ultimately show ?thesis using 3 64
      by (auto simp: encode_rune.simps decode_rune_def cont_byte_def)
  next
    case 4
    then have a: "r div 262144 < 5" "r div 4096 = r div 262144 * 64 + r div 4096 mod 64"
      "r div 64 = r div 4096 * 64 + r div 64 mod 64"
      by (auto simp: div_mult2_eq [of r 64 64, simplified] div_mult2_eq [of r 4096 64, simplified])
    moreover have "r div 262144 = 0 \<Longrightarrow> 16 \<le> r div 4096 mod 64" using 4 a by auto
    moreover have "r div 4096 < 272" using 4 by auto
    then have "r div 262144 = 4 \<Longrightarrow> r div 4096 mod 64 < 16" using a by auto
    moreover have "r div 262144 * 262144 + r div 4096 mod 64 * 4096 + r div 64 mod 64 * 64 + r mod 64 = r"
      using a div_mult_mod_eq [of r 64] by linarith
    ultimately show ?thesis using 4 64
      by (auto simp: encode_rune.simps decode_rune_def cont_byte_def)
  qed
qed

lemma encode_rune_bytes: "valid_rune r \<Longrightarrow> b \<in> set (encode_rune r) \<Longrightarrow> b < 256"
  by (auto simp: encode_rune.simps valid_rune_def split: if_splits)

lemma encode_rune_nonempty: "encode_rune r \<noteq> []"
  by (simp add: encode_rune.simps)

text \<open>The four shapes of a well-formed sequence, with the payload bits named.\<close>

lemma decode_rune_cases:
  assumes "decode_rune bs = Some (r, rest)"
  obtains (one) "r < 0x80" and "bs = r # rest"
  | (two) x y where "2 \<le> x" "x < 32" "y < 64" "bs = (0xC0 + x) # (0x80 + y) # rest" "r = x * 64 + y"
  | (three) x y z where "x < 16" "y < 64" "z < 64" "x = 0 \<longrightarrow> 32 \<le> y" "x = 13 \<longrightarrow> y < 32"
      "bs = (0xE0 + x) # (0x80 + y) # (0x80 + z) # rest" "r = x * 4096 + y * 64 + z"
  | (four) x y z u where "x < 5" "y < 64" "z < 64" "u < 64" "x = 0 \<longrightarrow> 16 \<le> y" "x = 4 \<longrightarrow> y < 16"
      "bs = (0xF0 + x) # (0x80 + y) # (0x80 + z) # (0x80 + u) # rest"
      "r = x * 262144 + y * 4096 + z * 64 + u"
proof -
  obtain b0 r0 where bs: "bs = b0 # r0" using assms by (cases bs) (auto simp: decode_rune_def)
  consider "b0 < 0x80" | "0xC2 \<le> b0" "b0 \<le> 0xDF" | "0xE0 \<le> b0" "b0 \<le> 0xEF" | "0xF0 \<le> b0" "b0 \<le> 0xF4"
    using assms bs by (fastforce simp: decode_rune_def split: if_splits)
  then show thesis
  proof cases
    case 1
    with assms bs show thesis by (intro one) (auto simp: decode_rune_def)
  next
    case 2
    with assms bs obtain b1 where "r0 = b1 # rest" "0x80 \<le> b1" "b1 \<le> 0xBF"
      "r = (b0 - 0xC0) * 64 + (b1 - 0x80)"
      by (auto simp: decode_rune_def cont_byte_def split: list.splits if_splits)
    with 2 bs show thesis by (intro two [of "b0 - 0xC0" "b1 - 0x80"]) auto
  next
    case 3
    with assms bs obtain b1 b2 where "r0 = b1 # b2 # rest" "0x80 \<le> b1" "b1 \<le> 0xBF" "0x80 \<le> b2" "b2 \<le> 0xBF"
      "b0 = 0xE0 \<longrightarrow> 0xA0 \<le> b1" "b0 = 0xED \<longrightarrow> b1 \<le> 0x9F"
      "r = (b0 - 0xE0) * 4096 + (b1 - 0x80) * 64 + (b2 - 0x80)"
      by (auto simp: decode_rune_def cont_byte_def split: list.splits if_splits)
    with 3 bs show thesis by (intro three [of "b0 - 0xE0" "b1 - 0x80" "b2 - 0x80"]) auto
  next
    case 4
    with assms bs obtain b1 b2 b3 where "r0 = b1 # b2 # b3 # rest" "0x80 \<le> b1" "b1 \<le> 0xBF"
      "0x80 \<le> b2" "b2 \<le> 0xBF" "0x80 \<le> b3" "b3 \<le> 0xBF"
      "b0 = 0xF0 \<longrightarrow> 0x90 \<le> b1" "b0 = 0xF4 \<longrightarrow> b1 \<le> 0x8F"
      "r = (b0 - 0xF0) * 262144 + (b1 - 0x80) * 4096 + (b2 - 0x80) * 64 + (b3 - 0x80)"
      by (auto simp: decode_rune_def cont_byte_def split: list.splits if_splits)
    with 4 bs show thesis by (intro four [of "b0 - 0xF0" "b1 - 0x80" "b2 - 0x80" "b3 - 0x80"]) auto
  qed
qed

lemma decode_rune_valid:
  assumes "decode_rune bs = Some (r, rest)"
  shows "valid_rune r"
  using assms
proof (cases rule: decode_rune_cases)
  case (three x y z)
  then consider "x < 13" | "x = 13" | "14 \<le> x" by linarith
  then show ?thesis using three unfolding valid_rune_def by cases auto
next
  case (four x y z u)
  then consider "x = 0" | "1 \<le> x" "x < 4" | "x = 4" by linarith
  then show ?thesis using four unfolding valid_rune_def by cases auto
qed (auto simp: valid_rune_def)

lemma decode_encode_bytes:
  "list_all valid_rune rs \<Longrightarrow> decode_bytes (concat (map encode_rune rs)) = Some rs"
proof (induction rs)
  case (Cons r rs)
  then show ?case
    by (subst decode_bytes_step) (simp_all add: decode_encode_rune encode_rune_nonempty)
qed simp

lemma utf8_decode_encode: "list_all valid_rune rs \<Longrightarrow> utf8_decode (utf8_encode rs) = Some rs"
proof -
  assume v: "list_all valid_rune rs"
  have "map of_char (map char_of (concat (map encode_rune rs)) :: char list)
      = (concat (map encode_rune rs) :: nat list)"
    using v by (auto simp: list_all_iff comp_def take_bit_eq_mod
        intro!: map_idI mod_less elim!: encode_rune_bytes [rotated])
  then show ?thesis
    using v by (simp add: utf8_decode_def utf8_encode_def decode_encode_bytes)
qed

lemma decode_bytes_valid: "decode_bytes bs = Some rs \<Longrightarrow> list_all valid_rune rs"
  by (induction rule: decode_bytes_Some_induct) (auto dest: decode_rune_valid)

lemma utf8_decode_valid: "utf8_decode s = Some rs \<Longrightarrow> list_all valid_rune rs"
  by (auto simp: utf8_decode_def dest: decode_bytes_valid)

text \<open>Every byte string that decodes is the encoding of what it decodes to.\<close>

lemma div_mod_payload:
  "y < 64 \<Longrightarrow> (x * 64 + y) div 64 = (x :: nat)" "y < 64 \<Longrightarrow> (x * 64 + y) mod 64 = (y :: nat)"
  by auto

lemma decode_rune_encode:
  assumes "decode_rune bs = Some (r, rest)"
  shows "bs = encode_rune r @ rest"
  using assms
proof (cases rule: decode_rune_cases)
  case (two x y)
  then have "r div 64 = x" "r mod 64 = y" by auto
  with two show ?thesis by (auto simp: encode_rune.simps)
next
  case (three x y z)
  then have r: "r = (x * 64 + y) * 64 + z" by simp
  have "r div 64 = x * 64 + y" "r mod 64 = z" unfolding r using three(3) by (simp_all only: div_mod_payload)
  moreover from this three have "r div 4096 = x" by auto
  ultimately show ?thesis using three by (auto simp: encode_rune.simps)
next
  case (four x y z u)
  then have r: "r = ((x * 64 + y) * 64 + z) * 64 + u" by simp
  have a: "r div 64 = (x * 64 + y) * 64 + z" "r mod 64 = u"
    unfolding r using four(4) by (simp_all only: div_mod_payload)
  moreover from four have b: "r div 4096 = x * 64 + y" "r div 262144 = x" by auto
  moreover from a b four have "r div 64 mod 64 = z" "r div 4096 mod 64 = y"
    by (simp_all only: div_mod_payload)
  ultimately show ?thesis using four by (auto simp: encode_rune.simps)
qed (simp add: encode_rune.simps)

lemma encode_decode_bytes: "decode_bytes bs = Some rs \<Longrightarrow> concat (map encode_rune rs) = bs"
  by (induction rule: decode_bytes_Some_induct) (auto dest: decode_rune_encode)

lemma utf8_encode_decode: "utf8_decode s = Some rs \<Longrightarrow> utf8_encode rs = s"
  by (auto simp: utf8_decode_def utf8_encode_def comp_def dest: encode_decode_bytes)

end
