(* ===== verification/Domain.thy ===== *)
theory Domain
  imports Go_Lib
begin

text \<open>
  \<^verbatim>\<open>internal/domain\<close> and the identity part of \<^verbatim>\<open>internal/port\<close>: the sentinel
  errors and how wrapping keeps them recognisable, the business entities, the scope check,
  and the identity a request context carries.
\<close>

section \<open>Errors (domain/errors.go, port/auth.go)\<close>

text \<open>
  The sentinels, errors of the driver (\<open>SqlErrNoRows\<close>, \<open>PqError\<close> with its SQLSTATE),
  any other error with its text (\<open>Opaque\<close>), and \<^verbatim>\<open>fmt.Errorf("pre%wpost", err)\<close>.
\<close>

datatype goerr =
    ErrNotFound
  | ErrConflict
  | ErrValidation
  | ErrUnsupportedMediaType
  | ErrFileTooLarge
  | ErrKeyMissing
  | ErrKeyInvalid
  | ErrKeyExpired
  | ErrKeyRevoked
  | ErrNoTenantContext
  | SqlErrNoRows
  | PqError string
  | Opaque string
  | Errorf string goerr string

text \<open>\<^verbatim>\<open>errors.Is(err, target)\<close> walks the chain of wrapped errors.\<close>

fun errors_is :: "goerr \<Rightarrow> goerr \<Rightarrow> bool" where
  "errors_is (Errorf pre e post) t = (Errorf pre e post = t \<or> errors_is e t)"
| "errors_is e t = (e = t)"

text \<open>\<^verbatim>\<open>errors.As(err, &pqErr)\<close>: the SQLSTATE of the first driver error in the chain.\<close>

fun errors_as_pq :: "goerr \<Rightarrow> string option" where
  "errors_as_pq (Errorf pre e post) = errors_as_pq e"
| "errors_as_pq (PqError code) = Some code"
| "errors_as_pq e = None"

fun Error :: "goerr \<Rightarrow> string" where
  "Error ErrNotFound = ''entity not found''"
| "Error ErrConflict = ''entity already exists''"
| "Error ErrValidation = ''validation error''"
| "Error ErrUnsupportedMediaType = ''unsupported media type''"
| "Error ErrFileTooLarge = ''file too large''"
| "Error ErrKeyMissing = ''auth: missing credential''"
| "Error ErrKeyInvalid = ''auth: invalid credential''"
| "Error ErrKeyExpired = ''auth: credential expired''"
| "Error ErrKeyRevoked = ''auth: credential revoked''"
| "Error ErrNoTenantContext =
     ''port: no tenant identity in context (auth middleware did not run?)''"
| "Error SqlErrNoRows = ''sql: no rows in result set''"
| "Error (PqError code) = ''pq: '' @ code"
| "Error (Opaque msg) = msg"
| "Error (Errorf pre e post) = pre @ Error e @ post"

section \<open>Entities\<close>

datatype MediaType = MediaTypeImage | MediaTypeVideo

datatype JobStatus = JobStatusPending | JobStatusRunning | JobStatusCompleted | JobStatusFailed

datatype TenantStatus = TenantStatusActive | TenantStatusSuspended

record Tag =
  tag_ID :: uuid
  tag_Name :: string
  tag_CreatedAt :: time

record Media =
  media_ID :: uuid
  media_Name :: string
  media_Type :: MediaType
  media_FilePath :: string
  media_OriginalName :: string
  media_FileSize :: int
  media_Tags :: "Tag list"
  media_CreatedAt :: time

record Job =
  job_ID :: uuid
  job_TenantID :: uuid
  job_Type :: string
  job_Payload :: string
  job_Status :: JobStatus
  job_Result :: "string option"
  job_Error :: string
  job_Attempts :: int
  job_MaxAttempts :: int
  job_ScheduledAt :: time
  job_StartedAt :: "time option"
  job_CompletedAt :: "time option"
  job_CreatedAt :: time

definition LegacyTenantID :: uuid where "LegacyTenantID = 1"

section \<open>Identity and scopes (domain/tenant.go)\<close>

record Identity =
  id_TenantID :: uuid
  id_KeyID :: uuid
  id_Scopes :: "string list"
  id_ExpiresAt :: "time option"

text \<open>The loop of \<^verbatim>\<open>HasScope\<close> over the granted scopes.\<close>

fun has_scope_loop :: "string \<Rightarrow> string \<Rightarrow> string list \<Rightarrow> bool" where
  "has_scope_loop scope category [] = False"
| "has_scope_loop scope category (granted # rest) =
     (if granted = scope then True
      else if granted = ''admin:*'' then True
      else if granted = category @ '':*'' then True
      else has_scope_loop scope category rest)"

definition HasScope :: "Identity \<Rightarrow> string \<Rightarrow> bool" where
  "HasScope i scope =
     (if scope = [] then True
      else let category = (case index_byte scope (CHR '':'') of Some idx \<Rightarrow> take idx scope | None \<Rightarrow> scope)
           in has_scope_loop scope category (id_Scopes i))"

section \<open>The request context (port/auth.go)\<close>

text \<open>
  A context carries at most one identity and at most one deadline.  A context that was cancelled
  or whose deadline has passed makes the external calls made under it fail, which the call faults
  of the world model.
\<close>

record Ctx =
  ctx_identity :: "Identity option"
  ctx_deadline :: "time option"

definition background :: Ctx where "background = \<lparr>ctx_identity = None, ctx_deadline = None\<rparr>"

text \<open>\<^verbatim>\<open>context.WithTimeout\<close> at time \<open>now\<close>: the earlier of the parent's deadline and the new one.\<close>

definition WithTimeout :: "time \<Rightarrow> Ctx \<Rightarrow> time \<Rightarrow> Ctx" where
  "WithTimeout now ctx d =
     ctx\<lparr>ctx_deadline := Some (case ctx_deadline ctx of None \<Rightarrow> now + d | Some t \<Rightarrow> min t (now + d))\<rparr>"

definition WithIdentity :: "Ctx \<Rightarrow> Identity \<Rightarrow> Ctx" where
  "WithIdentity ctx i = ctx\<lparr>ctx_identity := Some i\<rparr>"

definition IdentityFromContext :: "Ctx \<Rightarrow> Identity option" where
  "IdentityFromContext ctx = ctx_identity ctx"

definition TenantIDFromContext :: "Ctx \<Rightarrow> goerr + uuid" where
  "TenantIDFromContext ctx =
     (case IdentityFromContext ctx of
        None \<Rightarrow> Inl ErrNoTenantContext
      | Some i \<Rightarrow> Inr (id_TenantID i))"

section \<open>Lemmas\<close>

lemma errors_is_refl [simp]: "errors_is e e"
  by (cases e) auto

lemma errors_is_Errorf [simp]:
  "(\<And>p q s. t \<noteq> Errorf p q s) \<Longrightarrow> errors_is (Errorf pre e post) t = errors_is e t"
  by auto

lemma has_scope_loop_iff:
  "has_scope_loop scope category granted \<longleftrightarrow>
     scope \<in> set granted \<or> ''admin:*'' \<in> set granted \<or> category @ '':*'' \<in> set granted"
  by (induction granted) auto

lemma TenantIDFromContext_With [simp]:
  "TenantIDFromContext (WithIdentity ctx i) = Inr (id_TenantID i)"
  by (simp add: TenantIDFromContext_def IdentityFromContext_def WithIdentity_def)

lemma TenantIDFromContext_None:
  "TenantIDFromContext ctx = Inl e \<longleftrightarrow> ctx_identity ctx = None \<and> e = ErrNoTenantContext"
  by (auto simp: TenantIDFromContext_def IdentityFromContext_def split: option.splits)

lemma HasScope_iff:
  "HasScope i scope \<longleftrightarrow>
     scope = [] \<or> scope \<in> set (id_Scopes i) \<or> ''admin:*'' \<in> set (id_Scopes i)
     \<or> takeWhile (\<lambda>c. c \<noteq> CHR '':'') scope @ '':*'' \<in> set (id_Scopes i)"
  by (simp add: HasScope_def has_scope_loop_iff index_byte_takeWhile Let_def)

end
