(* ===== verification/Port.thy ===== *)
theory Port
  imports Domain
begin

text \<open>
  \<^verbatim>\<open>internal/port\<close>: the interfaces the services depend on, as records of operations
  over an arbitrary state, and the contracts of the interfaces as locales.  The adapters'
  theories interpret the locales on their own operations.
\<close>

section \<open>Parameters and results (port/repository.go)\<close>

record TagCursor =
  tc_Name :: string
  tc_ID :: uuid

record MediaCursor =
  mc_CreatedAt :: time
  mc_ID :: uuid

record MediaFilter =
  mf_TagIDs :: "uuid list"
  mf_TagNames :: "string list"

section \<open>Interfaces\<close>

record 'w TagRepository =
  tr_CreateOrGet :: "Ctx \<Rightarrow> string \<Rightarrow> ('w, goerr, Tag \<times> bool) op"
  tr_List :: "Ctx \<Rightarrow> nat \<Rightarrow> TagCursor option \<Rightarrow> ('w, goerr, Tag list \<times> TagCursor option) op"
  tr_Rename :: "Ctx \<Rightarrow> uuid \<Rightarrow> string \<Rightarrow> ('w, goerr, Tag) op"
  tr_Delete :: "Ctx \<Rightarrow> uuid \<Rightarrow> ('w, goerr, unit) op"

record 'w MediaRepository =
  mr_Create :: "Ctx \<Rightarrow> Media \<Rightarrow> uuid list \<Rightarrow> ('w, goerr, Media) op"
  mr_GetByID :: "Ctx \<Rightarrow> uuid \<Rightarrow> ('w, goerr, Media) op"
  mr_List :: "Ctx \<Rightarrow> nat \<Rightarrow> MediaCursor option \<Rightarrow> MediaFilter \<Rightarrow>
    ('w, goerr, Media list \<times> MediaCursor option) op"
  mr_Delete :: "Ctx \<Rightarrow> uuid \<Rightarrow> ('w, goerr, string) op"
  mr_AttachTags :: "Ctx \<Rightarrow> uuid \<Rightarrow> uuid list \<Rightarrow> ('w, goerr, unit) op"
  mr_DetachTag :: "Ctx \<Rightarrow> uuid \<Rightarrow> uuid \<Rightarrow> ('w, goerr, unit) op"

record 'w IdempotencyStore =
  is_Get :: "Ctx \<Rightarrow> string \<Rightarrow> ('w, goerr, (int \<times> string) option) op"
  is_Set :: "Ctx \<Rightarrow> string \<Rightarrow> int \<Rightarrow> string option \<Rightarrow> ('w, goerr, unit) op"
  is_Cleanup :: "Ctx \<Rightarrow> ('w, goerr, unit) op"

record 'w FileStorage =
  fs_Save :: "Ctx \<Rightarrow> string \<Rightarrow> string \<Rightarrow> ('w, goerr, string) op"
  fs_Delete :: "Ctx \<Rightarrow> string \<Rightarrow> ('w, goerr, unit) op"
  fs_URL :: "string \<Rightarrow> string \<Rightarrow> string"
  fs_URLWithExpiry :: "Ctx \<Rightarrow> string \<Rightarrow> string \<Rightarrow> time \<Rightarrow> ('w, goerr, string) op"

record 'w JobQueue =
  jq_Enqueue :: "Ctx \<Rightarrow> string \<Rightarrow> string option \<Rightarrow> ('w, goerr, uuid) op"
  jq_Dequeue :: "Ctx \<Rightarrow> ('w, goerr, Job option) op"
  jq_Complete :: "Ctx \<Rightarrow> uuid \<Rightarrow> string option \<Rightarrow> ('w, goerr, unit) op"
  jq_Fail :: "Ctx \<Rightarrow> uuid \<Rightarrow> string \<Rightarrow> ('w, goerr, unit) op"
  jq_Cleanup :: "Ctx \<Rightarrow> int \<Rightarrow> ('w, goerr, nat) op"

record 'w AuthVerifier =
  av_Verify :: "Ctx \<Rightarrow> string \<Rightarrow> ('w, goerr, Identity) op"

text \<open>\<^verbatim>\<open>JobHandler.Execute\<close>: a payload to a result (nil or a JSON text).\<close>

type_synonym 'w JobHandler = "Ctx \<Rightarrow> string \<Rightarrow> ('w, goerr, string option) op"

section \<open>The contract of TagRepository\<close>

text \<open>
  \<open>dir w\<close>: the tags of the caller's tenant by name.  Creating is create-or-get on that map;
  renaming moves an entry; deleting removes it.
\<close>

locale tag_repository =
  fixes repo :: "'w TagRepository"
    and ctx :: Ctx
    and inv :: "'w \<Rightarrow> bool"
    and dir :: "'w \<Rightarrow> string \<rightharpoonup> Tag"
  assumes create_keeps: "keeps inv (tr_CreateOrGet repo ctx n)"
    and rename_keeps: "keeps inv (tr_Rename repo ctx i n)"
    and delete_keeps: "keeps inv (tr_Delete repo ctx i)"
    and dir_name: "inv w \<Longrightarrow> dir w n = Some t \<Longrightarrow> tag_Name t = n"
    and dir_id: "inv w \<Longrightarrow> dir w n = Some t \<Longrightarrow> dir w n' = Some t' \<Longrightarrow> tag_ID t = tag_ID t' \<Longrightarrow> n = n'"
    and create_Inr: "inv w \<Longrightarrow> tr_CreateOrGet repo ctx n w = (Inr (t, c), w') \<Longrightarrow>
      dir w' = (dir w)(n \<mapsto> t) \<and> (c \<longleftrightarrow> dir w n = None) \<and> (\<not> c \<longrightarrow> dir w n = Some t)"
    and rename_Inr: "inv w \<Longrightarrow> tr_Rename repo ctx i n w = (Inr t, w') \<Longrightarrow>
      tag_ID t = i \<and> tag_Name t = n \<and>
      (\<exists>old t0. dir w old = Some t0 \<and> tag_ID t0 = i \<and> dir w' = (dir w)(old := None, n \<mapsto> t))"
    and delete_Inr: "inv w \<Longrightarrow> tr_Delete repo ctx i w = (Inr (), w') \<Longrightarrow>
      \<exists>old t0. dir w old = Some t0 \<and> tag_ID t0 = i \<and> dir w' = (dir w)(old := None)"
begin

text \<open>Create-or-get is idempotent.\<close>

lemma create_twice:
  assumes "inv w" "tr_CreateOrGet repo ctx n w = (Inr (t, c), w')"
    and "tr_CreateOrGet repo ctx n w' = (Inr (t', c'), w'')"
  shows "t' = t \<and> \<not> c' \<and> dir w'' = dir w'"
proof -
  have "inv w'" using assms(1,2) create_keeps keepsD by metis
  with create_Inr [OF assms(1,2)] create_Inr [OF _ assms(3)] show ?thesis by auto
qed

lemma create_mono:
  "inv w \<Longrightarrow> tr_CreateOrGet repo ctx n w = (Inr (t, c), w') \<Longrightarrow> dir w m = Some u \<Longrightarrow> dir w' m = Some u"
  using create_Inr [of w n t c w'] by (cases "m = n") auto

text \<open>A created tag can be renamed back and forth: the old name becomes free.\<close>

lemma rename_frees:
  assumes "inv w" "tr_Rename repo ctx i n w = (Inr t, w')" "dir w old = Some t0" "tag_ID t0 = i" "old \<noteq> n"
  shows "dir w' old = None \<and> dir w' n = Some t"
proof -
  obtain old' t0' where "dir w old' = Some t0'" "tag_ID t0' = i" "dir w' = (dir w)(old' := None, n \<mapsto> t)"
    using rename_Inr [OF assms(1,2)] by blast
  moreover from this assms have "old' = old" by (metis dir_id)
  ultimately show ?thesis using assms(5) by simp
qed

lemma delete_gone:
  assumes "inv w" "tr_Delete repo ctx i w = (Inr (), w')" "dir w' n = Some t"
  shows "tag_ID t \<noteq> i"
proof
  assume "tag_ID t = i"
  obtain old t0 where "dir w old = Some t0" "tag_ID t0 = i" "dir w' = (dir w)(old := None)"
    using delete_Inr [OF assms(1,2)] by blast
  with assms(1,3) \<open>tag_ID t = i\<close> show False by (metis dir_id fun_upd_apply option.distinct(1))
qed

end

section \<open>The contract of MediaRepository\<close>

text \<open>
  \<open>get w\<close>: the media of the caller's tenant by id.  \<open>lost w\<close>: a commit acknowledgement may be
  lost from \<open>w\<close> on; otherwise an error means that nothing happened.
\<close>

locale media_repository =
  fixes repo :: "'w MediaRepository"
    and ctx :: Ctx
    and inv :: "'w \<Rightarrow> bool"
    and get :: "'w \<Rightarrow> uuid \<rightharpoonup> Media"
    and lost :: "'w \<Rightarrow> bool"
  assumes create_keeps: "keeps inv (mr_Create repo ctx m ids)"
    and attach_keeps: "keeps inv (mr_AttachTags repo ctx i ids)"
    and detach_keeps: "keeps inv (mr_DetachTag repo ctx i j)"
    and delete_keeps: "keeps inv (mr_Delete repo ctx i)"
    and get_id: "inv w \<Longrightarrow> get w i = Some m \<Longrightarrow> media_ID m = i"
    and create_Inr: "inv w \<Longrightarrow> mr_Create repo ctx m ids w = (Inr m', w') \<Longrightarrow>
      get w (media_ID m') = None \<and> get w' = (get w)(media_ID m' \<mapsto> m')
      \<and> m' = m\<lparr>media_ID := media_ID m', media_CreatedAt := media_CreatedAt m', media_Tags := media_Tags m'\<rparr>
      \<and> tag_ID ` set (media_Tags m') \<subseteq> set ids"
    and create_Inl: "mr_Create repo ctx m ids w = (Inl e, w') \<Longrightarrow> get w' = get w \<or> lost w"
    and get_Inr: "inv w \<Longrightarrow> mr_GetByID repo ctx i w = (Inr m, w') \<Longrightarrow> get w i = Some m \<and> get w' = get w"
    and delete_Inr: "inv w \<Longrightarrow> mr_Delete repo ctx i w = (Inr p, w') \<Longrightarrow>
      \<exists>m. get w i = Some m \<and> p = media_FilePath m \<and> get w' = (get w)(i := None)"
    and delete_Inl: "mr_Delete repo ctx i w = (Inl e, w') \<Longrightarrow> get w' = get w \<or> lost w"
    and attach_Inr: "inv w \<Longrightarrow> mr_AttachTags repo ctx i ids w = (Inr (), w') \<Longrightarrow>
      \<exists>m ts. get w i = Some m \<and> get w' = (get w)(i \<mapsto> m\<lparr>media_Tags := ts\<rparr>)
        \<and> tag_ID ` set ts = tag_ID ` set (media_Tags m) \<union> set ids"
    and detach_Inr: "inv w \<Longrightarrow> mr_DetachTag repo ctx i j w = (Inr (), w') \<Longrightarrow>
      \<exists>m ts. get w i = Some m \<and> get w' = (get w)(i \<mapsto> m\<lparr>media_Tags := ts\<rparr>)
        \<and> tag_ID ` set ts = tag_ID ` set (media_Tags m) - {j}"
begin

text \<open>Attaching and detaching are idempotent on the set of tags.\<close>

lemma attach_twice:
  assumes w: "inv w" "mr_AttachTags repo ctx i ids w = (Inr (), w1)" "mr_AttachTags repo ctx i ids w1 = (Inr (), w2)"
    and "get w1 i = Some m1" "get w2 i = Some m2"
  shows "tag_ID ` set (media_Tags m2) = tag_ID ` set (media_Tags m1)"
proof -
  have "inv w1" using w attach_keeps keepsD by metis
  obtain m ts where a: "get w1 = (get w)(i \<mapsto> m\<lparr>media_Tags := ts\<rparr>)"
    "tag_ID ` set ts = tag_ID ` set (media_Tags m) \<union> set ids"
    using attach_Inr [OF w(1,2)] by blast
  obtain m' ts' where b: "get w1 i = Some m'" "get w2 = (get w1)(i \<mapsto> m'\<lparr>media_Tags := ts'\<rparr>)"
    "tag_ID ` set ts' = tag_ID ` set (media_Tags m') \<union> set ids"
    using attach_Inr [OF \<open>inv w1\<close> w(3)] by blast
  from a(1) b(1,2) assms(4,5) have "m1 = m\<lparr>media_Tags := ts\<rparr>" "m' = m1" "m2 = m'\<lparr>media_Tags := ts'\<rparr>"
    by simp_all
  then have "tag_ID ` set (media_Tags m2) = tag_ID ` set ts \<union> set ids" using b(3) by simp
  with a(2) \<open>m1 = _\<close> show ?thesis by (simp add: Un_assoc)
qed

lemma detach_after_attach:
  assumes w: "inv w" "mr_AttachTags repo ctx i ids w = (Inr (), w1)" "mr_DetachTag repo ctx i j w1 = (Inr (), w2)"
    and "get w i = Some m" "get w2 i = Some m2"
  shows "tag_ID ` set (media_Tags m2) = (tag_ID ` set (media_Tags m) \<union> set ids) - {j}"
proof -
  have "inv w1" using w attach_keeps keepsD by metis
  obtain ts where a: "get w1 = (get w)(i \<mapsto> m\<lparr>media_Tags := ts\<rparr>)"
    "tag_ID ` set ts = tag_ID ` set (media_Tags m) \<union> set ids"
    using attach_Inr [OF w(1,2)] assms(4) by auto
  obtain m' ts' where b: "get w1 i = Some m'" "get w2 = (get w1)(i \<mapsto> m'\<lparr>media_Tags := ts'\<rparr>)"
    "tag_ID ` set ts' = tag_ID ` set (media_Tags m') - {j}"
    using detach_Inr [OF \<open>inv w1\<close> w(3)] by blast
  from a(1) b(1,2) assms(5) have "m' = m\<lparr>media_Tags := ts\<rparr>" "m2 = m'\<lparr>media_Tags := ts'\<rparr>"
    by simp_all
  with a(2) b(3) show ?thesis by simp
qed

text \<open>An attached media reads back with the tags.\<close>

lemma attach_then_get:
  assumes w: "inv w" "mr_AttachTags repo ctx i ids w = (Inr (), w1)" "mr_GetByID repo ctx i w1 = (Inr m, w2)"
  shows "set ids \<subseteq> tag_ID ` set (media_Tags m)"
proof -
  have "inv w1" using w attach_keeps keepsD by metis
  with attach_Inr [OF w(1,2)] get_Inr [OF _ w(3)] show ?thesis by auto
qed

end

section \<open>The contract of JobQueue\<close>

text \<open>
  \<open>look w i\<close>: status, attempts and attempt limit of job \<open>i\<close>.  A delivered job was pending and is
  running with one attempt more; failing it makes it pending again while attempts are left;
  clean-up removes only finished jobs.
\<close>

locale job_queue =
  fixes q :: "'w JobQueue"
    and ctx :: Ctx
    and inv :: "'w \<Rightarrow> bool"
    and look :: "'w \<Rightarrow> uuid \<rightharpoonup> JobStatus \<times> int \<times> int"
  assumes dequeue_keeps: "keeps inv (jq_Dequeue q ctx)"
    and complete_keeps: "keeps inv (jq_Complete q ctx i res)"
    and fail_keeps: "keeps inv (jq_Fail q ctx i msg)"
    and look_bound: "inv w \<Longrightarrow> look w i = Some (st, a, m) \<Longrightarrow> 0 \<le> a \<and> a \<le> m \<and> (st = JobStatusPending \<longrightarrow> a < m)"
    and dequeue_Some: "inv w \<Longrightarrow> jq_Dequeue q ctx w = (Inr (Some j), w') \<Longrightarrow>
      \<exists>m. look w (job_ID j) = Some (JobStatusPending, job_Attempts j - 1, m)
        \<and> look w' = (look w)(job_ID j \<mapsto> (JobStatusRunning, job_Attempts j, m))"
    and dequeue_None: "jq_Dequeue q ctx w = (Inr None, w') \<Longrightarrow> look w' = look w"
    and complete_Inr: "inv w \<Longrightarrow> jq_Complete q ctx i res w = (Inr (), w') \<Longrightarrow> look w i = Some (st, a, m) \<Longrightarrow>
      look w' = (look w)(i \<mapsto> (JobStatusCompleted, a, m))"
    and fail_Inr: "inv w \<Longrightarrow> jq_Fail q ctx i msg w = (Inr (), w') \<Longrightarrow> look w i = Some (st, a, m) \<Longrightarrow>
      look w' = (look w)(i \<mapsto> (if a \<ge> m then JobStatusFailed else JobStatusPending, a, m))"
    and complete_other: "k \<noteq> i \<Longrightarrow> look (snd (jq_Complete q ctx i res w)) k = look w k"
    and fail_other: "k \<noteq> i \<Longrightarrow> look (snd (jq_Fail q ctx i msg w)) k = look w k"
begin

text \<open>A delivery uses up one of the attempts that were left.\<close>

lemma dequeue_attempts:
  assumes "inv w" "jq_Dequeue q ctx w = (Inr (Some j), w')"
  shows "\<exists>m. look w' (job_ID j) = Some (JobStatusRunning, job_Attempts j, m)
    \<and> 1 \<le> job_Attempts j \<and> job_Attempts j \<le> m"
  using dequeue_Some [OF assms] look_bound [OF assms(1)] by fastforce

text \<open>A job whose last attempt fails is not delivered again.\<close>

lemma last_failure:
  assumes "inv w" "jq_Fail q ctx i msg w = (Inr (), w')" "look w i = Some (st, a, m)" "a = m"
    and "jq_Dequeue q ctx w' = (Inr (Some j), w'')"
  shows "job_ID j \<noteq> i"
proof
  assume "job_ID j = i"
  have "inv w'" using assms(1,2) fail_keeps keepsD by metis
  from dequeue_Some [OF this assms(5)] fail_Inr [OF assms(1-3)] assms(4) \<open>job_ID j = i\<close>
  show False by auto
qed

end

section \<open>The contract of IdempotencyStore\<close>

text \<open>
  \<open>cached w k\<close>: the response the caller's tenant would get replayed for key \<open>k\<close>; \<open>vacant w k\<close>:
  nothing is stored under \<open>k\<close>, not even an expired response.  The first writer wins.
\<close>

locale idempotency_store =
  fixes st :: "'w IdempotencyStore"
    and ctx :: Ctx
    and cached :: "'w \<Rightarrow> string \<rightharpoonup> int \<times> string"
    and vacant :: "'w \<Rightarrow> string \<Rightarrow> bool"
  assumes get_Inr: "is_Get st ctx k w = (Inr r, w') \<Longrightarrow> r = cached w k \<and> cached w' = cached w \<and> vacant w' = vacant w"
    and set_Some: "is_Set st ctx k c (Some b) w = (Inr (), w') \<Longrightarrow> vacant w k \<Longrightarrow> cached w' = (cached w)(k \<mapsto> (c, b))"
    and set_first: "is_Set st ctx k c ob w = (Inr (), w') \<Longrightarrow> \<not> vacant w k \<Longrightarrow> cached w' = cached w"
    and set_None: "vacant w k \<Longrightarrow> fst (is_Set st ctx k c None w) \<noteq> Inr ()"
    and vacant_uncached: "vacant w k \<Longrightarrow> cached w k = None"
begin

lemma set_then_get:
  assumes "vacant w k" "is_Set st ctx k c (Some b) w = (Inr (), w1)" "is_Get st ctx k w1 = (Inr r, w2)"
  shows "r = Some (c, b)"
  using get_Inr [OF assms(3)] set_Some [OF assms(2,1)] by simp

text \<open>A stored response survives any later \<^verbatim>\<open>Set\<close>.\<close>

lemma set_stable:
  assumes "cached w k = Some x" "is_Set st ctx k' c b w = (Inr (), w')"
  shows "cached w' k = Some x"
proof (cases "vacant w k'")
  case True
  with assms(2) set_None [of w k' c] obtain b' where "b = Some b'" by (cases b) auto
  with assms True set_Some [of k' c b' w w'] vacant_uncached [of w k'] show ?thesis by auto
next
  case False
  with assms set_first show ?thesis by metis
qed

end

section \<open>The contract of FileStorage\<close>

text \<open>
  \<open>files w\<close>: the stored files by path; \<open>path_ok\<close>: the paths the storage hands out.  A saved file
  gets a path that was free; a failed save leaves at most a new file behind; deleting is
  idempotent and never touches another file.  \<open>plenty w\<close>: the random ids have not run out, so that none
  drawn up to \<open>w\<close> repeats another, which no storage can promise for ever.
\<close>

locale file_storage =
  fixes st :: "'w FileStorage"
    and ctx :: Ctx
    and inv :: "'w \<Rightarrow> bool"
    and ext_ok :: "string \<Rightarrow> bool"
    and path_ok :: "string \<Rightarrow> bool"
    and files :: "'w \<Rightarrow> string \<rightharpoonup> string"
    and plenty :: "'w \<Rightarrow> bool"
  assumes save_keeps: "ext_ok e \<Longrightarrow> keeps inv (fs_Save st ctx c e)"
    and delete_keeps: "path_ok p \<Longrightarrow> keeps inv (fs_Delete st ctx p)"
    and save_Inr: "inv w \<Longrightarrow> ext_ok e \<Longrightarrow> fs_Save st ctx c e w = (Inr p, w') \<Longrightarrow> plenty w' \<Longrightarrow>
      path_ok p \<and> files w p = None \<and> files w' = (files w)(p \<mapsto> c)"
    and save_Inl: "inv w \<Longrightarrow> ext_ok e \<Longrightarrow> fs_Save st ctx c e w = (Inl x, w') \<Longrightarrow> plenty w' \<Longrightarrow>
      files w' = files w \<or> (\<exists>p. files w p = None \<and> (files w')(p := None) = files w)"
    and delete_Inr: "inv w \<Longrightarrow> path_ok p \<Longrightarrow> fs_Delete st ctx p w = (Inr (), w') \<Longrightarrow> files w' = (files w)(p := None)"
    and delete_Inl: "inv w \<Longrightarrow> path_ok p \<Longrightarrow> fs_Delete st ctx p w = (Inl x, w') \<Longrightarrow>
      files w' = files w \<or> files w' = (files w)(p := None)"
    and delete_supply: "fs_Delete st ctx p w = (u, w') \<Longrightarrow> plenty w' \<Longrightarrow> plenty w"
begin

text \<open>Undoing a save restores the files.\<close>

lemma save_then_delete:
  assumes "inv w" "ext_ok e" "fs_Save st ctx c e w = (Inr p, w1)" "fs_Delete st ctx p w1 = (Inr (), w2)" "plenty w2"
  shows "files w2 = files w"
  using save_Inr [OF assms(1-3) delete_supply [OF assms(4,5)]] delete_Inr [OF _ _ assms(4)] keepsD [OF save_keeps [OF assms(2)] assms(1,3)]
  by (auto simp: fun_eq_iff)

lemma save_keeps_others:
  assumes "inv w" "ext_ok e" "fs_Save st ctx c e w = (r, w1)" "plenty w1" "files w q = Some x"
  shows "files w1 q = Some x"
proof (cases r)
  case (Inl y)
  with save_Inl [OF assms(1,2)] assms(3-5) show ?thesis by (metis fun_upd_apply option.distinct(1))
next
  case (Inr p)
  with save_Inr [OF assms(1,2)] assms(3-5) show ?thesis by (metis fun_upd_apply option.distinct(1))
qed

end

end
