(* ===== verification/World.thy ===== *)
theory World
  imports Domain Port
begin

text \<open>
  The state the program acts on: the PostgreSQL tables of the migrations, the disk and the
  object store, the clock, the supplies of random UUIDs and of external-call outcomes.
  Library functions that are not under \<^verbatim>\<open>src/\<close> are collected in \<open>Ext\<close>, an argument
  of the definitions that call them.
\<close>

section \<open>External functions\<close>

text \<open>
  \<open>x_nfc\<close>: \<^verbatim>\<open>norm.NFC\<close>.  \<open>x_uuid_string\<close>, \<open>x_uuid_parse\<close>: \<^verbatim>\<open>github.com/google/uuid\<close>.
  \<open>x_collate\<close>: the sort key of the database's collation.  \<open>x_sha256_hex\<close>:
  \<^verbatim>\<open>crypto/sha256\<close> and the lower-case hex of its digest.  \<open>x_jsonb\<close>: how PostgreSQL reads a text
  as a JSONB value, as the text it gives back; \<open>None\<close> when it is not JSON.  \<open>x_time_text\<close>,
  \<open>x_time_parse\<close>: the RFC 3339 form of an instant in JSON texts.  \<open>x_quote\<close>: the \<^verbatim>\<open>%q\<close> of an
  error message (\<^verbatim>\<open>strconv.Quote\<close>, which rests on the Unicode table of printable characters).
  \<open>x_sniff\<close>: \<^verbatim>\<open>http.DetectContentType\<close>, the signature table of the first 512 bytes.
\<close>

record Ext =
  x_nfc :: "rune list \<Rightarrow> rune list"
  x_uuid_string :: "uuid \<Rightarrow> string"
  x_uuid_parse :: "string \<Rightarrow> uuid option"
  x_collate :: "string \<Rightarrow> nat list"
  x_sha256_hex :: "string \<Rightarrow> string"
  x_jsonb :: "string \<Rightarrow> string option"
  x_time_text :: "time \<Rightarrow> string"
  x_time_parse :: "string \<Rightarrow> time option"
  x_quote :: "string \<Rightarrow> string"
  x_sniff :: "string \<Rightarrow> string"

text \<open>Documented behaviour of \<^verbatim>\<open>uuid.UUID.String\<close>: 36 characters, hex digits and dashes.\<close>

definition uuid_string_spec :: "(uuid \<Rightarrow> string) \<Rightarrow> bool" where
  "uuid_string_spec f \<longleftrightarrow>
     inj f \<and> (\<forall>u. length (f u) = 36 \<and> CHR ''/'' \<notin> set (f u) \<and> CHR ''.'' \<notin> set (f u))"

text \<open>A deterministic collation orders the texts linearly: distinct texts, distinct keys.\<close>

definition collation_spec :: "(string \<Rightarrow> nat list) \<Rightarrow> bool" where
  "collation_spec f \<longleftrightarrow> inj f"

section \<open>Tables (migrations 001 to 006)\<close>

record tenant_row =
  tn_id :: uuid
  tn_name :: string
  tn_status :: TenantStatus
  tn_created :: time

text \<open>\<open>ak_scopes\<close> is the JSONB value read as an array of strings, \<open>None\<close> when it is none.\<close>

record api_key_row =
  ak_id :: uuid
  ak_tenant :: uuid
  ak_hash :: string
  ak_name :: string
  ak_scopes :: "string list option"
  ak_created :: time
  ak_expires :: "time option"
  ak_last_used :: "time option"

record tag_row =
  tg_id :: uuid
  tg_tenant :: uuid
  tg_name :: string
  tg_created :: time

record media_row =
  md_id :: uuid
  md_tenant :: uuid
  md_name :: string
  md_type :: MediaType
  md_path :: string
  md_orig :: string
  md_size :: int
  md_created :: time

record media_tag_row =
  mt_tenant :: uuid
  mt_media :: uuid
  mt_tag :: uuid

record idem_row =
  ik_tenant :: uuid
  ik_key :: string
  ik_status :: int
  ik_response :: string
  ik_created :: time
  ik_expires :: time

record job_row =
  jb_id :: uuid
  jb_tenant :: uuid
  jb_type :: string
  jb_payload :: string
  jb_status :: JobStatus
  jb_result :: "string option"
  jb_error :: "string option"
  jb_attempts :: int
  jb_max_attempts :: int
  jb_scheduled :: time
  jb_started :: "time option"
  jb_completed :: "time option"
  jb_created :: time

record db =
  tenants :: "tenant_row list"
  api_keys :: "api_key_row list"
  tags :: "tag_row list"
  media :: "media_row list"
  media_tags :: "media_tag_row list"
  idempotency_keys :: "idem_row list"
  jobs :: "job_row list"

section \<open>The world\<close>

text \<open>
  The outcome of one external call: it works, it fails without effect, or it takes effect and
  the caller is told that it failed (a connection lost while a commit is acknowledged).
\<close>

datatype fault = NoFault | Fault string | FaultAfter string

text \<open>
  Failures of COMMIT matter in their own way, so the outcomes are given for the two kinds of calls:
  \<open>w_faults w k n\<close> is the outcome of the call with number \<open>n\<close> if it is of kind \<open>k\<close>.
\<close>

datatype call = CommitCall | OtherCall

record World =
  w_db :: db
  w_disk :: "string \<rightharpoonup> string"
  w_objects :: "string \<rightharpoonup> string"
  w_clock :: time
  w_uuids :: "nat \<Rightarrow> uuid"
  w_drawn :: nat
  w_faults :: "call \<Rightarrow> nat \<Rightarrow> fault"
  w_calls :: nat
  w_bypass_rls :: bool

text \<open>\<open>w_bypass_rls\<close>: the database role is a superuser or has BYPASSRLS.\<close>

definition next_call :: "call \<Rightarrow> World \<Rightarrow> fault \<times> World" where
  "next_call k w = (w_faults w k (w_calls w), w\<lparr>w_calls := Suc (w_calls w)\<rparr>)"

definition draw_uuid :: "World \<Rightarrow> uuid \<times> World" where
  "draw_uuid w = (w_uuids w (w_drawn w), w\<lparr>w_drawn := Suc (w_drawn w)\<rparr>)"

lemma next_call_simps [simp]:
  "w_db (snd (next_call k w)) = w_db w" "w_disk (snd (next_call k w)) = w_disk w"
  "w_objects (snd (next_call k w)) = w_objects w" "w_clock (snd (next_call k w)) = w_clock w"
  "w_uuids (snd (next_call k w)) = w_uuids w" "w_drawn (snd (next_call k w)) = w_drawn w"
  "w_faults (snd (next_call k w)) = w_faults w" "w_bypass_rls (snd (next_call k w)) = w_bypass_rls w"
  by (simp_all add: next_call_def)

lemma next_call_w_db: "next_call k w = (f, w') \<Longrightarrow> w_db w' = w_db w"
  by (auto simp: next_call_def)

section \<open>Row-level security (migration 006)\<close>

text \<open>The session settings \<^verbatim>\<open>app.tenant_id\<close> and \<^verbatim>\<open>app.system_mode\<close>.\<close>

record session =
  s_tenant :: "uuid option"
  s_system :: bool
  s_bypass :: bool

definition app_current_tenant :: "session \<Rightarrow> uuid option" where
  "app_current_tenant s = s_tenant s"

definition app_system_mode :: "session \<Rightarrow> bool" where
  "app_system_mode s = s_system s"

text \<open>
  The two permissive policies of every tenant table, one for USING and WITH CHECK alike;
  a missing tenant makes \<^verbatim>\<open>tenant_id = app_current_tenant()\<close> NULL, which is not true.
\<close>

definition rls :: "session \<Rightarrow> uuid \<Rightarrow> bool" where
  "rls s tenant \<longleftrightarrow> s_bypass s \<or> app_current_tenant s = Some tenant \<or> app_system_mode s"

definition tenant_session :: "World \<Rightarrow> uuid \<Rightarrow> session" where
  "tenant_session w tid = \<lparr>s_tenant = Some tid, s_system = False, s_bypass = w_bypass_rls w\<rparr>"

definition system_session :: "World \<Rightarrow> session" where
  "system_session w = \<lparr>s_tenant = None, s_system = True, s_bypass = w_bypass_rls w\<rparr>"

lemma rls_tenant [simp]: "rls (tenant_session w tid) tid"
  by (simp add: rls_def tenant_session_def app_current_tenant_def)

lemma rls_system [simp]: "rls (system_session w) t"
  by (simp add: rls_def system_session_def app_system_mode_def)

lemma rls_other_tenant:
  "\<not> w_bypass_rls w \<Longrightarrow> rls (tenant_session w tid) t \<longleftrightarrow> t = tid"
  by (auto simp: rls_def tenant_session_def app_current_tenant_def app_system_mode_def)

section \<open>Statements\<close>

text \<open>SQLSTATE codes.\<close>

definition uniqueViolation :: string where "uniqueViolation = ''23505''"
definition foreignKeyViolation :: string where "foreignKeyViolation = ''23503''"
definition insufficientPrivilege :: string where "insufficientPrivilege = ''42501''"
definition invalidTextRepresentation :: string where "invalidTextRepresentation = ''22P02''"

text \<open>
  One statement sent to the server: the call may fail; otherwise the statement acts on the
  tables.  An INSERT draws its default \<^verbatim>\<open>gen_random_uuid()\<close> and reads \<^verbatim>\<open>now()\<close>.
\<close>

definition db_stmt :: "(World, goerr, 'a) op \<Rightarrow> (World, goerr, 'a) op" where
  "db_stmt f w =
     (case next_call OtherCall w of
        (NoFault, w') \<Rightarrow> f w'
      | (Fault msg, w') \<Rightarrow> (Inl (Opaque msg), w')
      | (FaultAfter msg, w') \<Rightarrow> (Inl (Opaque msg), w'))"

definition db_query :: "(db \<Rightarrow> 'a) \<Rightarrow> (World, goerr, 'a) op" where
  "db_query q = db_stmt (\<lambda>w. (Inr (q (w_db w)), w))"

definition db_exec :: "(time \<Rightarrow> db \<Rightarrow> goerr + 'a \<times> db) \<Rightarrow> (World, goerr, 'a) op" where
  "db_exec f = db_stmt (\<lambda>w.
     case f (w_clock w) (w_db w) of
       Inl e \<Rightarrow> (Inl e, w)
     | Inr (x, d) \<Rightarrow> (Inr x, w\<lparr>w_db := d\<rparr>))"

definition db_insert :: "(uuid \<Rightarrow> time \<Rightarrow> db \<Rightarrow> goerr + 'a \<times> db) \<Rightarrow> (World, goerr, 'a) op" where
  "db_insert f = db_stmt (\<lambda>w.
     case draw_uuid w of (u, w1) \<Rightarrow>
       (case f u (w_clock w1) (w_db w1) of
          Inl e \<Rightarrow> (Inl e, w1)
        | Inr (x, d) \<Rightarrow> (Inr x, w1\<lparr>w_db := d\<rparr>)))"

section \<open>Transactions (postgres/tx.go)\<close>

text \<open>ROLLBACK: the tables are what they were when the transaction began.\<close>

definition rollback :: "World \<Rightarrow> World \<Rightarrow> World" where
  "rollback w0 w = w\<lparr>w_db := w_db w0\<rparr>"

text \<open>
  COMMIT, with the value the closure returned.  The third outcome: the server committed and
  the acknowledgement was lost.
\<close>

definition tx_commit :: "World \<Rightarrow> 'a \<Rightarrow> (World, goerr, 'a) op" where
  "tx_commit w0 x w =
     (case next_call CommitCall w of
        (NoFault, w') \<Rightarrow> (Inr x, w')
      | (Fault msg, w') \<Rightarrow> (Inl (Opaque msg), rollback w0 w')
      | (FaultAfter msg, w') \<Rightarrow> (Inl (Opaque msg), w'))"

text \<open>BEGIN or SET LOCAL: a call with no effect on the tables, whose failure is wrapped.\<close>

definition tx_call :: "string \<Rightarrow> (World, goerr, unit) op" where
  "tx_call pre w =
     (case next_call OtherCall w of
        (NoFault, w') \<Rightarrow> (Inr (), w')
      | (Fault msg, w') \<Rightarrow> (Inl (Errorf pre (Opaque msg) ''''), w')
      | (FaultAfter msg, w') \<Rightarrow> (Inl (Errorf pre (Opaque msg) ''''), w'))"

text \<open>The shape both wrappers share: BEGIN, SET LOCAL, the closure, COMMIT or ROLLBACK.\<close>

definition run_tx :: "string \<Rightarrow> string \<Rightarrow> (World, goerr, 'a) op \<Rightarrow> (World, goerr, 'a) op" where
  "run_tx begin_msg set_msg fn w =
     (case tx_call begin_msg w of
        (Inl e, w1) \<Rightarrow> (Inl e, w1)
      | (Inr _, w1) \<Rightarrow>
        (case tx_call set_msg w1 of
           (Inl e, w2) \<Rightarrow> (Inl e, rollback w w2)
         | (Inr _, w2) \<Rightarrow>
           (case fn w2 of
              (Inl e, w3) \<Rightarrow> (Inl e, rollback w w3)
            | (Inr x, w3) \<Rightarrow> tx_commit w x w3)))"

definition withTenantTx ::
  "Ctx \<Rightarrow> (session \<Rightarrow> uuid \<Rightarrow> (World, goerr, 'a) op) \<Rightarrow> (World, goerr, 'a) op" where
  "withTenantTx ctx fn w =
     (case TenantIDFromContext ctx of
        Inl e \<Rightarrow> (Inl e, w)
      | Inr tenantID \<Rightarrow>
          run_tx ''begin tenant tx: '' ''set tenant in tx: '' (fn (tenant_session w tenantID) tenantID) w)"

definition withSystemTx :: "(session \<Rightarrow> (World, goerr, 'a) op) \<Rightarrow> (World, goerr, 'a) op" where
  "withSystemTx fn w =
     run_tx ''begin system tx: '' ''set system mode in tx: '' (fn (system_session w)) w"

section \<open>What transactions leave alone\<close>

text \<open>
  Database operations change nothing of the world but the tables and the two counters, and the
  counters only grow.
\<close>

definition db_only :: "World \<Rightarrow> World \<Rightarrow> bool" where
  "db_only w w' \<longleftrightarrow>
     w' = w\<lparr>w_db := w_db w', w_drawn := w_drawn w', w_calls := w_calls w'\<rparr> \<and> w_drawn w \<le> w_drawn w'"

lemma db_only_refl [simp]: "db_only w w"
  by (simp add: db_only_def)

lemma db_only_fields:
  assumes "db_only w w'"
  shows "w_disk w' = w_disk w" "w_objects w' = w_objects w" "w_clock w' = w_clock w"
    "w_uuids w' = w_uuids w" "w_faults w' = w_faults w" "w_bypass_rls w' = w_bypass_rls w"
    "w_drawn w \<le> w_drawn w'"
  using assms by (cases w; cases w'; simp add: db_only_def)+

lemma db_onlyI:
  assumes "w_disk w' = w_disk w" "w_objects w' = w_objects w" "w_clock w' = w_clock w"
    "w_uuids w' = w_uuids w" "w_faults w' = w_faults w" "w_bypass_rls w' = w_bypass_rls w"
    "w_drawn w \<le> w_drawn w'"
  shows "db_only w w'"
  using assms by (cases w; cases w') (simp add: db_only_def)

lemma db_only_iff:
  "db_only w w' \<longleftrightarrow>
     w_disk w' = w_disk w \<and> w_objects w' = w_objects w \<and> w_clock w' = w_clock w
   \<and> w_uuids w' = w_uuids w \<and> w_faults w' = w_faults w \<and> w_bypass_rls w' = w_bypass_rls w
   \<and> w_drawn w \<le> w_drawn w'"
  using db_only_fields db_onlyI by blast

text \<open>An operation is a database operation when it is \<open>db_only\<close> from every state.\<close>

definition db_op :: "(World, goerr, 'a) op \<Rightarrow> bool" where
  "db_op f \<longleftrightarrow> (\<forall>w. db_only w (snd (f w)))"

lemma db_opD: "db_op f \<Longrightarrow> f w = (r, w') \<Longrightarrow> db_only w w'"
  by (metis db_op_def snd_conv)

lemma db_only_trans: "db_only w w' \<Longrightarrow> db_only w' w'' \<Longrightarrow> db_only w w''"
  by (auto simp: db_only_iff)

lemma db_op_ret [frame]: "db_op (ret x)"
  by (simp add: db_op_def ret_def)

lemma db_op_fail [frame]: "db_op (fail e)"
  by (simp add: db_op_def fail_def)

lemma db_op_of_result [frame]: "db_op (of_result r)"
  by (simp add: db_op_def of_result_def)

lemma db_op_and_then [frame]: "db_op f \<Longrightarrow> (\<And>x. db_op (g x)) \<Longrightarrow> db_op (and_then f g)"
  by (force simp: db_op_def and_then_def intro: db_only_trans split: prod.splits sum.splits)

lemma db_op_handle [frame]:
  assumes f: "db_op f" and g: "\<And>x. db_op (g x)" and h: "\<And>e. db_op (h e)"
  shows "db_op (handle f g h)"
  unfolding db_op_def
proof
  fix w
  obtain r w' where "f w = (r, w')" by fastforce
  with f have fw: "f w = (r, w')" "db_only w w'" by (auto dest: db_opD)
  show "db_only w (snd (handle f g h w))"
  proof (cases r)
    case (Inl e)
    have "db_only w' (snd (h e w'))" using h by (simp add: db_op_def)
    with fw Inl show ?thesis by (auto intro: db_only_trans)
  next
    case (Inr x)
    have "db_only w' (snd (g x w'))" using g by (simp add: db_op_def)
    with fw Inr show ?thesis by (auto intro: db_only_trans)
  qed
qed

lemma db_op_map_err [frame]: "db_op f \<Longrightarrow> db_op (map_err h f)"
proof -
  assume f: "db_op f"
  show "db_op (map_err h f)"
    unfolding db_op_def
  proof
    fix w
    obtain r w' where "f w = (r, w')" by fastforce
    with f show "db_only w (snd (map_err h f w))"
      by (cases r) (auto simp: map_err_def dest: db_opD)
  qed
qed

lemma db_op_if [frame]: "db_op f \<Longrightarrow> db_op g \<Longrightarrow> db_op (if b then f else g)"
  by simp

lemma db_op_case_option [frame]:
  "db_op f \<Longrightarrow> (\<And>y. db_op (g y)) \<Longrightarrow> db_op (case x of None \<Rightarrow> f | Some y \<Rightarrow> g y)"
  by (cases x) auto

lemma db_op_case_prod [frame]: "(\<And>a b. db_op (f a b)) \<Longrightarrow> db_op (case x of (a, b) \<Rightarrow> f a b)"
  by (cases x) auto

lemma db_op_query [frame]: "db_op (db_query q)"
  by (auto simp: db_op_def db_query_def db_stmt_def db_only_iff next_call_def split: fault.splits)

lemma db_op_exec [frame]: "db_op (db_exec f)"
  by (auto simp: db_op_def db_exec_def db_stmt_def db_only_iff next_call_def
      split: fault.splits sum.splits prod.splits)

lemma db_op_insert [frame]: "db_op (db_insert f)"
  by (auto simp: db_op_def db_insert_def db_stmt_def db_only_iff next_call_def draw_uuid_def
      split: fault.splits sum.splits prod.splits)

lemma db_op_tx_commit: "db_only w0 w \<Longrightarrow> tx_commit w0 x w = (r, w') \<Longrightarrow> db_only w w'"
  by (auto simp: tx_commit_def db_only_iff next_call_def rollback_def split: fault.splits)

lemma db_op_tx_call [frame]: "db_op (tx_call pre)"
  by (auto simp: db_op_def tx_call_def db_only_iff next_call_def split: fault.splits)

lemma db_only_rollback: "db_only w0 w \<Longrightarrow> db_only w0 (rollback w0 w)"
  by (simp add: db_only_iff rollback_def)

section \<open>How a transaction ends\<close>

text \<open>
  Either the tables are what they were, and the caller sees an error; or the closure ran to
  its end from those tables and its changes are committed, and then the caller sees its value,
  or an error when the acknowledgement was lost.
\<close>

lemma tx_call_cases:
  obtains e w' where "tx_call pre w = (Inl e, w')" "w_db w' = w_db w" "db_only w w'"
  | w' where "tx_call pre w = (Inr (), w')" "w_db w' = w_db w" "db_only w w'"
  by (cases "w_faults w OtherCall (w_calls w)")
    (auto simp: tx_call_def next_call_def db_only_iff)

lemma tx_commit_cases:
  assumes "tx_commit w0 x w = (r, w')"
  obtains "r = Inr x" "w_db w' = w_db w" "db_only w w'"
  | e where "r = Inl e" "w_db w' = w_db w0" "db_only w w'"
  | e where "r = Inl e" "w_db w' = w_db w" "db_only w w'" "\<exists>n msg. w_faults w CommitCall n = FaultAfter msg"
proof (cases "w_faults w CommitCall (w_calls w)")
  case NoFault
  with assms that(1) show thesis by (auto simp: tx_commit_def next_call_def db_only_iff)
next
  case (Fault msg)
  with assms that(2) show thesis
    by (auto simp: tx_commit_def next_call_def rollback_def db_only_iff)
next
  case (FaultAfter msg)
  then have "\<exists>n msg. w_faults w CommitCall n = FaultAfter msg" by blast
  with FaultAfter assms that(3) show thesis
    by (auto simp: tx_commit_def next_call_def db_only_iff)
qed

lemma run_tx_cases:
  assumes "run_tx m1 m2 fn w = (r, w')" and "db_op fn"
  obtains (aborted) e where "r = Inl e" "w_db w' = w_db w" "db_only w w'"
  | (committed) w2 x w3 where "w_db w2 = w_db w" "db_only w w2" "fn w2 = (Inr x, w3)"
      "w_db w' = w_db w3" "db_only w w'"
      "r = Inr x \<or> (\<exists>e. r = Inl e) \<and> (\<exists>n msg. w_faults w CommitCall n = FaultAfter msg)"
proof (rule tx_call_cases [of m1 w])
  fix e w1 assume "tx_call m1 w = (Inl e, w1)" "w_db w1 = w_db w" "db_only w w1"
  with assms(1) show thesis by (intro aborted [of e]) (auto simp: run_tx_def)
next
  fix w1 assume 1: "tx_call m1 w = (Inr (), w1)" "w_db w1 = w_db w" "db_only w w1"
  show thesis
  proof (rule tx_call_cases [of m2 w1])
    fix e w2 assume "tx_call m2 w1 = (Inl e, w2)" "w_db w2 = w_db w1" "db_only w1 w2"
    with assms(1) 1 show thesis
      by (intro aborted [of e]) (auto simp: run_tx_def rollback_def db_only_iff)
  next
    fix w2 assume 2: "tx_call m2 w1 = (Inr (), w2)" "w_db w2 = w_db w1" "db_only w1 w2"
    obtain y w3 where 3: "fn w2 = (y, w3)" by fastforce
    have w2: "w_db w2 = w_db w" "db_only w w2" using 1 2 by (simp_all add: db_only_iff)
    have w3: "db_only w w3" using 3 assms(2) w2(2) by (blast dest: db_opD intro: db_only_trans)
    show thesis
    proof (cases y)
      case (Inl e)
      with assms(1) 1 2 3 w3 show thesis
        by (intro aborted [of e]) (auto simp: run_tx_def rollback_def db_only_iff)
    next
      case (Inr x)
      with 3 have fn: "fn w2 = (Inr x, w3)" by simp
      from Inr assms(1) 1 2 3 have "tx_commit w x w3 = (r, w')" by (simp add: run_tx_def)
      then show thesis
      proof (cases rule: tx_commit_cases)
        case 1
        show thesis
          by (rule committed [OF w2 fn]) (use 1 db_only_trans [OF w3] in simp_all)
      next
        case (2 e)
        show thesis
          by (rule aborted) (use 2 db_only_trans [OF w3] in simp_all)
      next
        case (3 e)
        have "w_faults w3 = w_faults w" using w3 by (simp add: db_only_iff)
        with 3 show thesis
          by (intro committed [OF w2 fn]) (use db_only_trans [OF w3] in simp_all)
      qed
    qed
  qed
qed

lemma withTenantTx_cases:
  assumes "withTenantTx ctx fn w = (r, w')" and "\<And>s t. db_op (fn s t)"
  obtains (aborted) e where "r = Inl e" "w_db w' = w_db w" "db_only w w'"
  | (committed) tid w2 x w3 where "TenantIDFromContext ctx = Inr tid"
      "w_db w2 = w_db w" "db_only w w2" "fn (tenant_session w tid) tid w2 = (Inr x, w3)"
      "w_db w' = w_db w3" "db_only w w'"
      "r = Inr x \<or> (\<exists>e. r = Inl e) \<and> (\<exists>n msg. w_faults w CommitCall n = FaultAfter msg)"
proof (cases "TenantIDFromContext ctx")
  case (Inl e)
  with assms(1) show thesis by (intro aborted [of e]) (auto simp: withTenantTx_def)
next
  case (Inr tid)
  with assms(1) have "run_tx ''begin tenant tx: '' ''set tenant in tx: ''
      (fn (tenant_session w tid) tid) w = (r, w')"
    by (simp add: withTenantTx_def)
  from this assms(2) show thesis
  proof (cases rule: run_tx_cases)
    case (aborted e)
    then show thesis by (rule that(1))
  next
    case (committed w2 x w3)
    with Inr show thesis by (intro that(2)) auto
  qed
qed

lemma withSystemTx_cases:
  assumes "withSystemTx fn w = (r, w')" and "\<And>s. db_op (fn s)"
  obtains (aborted) e where "r = Inl e" "w_db w' = w_db w" "db_only w w'"
  | (committed) w2 x w3 where
      "w_db w2 = w_db w" "db_only w w2" "fn (system_session w) w2 = (Inr x, w3)"
      "w_db w' = w_db w3" "db_only w w'"
      "r = Inr x \<or> (\<exists>e. r = Inl e) \<and> (\<exists>n msg. w_faults w CommitCall n = FaultAfter msg)"
proof -
  from assms(1) have "run_tx ''begin system tx: '' ''set system mode in tx: ''
      (fn (system_session w)) w = (r, w')"
    by (simp add: withSystemTx_def)
  from this assms(2) show thesis
  proof (cases rule: run_tx_cases)
    case (aborted e)
    then show thesis by (rule that(1))
  next
    case (committed w2 x w3)
    then show thesis by (intro that(2)) auto
  qed
qed

lemma db_op_withTenantTx [frame]: "(\<And>s t. db_op (fn s t)) \<Longrightarrow> db_op (withTenantTx ctx fn)"
  unfolding db_op_def
proof (intro allI)
  fix w assume fn: "\<And>s t. \<forall>w. db_only w (snd (fn s t w))"
  obtain r w' where r: "withTenantTx ctx fn w = (r, w')" by fastforce
  from r have "db_only w w'" by (rule withTenantTx_cases) (use fn in \<open>simp_all add: db_op_def\<close>)
  with r show "db_only w (snd (withTenantTx ctx fn w))" by simp
qed

lemma db_op_withSystemTx [frame]: "(\<And>s. db_op (fn s)) \<Longrightarrow> db_op (withSystemTx fn)"
  unfolding db_op_def
proof (intro allI)
  fix w assume fn: "\<And>s. \<forall>w. db_only w (snd (fn s w))"
  obtain r w' where r: "withSystemTx fn w = (r, w')" by fastforce
  from r have "db_only w w'" by (rule withSystemTx_cases) (use fn in \<open>simp_all add: db_op_def\<close>)
  with r show "db_only w (snd (withSystemTx fn w))" by simp
qed

section \<open>Invariants of the tables\<close>

text \<open>\<open>db_keeps I f\<close>: the operation \<open>f\<close> preserves the property \<open>I\<close> of the tables.\<close>

abbreviation db_keeps :: "(db \<Rightarrow> bool) \<Rightarrow> (World, goerr, 'a) op \<Rightarrow> bool" where
  "db_keeps I \<equiv> keeps (\<lambda>w. I (w_db w))"

lemma db_keeps_query [preserves]: "db_keeps I (db_query q)"
  by (auto simp: keeps_def db_query_def db_stmt_def next_call_def split: fault.splits)

lemma db_keeps_exec [preserves]:
  "(\<And>t d x d'. I d \<Longrightarrow> f t d = Inr (x, d') \<Longrightarrow> I d') \<Longrightarrow> db_keeps I (db_exec f)"
  by (auto simp: keeps_def db_exec_def db_stmt_def next_call_def
      split: fault.splits sum.splits prod.splits)

lemma db_keeps_insert [preserves]:
  "(\<And>u t d x d'. I d \<Longrightarrow> f u t d = Inr (x, d') \<Longrightarrow> I d') \<Longrightarrow> db_keeps I (db_insert f)"
  by (auto simp: keeps_def db_insert_def db_stmt_def next_call_def draw_uuid_def
      split: fault.splits sum.splits prod.splits)

lemma db_keeps_withTenantTx [preserves]:
  assumes "\<And>s t. TenantIDFromContext ctx = Inr t \<Longrightarrow> db_keeps I (fn s t)" "\<And>s t. db_op (fn s t)"
  shows "db_keeps I (withTenantTx ctx fn)"
proof (rule keepsI)
  fix w r w' assume "I (w_db w)" "withTenantTx ctx fn w = (r, w')"
  from this(2) assms(2) show "I (w_db w')"
  proof (cases rule: withTenantTx_cases)
    case (committed tid w2 x w3)
    then show ?thesis using keepsD [OF assms(1)] \<open>I (w_db w)\<close> by metis
  qed (use \<open>I (w_db w)\<close> in simp)
qed

lemma db_keeps_withSystemTx [preserves]:
  assumes "\<And>s. db_keeps I (fn s)" "\<And>s. db_op (fn s)"
  shows "db_keeps I (withSystemTx fn)"
proof (rule keepsI)
  fix w r w' assume "I (w_db w)" "withSystemTx fn w = (r, w')"
  from this(2) assms(2) show "I (w_db w')"
  proof (cases rule: withSystemTx_cases)
    case (committed w2 x w3)
    then show ?thesis using keepsD [OF assms(1)] \<open>I (w_db w)\<close> by metis
  qed (use \<open>I (w_db w)\<close> in simp)
qed

section \<open>Failed transactions\<close>

text \<open>
  A transaction that reports an error has changed nothing, but for the commit whose
  acknowledgement is lost: \<open>lost_ack w\<close> says that some COMMIT takes effect and is reported as failed.
  It says nothing of other calls, which may fail before or after their effect either way.
\<close>

definition lost_ack :: "World \<Rightarrow> bool" where
  "lost_ack w \<longleftrightarrow> (\<exists>n msg. w_faults w CommitCall n = FaultAfter msg)"

definition tx_atomic :: "(World, goerr, 'a) op \<Rightarrow> bool" where
  "tx_atomic f \<longleftrightarrow> (\<forall>w e w'. f w = (Inl e, w') \<longrightarrow> w_db w' = w_db w \<or> lost_ack w)"

lemma tx_atomic_withTenantTx:
  assumes "\<And>s t. db_op (fn s t)"
  shows "tx_atomic (withTenantTx ctx fn)"
  unfolding tx_atomic_def lost_ack_def
proof (intro allI impI)
  fix w e w' assume "withTenantTx ctx fn w = (Inl e, w')"
  from this assms show "w_db w' = w_db w \<or> (\<exists>n msg. w_faults w CommitCall n = FaultAfter msg)"
    by (cases rule: withTenantTx_cases) auto
qed

lemma tx_atomic_withSystemTx:
  assumes "\<And>s. db_op (fn s)"
  shows "tx_atomic (withSystemTx fn)"
  unfolding tx_atomic_def lost_ack_def
proof (intro allI impI)
  fix w e w' assume "withSystemTx fn w = (Inl e, w')"
  from this assms show "w_db w' = w_db w \<or> (\<exists>n msg. w_faults w CommitCall n = FaultAfter msg)"
    by (cases rule: withSystemTx_cases) auto
qed

text \<open>What a successful transaction returned is what its closure computed.\<close>

lemma withTenantTx_Inr:
  assumes "withTenantTx ctx fn w = (Inr x, w')" and "\<And>s t. db_op (fn s t)"
  obtains tid w2 w3 where "TenantIDFromContext ctx = Inr tid" "w_db w2 = w_db w" "db_only w w2"
    "fn (tenant_session w tid) tid w2 = (Inr x, w3)" "w_db w' = w_db w3"
  using assms by (cases rule: withTenantTx_cases) auto

lemma withSystemTx_Inr:
  assumes "withSystemTx fn w = (Inr x, w')" and "\<And>s. db_op (fn s)"
  obtains w2 w3 where "w_db w2 = w_db w" "db_only w w2"
    "fn (system_session w) w2 = (Inr x, w3)" "w_db w' = w_db w3"
  using assms by (cases rule: withSystemTx_cases) auto

text \<open>When no call fails, a transaction is its closure.\<close>

definition no_faults :: "World \<Rightarrow> bool" where
  "no_faults w \<longleftrightarrow> (\<forall>k n. w_faults w k n = NoFault)"

lemma no_faults_db_only: "db_only w w' \<Longrightarrow> no_faults w \<Longrightarrow> no_faults w'"
  by (simp add: no_faults_def db_only_iff)

section \<open>Statements that succeed\<close>

lemma db_query_Inr:
  "db_query q w = (Inr x, w') \<longleftrightarrow>
     w_faults w OtherCall (w_calls w) = NoFault \<and> x = q (w_db w) \<and> w' = w\<lparr>w_calls := Suc (w_calls w)\<rparr>"
  by (auto simp: db_query_def db_stmt_def next_call_def split: fault.splits)

lemma db_query_Inl:
  "db_query q w = (Inl e, w') \<Longrightarrow> \<exists>msg. e = Opaque msg"
  by (auto simp: db_query_def db_stmt_def next_call_def split: fault.splits)

lemma db_exec_Inr:
  "db_exec f w = (Inr x, w') \<longleftrightarrow>
     w_faults w OtherCall (w_calls w) = NoFault \<and>
     (\<exists>d. f (w_clock w) (w_db w) = Inr (x, d) \<and> w' = w\<lparr>w_calls := Suc (w_calls w), w_db := d\<rparr>)"
  by (auto simp: db_exec_def db_stmt_def next_call_def split: fault.splits sum.splits prod.splits)

lemma db_insert_Inr:
  "db_insert f w = (Inr x, w') \<longleftrightarrow>
     w_faults w OtherCall (w_calls w) = NoFault \<and>
     (\<exists>d. f (w_uuids w (w_drawn w)) (w_clock w) (w_db w) = Inr (x, d) \<and>
          w' = w\<lparr>w_calls := Suc (w_calls w), w_drawn := Suc (w_drawn w), w_db := d\<rparr>)"
  by (auto simp: db_insert_def db_stmt_def next_call_def draw_uuid_def
      split: fault.splits sum.splits prod.splits)

lemma db_exec_Inl:
  "db_exec f w = (Inl e, w') \<Longrightarrow> (\<exists>msg. e = Opaque msg) \<or> f (w_clock w) (w_db w) = Inl e"
  by (auto simp: db_exec_def db_stmt_def next_call_def split: fault.splits sum.splits prod.splits)

lemma db_insert_Inl:
  "db_insert f w = (Inl e, w') \<Longrightarrow>
     (\<exists>msg. e = Opaque msg) \<or> f (w_uuids w (w_drawn w)) (w_clock w) (w_db w) = Inl e"
  by (auto simp: db_insert_def db_stmt_def next_call_def draw_uuid_def
      split: fault.splits sum.splits prod.splits)

lemma db_query_no_faults:
  "no_faults w \<Longrightarrow> db_query q w = (Inr (q (w_db w)), w\<lparr>w_calls := Suc (w_calls w)\<rparr>)"
  by (simp add: db_query_def db_stmt_def next_call_def no_faults_def)

lemma db_exec_no_faults:
  "no_faults w \<Longrightarrow> db_exec f w =
     (case f (w_clock w) (w_db w) of
        Inl e \<Rightarrow> (Inl e, w\<lparr>w_calls := Suc (w_calls w)\<rparr>)
      | Inr (x, d) \<Rightarrow> (Inr x, w\<lparr>w_calls := Suc (w_calls w), w_db := d\<rparr>))"
  by (simp add: db_exec_def db_stmt_def next_call_def no_faults_def)

lemma db_insert_no_faults:
  "no_faults w \<Longrightarrow> db_insert f w =
     (case f (w_uuids w (w_drawn w)) (w_clock w) (w_db w) of
        Inl e \<Rightarrow> (Inl e, w\<lparr>w_calls := Suc (w_calls w), w_drawn := Suc (w_drawn w)\<rparr>)
      | Inr (x, d) \<Rightarrow>
          (Inr x, w\<lparr>w_calls := Suc (w_calls w), w_drawn := Suc (w_drawn w), w_db := d\<rparr>))"
  by (simp add: db_insert_def db_stmt_def next_call_def no_faults_def draw_uuid_def
      split: sum.splits prod.splits)

lemma no_faults_upd [simp]:
  "no_faults (w\<lparr>w_calls := n\<rparr>) = no_faults w" "no_faults (w\<lparr>w_db := d\<rparr>) = no_faults w"
  "no_faults (w\<lparr>w_drawn := m\<rparr>) = no_faults w"
  by (simp_all add: no_faults_def)

text \<open>A transaction without faults, run at the state its closure starts from.\<close>

definition in_tx :: "World \<Rightarrow> World" where
  "in_tx w = w\<lparr>w_calls := Suc (Suc (w_calls w))\<rparr>"

lemma in_tx_simps [simp]:
  "w_db (in_tx w) = w_db w" "no_faults (in_tx w) = no_faults w" "w_clock (in_tx w) = w_clock w"
  "w_uuids (in_tx w) = w_uuids w" "w_drawn (in_tx w) = w_drawn w"
  by (simp_all add: in_tx_def no_faults_def)

lemma withTenantTx_no_faults:
  assumes nf: "no_faults w" and fn: "\<And>s t. db_op (fn s t)" and t: "TenantIDFromContext ctx = Inr t"
    and run: "fn (tenant_session w t) t (in_tx w) = (r, w3)"
  shows "\<exists>w'. withTenantTx ctx fn w = (r, w')
    \<and> w_db w' = (case r of Inl _ \<Rightarrow> w_db w | Inr _ \<Rightarrow> w_db w3) \<and> db_only w w'"
proof -
  have "db_only (in_tx w) w3" using run fn by (blast dest: db_opD)
  moreover have "db_only w (in_tx w)" by (simp add: in_tx_def db_only_iff)
  ultimately have w3: "db_only w w3" "no_faults w3"
    using nf by (auto dest: db_only_trans no_faults_db_only)
  have "withTenantTx ctx fn w = (case r of Inl e \<Rightarrow> (Inl e, rollback w w3) | Inr x \<Rightarrow> tx_commit w x w3)"
    using nf run t unfolding in_tx_def
    by (simp add: withTenantTx_def run_tx_def tx_call_def next_call_def no_faults_def split: sum.splits)
  then show ?thesis using w3
    by (cases r) (auto simp: tx_commit_def next_call_def no_faults_def rollback_def db_only_iff)
qed

lemma withSystemTx_no_faults:
  assumes nf: "no_faults w" and fn: "\<And>s. db_op (fn s)"
    and run: "fn (system_session w) (in_tx w) = (r, w3)"
  shows "\<exists>w'. withSystemTx fn w = (r, w')
    \<and> w_db w' = (case r of Inl _ \<Rightarrow> w_db w | Inr _ \<Rightarrow> w_db w3) \<and> db_only w w'"
proof -
  have "db_only (in_tx w) w3" using run fn by (blast dest: db_opD)
  moreover have "db_only w (in_tx w)" by (simp add: in_tx_def db_only_iff)
  ultimately have w3: "db_only w w3" "no_faults w3"
    using nf by (auto dest: db_only_trans no_faults_db_only)
  have "withSystemTx fn w = (case r of Inl e \<Rightarrow> (Inl e, rollback w w3) | Inr x \<Rightarrow> tx_commit w x w3)"
    using nf run unfolding in_tx_def
    by (simp add: withSystemTx_def run_tx_def tx_call_def next_call_def no_faults_def split: sum.splits)
  then show ?thesis using w3
    by (cases r) (auto simp: tx_commit_def next_call_def no_faults_def rollback_def db_only_iff)
qed

section \<open>Statements that fail\<close>

lemma db_query_db: "db_query q w = (r, w') \<Longrightarrow> w_db w' = w_db w"
  by (auto simp: db_query_def db_stmt_def next_call_def split: fault.splits)

lemma db_insert_Inl_db: "db_insert f w = (Inl e, w') \<Longrightarrow> w_db w' = w_db w"
  by (auto simp: db_insert_def db_stmt_def next_call_def draw_uuid_def
      split: fault.splits sum.splits prod.splits)

lemma db_exec_Inl_db: "db_exec f w = (Inl e, w') \<Longrightarrow> w_db w' = w_db w"
  by (auto simp: db_exec_def db_stmt_def next_call_def split: fault.splits sum.splits prod.splits)

section \<open>What a successful statement did, without its bookkeeping\<close>

lemma db_query_InrD: "db_query q w = (Inr x, w') \<Longrightarrow> q (w_db w) = x \<and> w_db w' = w_db w"
  by (auto simp: db_query_Inr)

lemma db_exec_InrD: "db_exec f w = (Inr x, w') \<Longrightarrow> f (w_clock w) (w_db w) = Inr (x, w_db w')"
  by (auto simp: db_exec_Inr)

lemma db_insert_InrD:
  "db_insert f w = (Inr x, w') \<Longrightarrow> f (w_uuids w (w_drawn w)) (w_clock w) (w_db w) = Inr (x, w_db w')"
  by (auto simp: db_insert_Inr)

section \<open>Random ids\<close>

text \<open>\<^verbatim>\<open>uuid.New()\<close>\<close>

definition uuid_New :: "(World, goerr, uuid) op" where
  "uuid_New w = (case draw_uuid w of (u, w') \<Rightarrow> (Inr u, w'))"

lemma keeps_uuid_New [preserves]: "db_keeps I uuid_New"
  by (simp add: keeps_def uuid_New_def draw_uuid_def)

lemma db_op_uuid_New [frame]: "db_op uuid_New"
  by (simp add: db_op_def uuid_New_def draw_uuid_def db_only_iff)

end
