(* ===== verification/Schema.thy ===== *)
theory Schema
  imports World
begin

text \<open>
  The invariants of the tables: what the constraints of the migrations enforce (primary keys,
  the unique keys, the foreign keys) and the tenant consistency of the junction table, which
  no constraint enforces and the repositories maintain.  Row-to-entity conversions, the
  single-row query of \<^verbatim>\<open>database/sql\<close>, and the part of the tables one tenant owns.
\<close>

section \<open>Keys and invariants\<close>

definition tg_key :: "tag_row \<Rightarrow> uuid \<times> string" where
  "tg_key r = (tg_tenant r, tg_name r)"

definition mt_key :: "media_tag_row \<Rightarrow> uuid \<times> uuid" where
  "mt_key r = (mt_media r, mt_tag r)"

definition ik_pk :: "idem_row \<Rightarrow> uuid \<times> string" where
  "ik_pk r = (ik_tenant r, ik_key r)"

definition is_tenant :: "db \<Rightarrow> uuid \<Rightarrow> bool" where
  "is_tenant d t \<longleftrightarrow> t \<in> tn_id ` set (tenants d)"

definition tags_ok :: "db \<Rightarrow> bool" where
  "tags_ok d \<longleftrightarrow> distinct (map tg_id (tags d)) \<and> distinct (map tg_key (tags d))
     \<and> (\<forall>r \<in> set (tags d). is_tenant d (tg_tenant r))"

definition media_ok :: "db \<Rightarrow> bool" where
  "media_ok d \<longleftrightarrow> distinct (map md_id (media d))
     \<and> (\<forall>r \<in> set (media d). is_tenant d (md_tenant r))"

text \<open>\<open>links_ok\<close>: both ends of a link exist and belong to the link's tenant.\<close>

definition link_ok :: "db \<Rightarrow> media_tag_row \<Rightarrow> bool" where
  "link_ok d l \<longleftrightarrow>
     (\<exists>m \<in> set (media d). md_id m = mt_media l \<and> md_tenant m = mt_tenant l) \<and>
     (\<exists>t \<in> set (tags d). tg_id t = mt_tag l \<and> tg_tenant t = mt_tenant l)"

definition links_ok :: "db \<Rightarrow> bool" where
  "links_ok d \<longleftrightarrow> distinct (map mt_key (media_tags d)) \<and> (\<forall>l \<in> set (media_tags d). link_ok d l)"

definition idem_ok :: "db \<Rightarrow> bool" where
  "idem_ok d \<longleftrightarrow> distinct (map ik_pk (idempotency_keys d))
     \<and> (\<forall>r \<in> set (idempotency_keys d). is_tenant d (ik_tenant r))"

definition jobs_ok :: "db \<Rightarrow> bool" where
  "jobs_ok d \<longleftrightarrow> distinct (map jb_id (jobs d)) \<and> (\<forall>r \<in> set (jobs d). is_tenant d (jb_tenant r))"

definition auth_ok :: "db \<Rightarrow> bool" where
  "auth_ok d \<longleftrightarrow> distinct (map tn_id (tenants d)) \<and> distinct (map ak_hash (api_keys d))
     \<and> (\<forall>r \<in> set (api_keys d). is_tenant d (ak_tenant r))"

definition db_inv :: "db \<Rightarrow> bool" where
  "db_inv d \<longleftrightarrow> auth_ok d \<and> tags_ok d \<and> media_ok d \<and> links_ok d \<and> idem_ok d \<and> jobs_ok d"

lemmas ok_defs = auth_ok_def tags_ok_def media_ok_def links_ok_def idem_ok_def jobs_ok_def

lemma is_tenant_cong [simp]:
  "is_tenant (d\<lparr>tags := a\<rparr>) t = is_tenant d t" "is_tenant (d\<lparr>media := b\<rparr>) t = is_tenant d t"
  "is_tenant (d\<lparr>media_tags := c\<rparr>) t = is_tenant d t"
  "is_tenant (d\<lparr>idempotency_keys := e\<rparr>) t = is_tenant d t"
  "is_tenant (d\<lparr>jobs := f\<rparr>) t = is_tenant d t"
  "is_tenant (d\<lparr>api_keys := g\<rparr>) t = is_tenant d t"
  by (simp_all add: is_tenant_def)

lemma link_ok_cong [simp]:
  "link_ok (d\<lparr>media_tags := c\<rparr>) l = link_ok d l"
  "link_ok (d\<lparr>idempotency_keys := e\<rparr>) l = link_ok d l" "link_ok (d\<lparr>jobs := f\<rparr>) l = link_ok d l"
  "link_ok (d\<lparr>api_keys := g\<rparr>) l = link_ok d l"
  by (simp_all add: link_ok_def)

lemma link_ok_mono:
  "link_ok d l \<Longrightarrow> set (media d) \<subseteq> set (media d') \<Longrightarrow> set (tags d) \<subseteq> set (tags d') \<Longrightarrow> link_ok d' l"
  by (auto simp: link_ok_def)

lemma link_ok_grow [intro]:
  "link_ok d l \<Longrightarrow> link_ok (d\<lparr>tags := tags d @ rs\<rparr>) l"
  "link_ok d l \<Longrightarrow> link_ok (d\<lparr>media := media d @ ms\<rparr>) l"
  by (auto simp: link_ok_def)

lemma db_inv_D:
  assumes "db_inv d"
  shows "distinct (map tg_id (tags d))" "distinct (map tg_key (tags d))"
    "distinct (map md_id (media d))" "distinct (map mt_key (media_tags d))"
    "distinct (map ik_pk (idempotency_keys d))" "distinct (map jb_id (jobs d))"
    "\<And>l. l \<in> set (media_tags d) \<Longrightarrow> link_ok d l"
  using assms by (simp_all add: db_inv_def ok_defs)

lemma distinct_keys_append:
  "distinct (map f (xs @ [x])) \<longleftrightarrow> distinct (map f xs) \<and> f x \<notin> f ` set xs"
  by auto

section \<open>Rows and entities\<close>

definition tag_of_row :: "tag_row \<Rightarrow> Tag" where
  "tag_of_row r = \<lparr>tag_ID = tg_id r, tag_Name = tg_name r, tag_CreatedAt = tg_created r\<rparr>"

definition media_of_row :: "media_row \<Rightarrow> Tag list \<Rightarrow> Media" where
  "media_of_row r ts =
     \<lparr>media_ID = md_id r, media_Name = md_name r, media_Type = md_type r,
      media_FilePath = md_path r, media_OriginalName = md_orig r, media_FileSize = md_size r,
      media_Tags = ts, media_CreatedAt = md_created r\<rparr>"

lemma tag_of_row_sel [simp]:
  "tag_ID (tag_of_row r) = tg_id r" "tag_Name (tag_of_row r) = tg_name r"
  "tag_CreatedAt (tag_of_row r) = tg_created r"
  by (simp_all add: tag_of_row_def)

lemma media_of_row_sel [simp]:
  "media_ID (media_of_row r ts) = md_id r" "media_Name (media_of_row r ts) = md_name r"
  "media_FilePath (media_of_row r ts) = md_path r" "media_Tags (media_of_row r ts) = ts"
  "media_CreatedAt (media_of_row r ts) = md_created r" "media_Type (media_of_row r ts) = md_type r"
  "media_OriginalName (media_of_row r ts) = md_orig r" "media_FileSize (media_of_row r ts) = md_size r"
  by (simp_all add: media_of_row_def)

text \<open>\<^verbatim>\<open>QueryRowContext(...).Scan\<close>: the first row, or \<^verbatim>\<open>sql.ErrNoRows\<close>.\<close>

definition QueryRow :: "(World, goerr, 'a option) op \<Rightarrow> (World, goerr, 'a) op" where
  "QueryRow f = and_then f (\<lambda>x. case x of None \<Rightarrow> fail SqlErrNoRows | Some y \<Rightarrow> ret y)"

lemma db_op_QueryRow [frame]: "db_op f \<Longrightarrow> db_op (QueryRow f)"
  unfolding QueryRow_def by (intro frame)

lemma keeps_QueryRow [preserves]: "keeps J f \<Longrightarrow> keeps J (QueryRow f)"
  unfolding QueryRow_def by (intro preserves)

lemma QueryRow_Inr: "QueryRow f w = (Inr x, w') \<longleftrightarrow> f w = (Inr (Some x), w')"
  by (auto simp: QueryRow_def and_then_Inr split: option.splits)

lemma QueryRow_Inl:
  "QueryRow f w = (Inl e, w') \<longleftrightarrow> f w = (Inl e, w') \<or> f w = (Inr None, w') \<and> e = SqlErrNoRows"
  by (auto simp: QueryRow_def and_then_Inl split: option.splits)

section \<open>What one tenant owns\<close>

text \<open>The rows of tenant \<open>t\<close> in the tables its requests reach.\<close>

definition tenant_view :: "uuid \<Rightarrow> db \<Rightarrow> db" where
  "tenant_view t d =
     \<lparr>tenants = tenants d,
      api_keys = filter (\<lambda>r. ak_tenant r = t) (api_keys d),
      tags = filter (\<lambda>r. tg_tenant r = t) (tags d),
      media = filter (\<lambda>r. md_tenant r = t) (media d),
      media_tags = filter (\<lambda>r. mt_tenant r = t) (media_tags d),
      idempotency_keys = filter (\<lambda>r. ik_tenant r = t) (idempotency_keys d),
      jobs = filter (\<lambda>r. jb_tenant r = t) (jobs d)\<rparr>"

lemma tenant_view_eqD:
  assumes "tenant_view t d = tenant_view t d'"
  shows "tenants d = tenants d'"
    "filter (\<lambda>r. tg_tenant r = t) (tags d) = filter (\<lambda>r. tg_tenant r = t) (tags d')"
    "filter (\<lambda>r. md_tenant r = t) (media d) = filter (\<lambda>r. md_tenant r = t) (media d')"
    "filter (\<lambda>r. mt_tenant r = t) (media_tags d) = filter (\<lambda>r. mt_tenant r = t) (media_tags d')"
    "filter (\<lambda>r. jb_tenant r = t) (jobs d) = filter (\<lambda>r. jb_tenant r = t) (jobs d')"
  using assms by (simp_all add: tenant_view_def)

text \<open>\<open>others_kept t d0 d\<close>: the tables hold what they held in \<open>d0\<close> for every tenant but \<open>t\<close>.\<close>

definition others_kept :: "uuid \<Rightarrow> db \<Rightarrow> db \<Rightarrow> bool" where
  "others_kept t d0 d \<longleftrightarrow> (\<forall>u. u \<noteq> t \<longrightarrow> tenant_view u d = tenant_view u d0)"

lemma others_kept_refl [simp]: "others_kept t d d"
  by (simp add: others_kept_def)

lemma others_kept_trans: "others_kept t d0 d1 \<Longrightarrow> others_kept t d1 d2 \<Longrightarrow> others_kept t d0 d2"
  by (simp add: others_kept_def)

end
