(* ===== verification/Keyset.thy ===== *)
theory Keyset
  imports Schema
begin

text \<open>
  Keyset pagination, shared by the tag and the media listing: a page of a query that fetches
  one row more than the limit, and the client's loop that follows the cursors.  The locale
  \<open>keyset\<close> is the contract between a paged query and that loop; its theorems say that the
  loop returns every row exactly once and in order.
\<close>

section \<open>One page\<close>

text \<open>
  The tail of both \<^verbatim>\<open>List\<close> functions: \<open>rows\<close> is the result of the query with
  \<^verbatim>\<open>LIMIT limit+1\<close>; an extra row means another page, and then the last row kept
  gives the next cursor.
\<close>

definition page :: "nat \<Rightarrow> ('r \<Rightarrow> 'c) \<Rightarrow> 'r list \<Rightarrow> 'r list \<times> 'c option" where
  "page limit cursor_of rows =
     (if limit < length rows
      then (take limit rows, Some (cursor_of (rows ! (limit - 1))))
      else (rows, None))"

section \<open>Following the cursors\<close>

text \<open>
  The client's loop: ask for a page, append it, go on from the next cursor; the result is
  \<open>None\<close> when the fuel runs out before the last page.
\<close>

fun follow ::
  "nat \<Rightarrow> ('c option \<Rightarrow> ('w, 'e, 'r list \<times> 'c option) op) \<Rightarrow> 'c option \<Rightarrow> ('w, 'e, 'r list option) op" where
  "follow 0 fetch c = ret None"
| "follow (Suc n) fetch c =
     and_then (fetch c) (\<lambda>(rows, next).
       case next of
         None \<Rightarrow> ret (Some rows)
       | Some c' \<Rightarrow>
           and_then (follow n fetch (Some c')) (\<lambda>rest. ret (map_option ((@) rows) rest)))"

text \<open>The rows a cursor leaves.\<close>

definition after :: "('r \<Rightarrow> 'k::linorder) \<Rightarrow> ('c \<Rightarrow> 'k) \<Rightarrow> 'c option \<Rightarrow> 'r list \<Rightarrow> 'r list" where
  "after key ckey c rows = (case c of None \<Rightarrow> rows | Some x \<Rightarrow> filter (\<lambda>r. ckey x < key r) rows)"

lemma after_None [simp]: "after key ckey None rows = rows"
  by (simp add: after_def)

lemma filter_gt_suffix:
  assumes "sorted_wrt (<) (map key rows)" and "n < length rows"
  shows "filter (\<lambda>r. key (rows ! n) < (key r :: 'k::linorder)) rows = drop (Suc n) rows"
proof -
  have lt: "key (rows ! i) < key (rows ! j)" if "i < j" "j < length rows" for i j
    using assms(1) that by (simp add: sorted_wrt_iff_nth_less)
  have "filter (\<lambda>r. key (rows ! n) < key r) (take (Suc n) rows @ drop (Suc n) rows)
      = [] @ drop (Suc n) rows"
  proof (subst filter_append, intro arg_cong2 [where f = "(@)"])
    show "filter (\<lambda>r. key (rows ! n) < key r) (take (Suc n) rows) = []"
    proof (rule filter_none)
      fix r assume "r \<in> set (take (Suc n) rows)"
      then obtain i where "i \<le> n" "r = rows ! i"
        using assms(2) by (auto simp: in_set_conv_nth less_Suc_eq_le)
      then show "\<not> key (rows ! n) < key r"
        using lt [of i n] assms(2) by (cases "i = n") auto
    qed
    show "filter (\<lambda>r. key (rows ! n) < key r) (drop (Suc n) rows) = drop (Suc n) rows"
    proof (rule filter_id)
      fix r assume "r \<in> set (drop (Suc n) rows)"
      then obtain i where "i < length rows - Suc n" "r = rows ! (Suc n + i)"
        by (auto simp: in_set_conv_nth)
      then show "key (rows ! n) < key r" using lt [of n "Suc n + i"] by simp
    qed
  qed
  then show ?thesis by simp
qed

section \<open>The contract\<close>

text \<open>
  \<open>all w\<close>: the rows the query selects in the state \<open>w\<close>, in its order.  \<open>fetch\<close>: one page.
  The laws, in the states \<open>good\<close>: the keys strictly increase, a row's cursor has the row's key,
  a page is the first rows after the cursor, and fetching it changes nothing the next page
  depends on.
\<close>

locale keyset =
  fixes good :: "'w \<Rightarrow> bool"
    and all :: "'w \<Rightarrow> 'r list"
    and key :: "'r \<Rightarrow> 'k::linorder"
    and cursor_of :: "'r \<Rightarrow> 'c"
    and ckey :: "'c \<Rightarrow> 'k"
    and limit :: nat
    and fetch :: "'c option \<Rightarrow> ('w, 'e, 'r list \<times> 'c option) op"
  assumes pos: "good w \<Longrightarrow> 0 < limit"
    and strict: "good w \<Longrightarrow> sorted_wrt (<) (map key (all w))"
    and cursor_key: "ckey (cursor_of r) = key r"
    and fetch_page: "good w \<Longrightarrow>
      \<exists>w'. fetch c w = (Inr (page limit cursor_of (take (Suc limit) (after key ckey c (all w)))), w')
         \<and> good w' \<and> all w' = all w"
begin

lemma after_sorted: "good w \<Longrightarrow> sorted_wrt (<) (map key (after key ckey c (all w)))"
  using strict by (auto simp: after_def sorted_wrt_map sorted_wrt_filter split: option.splits)

text \<open>The rows after the last row of a full page are the rest of the rows.\<close>

lemma after_next:
  assumes g: "good w" and "limit < length (after key ckey c (all w))"
  shows "after key ckey (Some (cursor_of (after key ckey c (all w) ! (limit - 1)))) (all w)
    = drop limit (after key ckey c (all w))"
proof -
  let ?rest = "after key ckey c (all w)"
  let ?k = "key (?rest ! (limit - 1))"
  have "drop limit ?rest = filter (\<lambda>r. ?k < key r) ?rest"
    using filter_gt_suffix [OF after_sorted [OF g, of c], of "limit - 1"] assms(2) pos [OF g] by simp
  also have "\<dots> = filter (\<lambda>r. ?k < key r) (all w)"
  proof (cases c)
    case (Some x)
    have "?rest ! (limit - 1) \<in> set ?rest" using assms(2) by (intro nth_mem) simp
    then have "ckey x < ?k" by (simp add: after_def Some)
    then show ?thesis by (auto simp: after_def Some intro: filter_cong)
  qed simp
  finally show ?thesis by (simp add: after_def cursor_key)
qed

lemma follow_after:
  assumes "good w" and "length (after key ckey c (all w)) < n"
  shows "\<exists>w'. follow n fetch c w = (Inr (Some (after key ckey c (all w))), w') \<and> good w'"
  using assms
proof (induction n arbitrary: c w)
  case (Suc n)
  let ?rest = "after key ckey c (all w)"
  obtain w1 where w1: "fetch c w = (Inr (page limit cursor_of (take (Suc limit) ?rest)), w1)"
    "good w1" "all w1 = all w"
    using fetch_page [OF Suc.prems(1)] by blast
  have pos: "0 < limit" by (rule pos [OF Suc.prems(1)])
  show ?case
  proof (cases "limit < length ?rest")
    case True
    let ?c' = "Some (cursor_of (?rest ! (limit - 1)))"
    have rest: "after key ckey ?c' (all w1) = drop limit ?rest"
      using after_next [OF Suc.prems(1) True] w1(3) by simp
    have "length (after key ckey ?c' (all w1)) < n"
      unfolding rest using Suc.prems(2) pos True by (simp add: less_diff_conv2)
    from Suc.IH [OF w1(2) this]
    obtain w2 where "follow n fetch ?c' w1 = (Inr (Some (drop limit ?rest)), w2)" "good w2"
      unfolding rest by blast
    moreover have "page limit cursor_of (take (Suc limit) ?rest) = (take limit ?rest, ?c')"
      using True pos by (simp add: page_def)
    ultimately show ?thesis using w1 by (simp add: ret_def)
  next
    case False
    with w1 show ?thesis by (simp add: page_def ret_def)
  qed
qed simp

theorem follow_all:
  "good w \<Longrightarrow> length (all w) < n \<Longrightarrow> \<exists>w'. follow n fetch None w = (Inr (Some (all w)), w') \<and> good w'"
  using follow_after [of w None n] by simp

text \<open>No page is longer than the limit, and a page with a next cursor is full.\<close>

lemma page_bounds:
  assumes "good w" and "fetch c w = (Inr (rows, next), w')"
  shows "length rows \<le> limit \<and> (next \<noteq> None \<longrightarrow> length rows = limit)"
  using fetch_page [OF assms(1), of c] assms(2) by (auto simp: page_def split: if_splits)

end

end
