(* ===== verification/Tag_Repo.thy ===== *)
theory Tag_Repo
  imports Keyset
begin

text \<open>
  \<^verbatim>\<open>postgres/tag_repo.go\<close>: the statements of the tag repository as functions on the
  tables, and the four operations of \<^verbatim>\<open>port.TagRepository\<close>.
\<close>

section \<open>Statements\<close>

text \<open>
  \<^verbatim>\<open>INSERT INTO tags ... ON CONFLICT (tenant_id, name) DO NOTHING RETURNING\<close>: no row
  when the key is taken.  The other constraints of the table raise.
\<close>

definition sql_insert_tag ::
  "session \<Rightarrow> uuid \<Rightarrow> string \<Rightarrow> uuid \<Rightarrow> time \<Rightarrow> db \<Rightarrow> goerr + Tag option \<times> db" where
  "sql_insert_tag s tenantID name u now d =
     (let r = \<lparr>tg_id = u, tg_tenant = tenantID, tg_name = name, tg_created = now\<rparr> in
      if \<not> rls s tenantID then Inl (PqError insufficientPrivilege)
      else if tg_key r \<in> tg_key ` set (tags d) then Inr (None, d)
      else if u \<in> tg_id ` set (tags d) then Inl (PqError uniqueViolation)
      else if \<not> is_tenant d tenantID then Inl (PqError foreignKeyViolation)
      else Inr (Some (tag_of_row r), d\<lparr>tags := tags d @ [r]\<rparr>))"

definition sql_select_tag_by_name :: "session \<Rightarrow> uuid \<Rightarrow> string \<Rightarrow> db \<Rightarrow> Tag option" where
  "sql_select_tag_by_name s tenantID name d =
     map_option tag_of_row
       (find (\<lambda>r. rls s (tg_tenant r) \<and> tg_tenant r = tenantID \<and> tg_name r = name) (tags d))"

text \<open>The row order of the listing: \<^verbatim>\<open>ORDER BY name ASC, id ASC\<close> under the collation.\<close>

definition tag_row_key :: "Ext \<Rightarrow> tag_row \<Rightarrow> nat list \<times> uuid" where
  "tag_row_key X r = (x_collate X (tg_name r), tg_id r)"

definition tag_cursor_key :: "Ext \<Rightarrow> TagCursor \<Rightarrow> nat list \<times> uuid" where
  "tag_cursor_key X c = (x_collate X (tc_Name c), tc_ID c)"

definition sql_list_tags :: "Ext \<Rightarrow> session \<Rightarrow> uuid \<Rightarrow> TagCursor option \<Rightarrow> nat \<Rightarrow> db \<Rightarrow> Tag list" where
  "sql_list_tags X s tenantID cursor n d =
     map tag_of_row
       (take n
         (sort_key (tag_row_key X)
           (filter (\<lambda>r. rls s (tg_tenant r) \<and> tg_tenant r = tenantID \<and>
                (case cursor of None \<Rightarrow> True | Some c \<Rightarrow> tag_cursor_key X c < tag_row_key X r))
             (tags d))))"

text \<open>
  \<^verbatim>\<open>UPDATE tags SET name ... WHERE id AND tenant_id RETURNING\<close>: the unique key is
  checked against the other rows, so that a row may keep its own name.
\<close>

definition tag_hit :: "session \<Rightarrow> uuid \<Rightarrow> uuid \<Rightarrow> tag_row \<Rightarrow> bool" where
  "tag_hit s tenantID i r \<longleftrightarrow> rls s (tg_tenant r) \<and> tg_id r = i \<and> tg_tenant r = tenantID"

definition sql_rename_tag ::
  "session \<Rightarrow> uuid \<Rightarrow> uuid \<Rightarrow> string \<Rightarrow> db \<Rightarrow> goerr + Tag option \<times> db" where
  "sql_rename_tag s tenantID i name d =
     (case find (tag_hit s tenantID i) (tags d) of
        None \<Rightarrow> Inr (None, d)
      | Some r \<Rightarrow>
         if \<exists>r' \<in> set (tags d). tg_id r' \<noteq> i \<and> tg_key r' = (tenantID, name)
         then Inl (PqError uniqueViolation)
         else Inr (Some (tag_of_row (r\<lparr>tg_name := name\<rparr>)),
                   d\<lparr>tags := update_where (tag_hit s tenantID i) (\<lambda>r. r\<lparr>tg_name := name\<rparr>) (tags d)\<rparr>))"

text \<open>
  \<^verbatim>\<open>DELETE FROM tags\<close> with its row count; the foreign key of \<^verbatim>\<open>media_tags\<close>
  cascades.
\<close>

definition sql_delete_tag :: "session \<Rightarrow> uuid \<Rightarrow> uuid \<Rightarrow> db \<Rightarrow> goerr + nat \<times> db" where
  "sql_delete_tag s tenantID i d =
     (let gone = filter (tag_hit s tenantID i) (tags d) in
      Inr (length gone,
           d\<lparr>tags := filter (\<lambda>r. \<not> tag_hit s tenantID i r) (tags d),
             media_tags := filter (\<lambda>l. mt_tag l \<notin> tg_id ` set gone) (media_tags d)\<rparr>))"

section \<open>Operations\<close>

text \<open>Each operation runs a closure in a tenant transaction; \<open>_tx\<close> marks the closure.\<close>

definition CreateOrGet_tx :: "string \<Rightarrow> session \<Rightarrow> uuid \<Rightarrow> (World, goerr, Tag \<times> bool) op" where
  "CreateOrGet_tx name s tenantID =
     handle (QueryRow (db_insert (sql_insert_tag s tenantID name)))
       (\<lambda>tag. ret (tag, True))
       (\<lambda>err.
          if err \<noteq> SqlErrNoRows then fail (Errorf ''insert tag: '' err '''')
          else handle (QueryRow (db_query (sql_select_tag_by_name s tenantID name)))
                 (\<lambda>tag. ret (tag, False))
                 (\<lambda>err. fail (Errorf ''select existing tag: '' err '''')))"

definition TagRepo_CreateOrGet :: "Ctx \<Rightarrow> string \<Rightarrow> (World, goerr, Tag \<times> bool) op" where
  "TagRepo_CreateOrGet ctx name = withTenantTx ctx (CreateOrGet_tx name)"

definition tag_cursor_of :: "Tag \<Rightarrow> TagCursor" where
  "tag_cursor_of t = \<lparr>tc_Name = tag_Name t, tc_ID = tag_ID t\<rparr>"

definition TagList_tx :: "Ext \<Rightarrow> nat \<Rightarrow> TagCursor option \<Rightarrow> session \<Rightarrow> uuid \<Rightarrow>
    (World, goerr, Tag list \<times> TagCursor option) op" where
  "TagList_tx X limit cursor s tenantID =
     and_then
       (map_err (\<lambda>e. Errorf ''list tags: '' e '''')
         (db_query (sql_list_tags X s tenantID cursor (limit + 1))))
       (\<lambda>rows. ret (page limit tag_cursor_of rows))"

definition TagRepo_List ::
  "Ext \<Rightarrow> Ctx \<Rightarrow> nat \<Rightarrow> TagCursor option \<Rightarrow> (World, goerr, Tag list \<times> TagCursor option) op" where
  "TagRepo_List X ctx limit cursor = withTenantTx ctx (TagList_tx X limit cursor)"

definition Rename_tx :: "uuid \<Rightarrow> string \<Rightarrow> session \<Rightarrow> uuid \<Rightarrow> (World, goerr, Tag) op" where
  "Rename_tx i name s tenantID =
     handle (QueryRow (db_exec (\<lambda>_. sql_rename_tag s tenantID i name)))
       ret
       (\<lambda>err.
          if err = SqlErrNoRows then fail ErrNotFound
          else if errors_as_pq err = Some uniqueViolation
          then fail (Errorf '''' ErrConflict '': a tag with that name already exists'')
          else fail (Errorf ''rename tag: '' err ''''))"

definition TagRepo_Rename :: "Ctx \<Rightarrow> uuid \<Rightarrow> string \<Rightarrow> (World, goerr, Tag) op" where
  "TagRepo_Rename ctx i name = withTenantTx ctx (Rename_tx i name)"

definition TagDelete_tx :: "uuid \<Rightarrow> session \<Rightarrow> uuid \<Rightarrow> (World, goerr, unit) op" where
  "TagDelete_tx i s tenantID =
     and_then
       (map_err (\<lambda>e. Errorf ''delete tag: '' e '''') (db_exec (\<lambda>_. sql_delete_tag s tenantID i)))
       (\<lambda>n. if n = 0 then fail ErrNotFound else ret ())"

definition TagRepo_Delete :: "Ctx \<Rightarrow> uuid \<Rightarrow> (World, goerr, unit) op" where
  "TagRepo_Delete ctx i = withTenantTx ctx (TagDelete_tx i)"

section \<open>The statements keep the invariants and the other tenants' rows\<close>

lemma insert_tag_Inr:
  assumes "sql_insert_tag s t name u now d = Inr (x, d')"
  defines "r \<equiv> \<lparr>tg_id = u, tg_tenant = t, tg_name = name, tg_created = now\<rparr>"
  obtains (taken) "x = None" "d' = d" "tg_key r \<in> tg_key ` set (tags d)"
  | (new) "x = Some (tag_of_row r)" "d' = d\<lparr>tags := tags d @ [r]\<rparr>" "rls s t"
      "tg_key r \<notin> tg_key ` set (tags d)" "u \<notin> tg_id ` set (tags d)" "is_tenant d t"
proof -
  note eq = assms(1) [unfolded sql_insert_tag_def Let_def, folded r_def]
  have rls: "rls s t" using eq by (cases "rls s t") simp_all
  show thesis
  proof (cases "tg_key r \<in> tg_key ` set (tags d)")
    case True
    with eq rls show thesis by (intro taken) simp_all
  next
    case False
    with eq rls have u: "u \<notin> tg_id ` set (tags d)"
      by (cases "u \<in> tg_id ` set (tags d)") simp_all
    with eq rls False have t: "is_tenant d t" by (cases "is_tenant d t") simp_all
    from eq rls False u t show thesis by (intro new) simp_all
  qed
qed

lemma insert_tag_inv:
  assumes inv: "db_inv d" and "sql_insert_tag s t name u now d = Inr (x, d')"
  shows "db_inv d'"
  using assms(2)
proof (cases rule: insert_tag_Inr)
  case new
  with inv have "tags_ok d'" by (simp add: tags_ok_def db_inv_def)
  moreover from new inv have "links_ok d'" by (auto simp: links_ok_def db_inv_def)
  moreover from inv have "auth_ok d'" "media_ok d'" "idem_ok d'" "jobs_ok d'"
    unfolding new(2) db_inv_def by (simp_all add: ok_defs)
  ultimately show ?thesis by (simp add: db_inv_def)
qed (use inv in simp)

lemma rename_tag_key:
  assumes "distinct (map tg_key rs)" "distinct (map tg_id rs)"
    and "\<And>r. hit r \<longleftrightarrow> vis r \<and> tg_id r = i \<and> tg_tenant r = t"
    and "\<not> (\<exists>r' \<in> set rs. tg_id r' \<noteq> i \<and> tg_key r' = (t, name))"
  shows "distinct (map tg_key (update_where hit (\<lambda>r. r\<lparr>tg_name := name\<rparr>) rs))"
  using assms
proof (induction rs)
  case (Cons r rs)
  have ids: "tg_id r' \<noteq> i" if "r' \<in> set rs" "tg_id r = i" for r'
    using that Cons.prems(2) by (auto simp: image_iff)
  have new: "tg_key r' \<noteq> (t, name)" if "r' \<in> set rs" "tg_id r = i" for r'
    using ids [OF that] that(1) Cons.prems(4) by auto
  have same: "update_where hit (\<lambda>r. r\<lparr>tg_name := name\<rparr>) rs = rs" if "tg_id r = i"
    using ids [OF _ that] by (intro update_where_none) (simp add: Cons.prems(3))
  show ?case
  proof (cases "hit r")
    case True
    then have "tg_id r = i" "tg_tenant r = t" by (simp_all add: Cons.prems(3))
    then show ?thesis using True same new Cons.prems(1) by (force simp: tg_key_def)
  next
    case False
    have "tg_key r \<notin> tg_key ` set (update_where hit (\<lambda>r. r\<lparr>tg_name := name\<rparr>) rs)"
    proof
      assume "tg_key r \<in> tg_key ` set (update_where hit (\<lambda>r. r\<lparr>tg_name := name\<rparr>) rs)"
      then obtain r' where r': "r' \<in> set rs" "tg_key r = tg_key (if hit r' then r'\<lparr>tg_name := name\<rparr> else r')"
        by (auto simp: set_update_where)
      show False
      proof (cases "hit r'")
        case True
        then have "tg_key r = (t, name)" "tg_id r' = i" using r' Cons.prems(3) by (auto simp: tg_key_def)
        then show False using Cons.prems(2,4) r'(1) by force
      next
        case False
        then show False using r' Cons.prems(1) by force
      qed
    qed
    moreover have "distinct (map tg_key (update_where hit (\<lambda>r. r\<lparr>tg_name := name\<rparr>) rs))"
      by (rule Cons.IH) (use Cons.prems in auto)
    ultimately show ?thesis using \<open>\<not> hit r\<close> by simp
  qed
qed simp

lemma rename_tag_inv:
  assumes inv: "db_inv d" and "sql_rename_tag s t i name d = Inr (x, d')"
  shows "db_inv d'"
proof -
  define hit where "hit = tag_hit s t i"
  define rs where "rs = update_where hit (\<lambda>r. r\<lparr>tg_name := name\<rparr>) (tags d)"
  from assms(2) consider "d' = d" | "d' = d\<lparr>tags := rs\<rparr>"
      "\<not> (\<exists>r' \<in> set (tags d). tg_id r' \<noteq> i \<and> tg_key r' = (t, name))"
    by (auto simp: sql_rename_tag_def Let_def hit_def rs_def split: option.splits if_splits)
  then show ?thesis
  proof cases
    case 2
    have "distinct (map tg_key rs)"
      unfolding rs_def using inv 2(2)
      by (intro rename_tag_key [where vis = "\<lambda>r. rls s (tg_tenant r)" and i = i and t = t])
        (auto simp: hit_def tag_hit_def db_inv_def ok_defs)
    moreover have "map tg_id rs = map tg_id (tags d)" "map tg_tenant rs = map tg_tenant (tags d)"
      unfolding rs_def by (simp_all add: map_update_where_same)
    then have "tg_tenant ` set rs = tg_tenant ` set (tags d)"
      by (metis list.set_map)
    then have "\<forall>r \<in> set rs. is_tenant d (tg_tenant r)"
      using inv by (metis (no_types, lifting) db_inv_def tags_ok_def imageE imageI)
    moreover have "link_ok (d\<lparr>tags := rs\<rparr>) l" if "link_ok d l" for l
    proof -
      from that obtain r where "r \<in> set (tags d)" "tg_id r = mt_tag l" "tg_tenant r = mt_tenant l"
        by (auto simp: link_ok_def)
      then have "\<exists>r' \<in> set rs. tg_id r' = mt_tag l \<and> tg_tenant r' = mt_tenant l"
        unfolding rs_def set_update_where
        by (intro bexI [OF _ imageI [OF \<open>r \<in> set (tags d)\<close>]]) simp_all
      then show ?thesis using that by (simp add: link_ok_def)
    qed
    ultimately show ?thesis
      using inv \<open>map tg_id rs = _\<close> by (simp add: 2(1) db_inv_def ok_defs)
  qed (use inv in simp)
qed

lemma delete_tag_inv:
  assumes inv: "db_inv d" and "sql_delete_tag s t i d = Inr (n, d')"
  shows "db_inv d'"
proof -
  define hit where "hit = tag_hit s t i"
  have d': "d' = d\<lparr>tags := filter (\<lambda>r. \<not> hit r) (tags d),
      media_tags := filter (\<lambda>l. mt_tag l \<notin> tg_id ` set (filter hit (tags d))) (media_tags d)\<rparr>"
    using assms(2) by (simp add: sql_delete_tag_def Let_def hit_def)
  have "link_ok d' l" if "l \<in> set (media_tags d')" for l
  proof -
    from that inv have "link_ok d l" by (simp add: d' db_inv_D(7))
    then obtain r where r: "r \<in> set (tags d)" "tg_id r = mt_tag l" "tg_tenant r = mt_tenant l"
      by (auto simp: link_ok_def)
    have "mt_tag l \<notin> tg_id ` set (filter hit (tags d))" using that by (simp add: d')
    with r have "\<not> hit r" by (fastforce simp: image_iff)
    with r \<open>link_ok d l\<close> show ?thesis by (auto simp: link_ok_def d')
  qed
  with inv show ?thesis
    by (auto simp: d' db_inv_def ok_defs distinct_map_filter)
qed

lemma insert_tag_others:
  "sql_insert_tag s t name u now d = Inr (x, d') \<Longrightarrow> others_kept t d d'"
  by (erule insert_tag_Inr) (simp_all add: others_kept_def tenant_view_def)

lemma rename_tag_others:
  assumes "sql_rename_tag s t i name d = Inr (x, d')"
  shows "others_kept t d d'"
proof -
  have "filter (\<lambda>r. tg_tenant r = u) (update_where (tag_hit s t i) (\<lambda>r. r\<lparr>tg_name := name\<rparr>) rs)
      = filter (\<lambda>r. tg_tenant r = u) rs" if "u \<noteq> t" for u rs
    using that by (intro filter_update_where_disjoint) (simp_all add: tag_hit_def)
  with assms show ?thesis
    by (auto simp: sql_rename_tag_def others_kept_def tenant_view_def split: if_splits option.splits)
qed

lemma delete_tag_others:
  assumes inv: "db_inv d" and "sql_delete_tag s t i d = Inr (n, d')"
  shows "others_kept t d d'"
proof -
  define hit where "hit = tag_hit s t i"
  have d': "d' = d\<lparr>tags := filter (\<lambda>r. \<not> hit r) (tags d),
      media_tags := filter (\<lambda>l. mt_tag l \<notin> tg_id ` set (filter hit (tags d))) (media_tags d)\<rparr>"
    using assms(2) by (simp add: sql_delete_tag_def Let_def hit_def)
  have "mt_tag l \<notin> tg_id ` set (filter hit (tags d))" if l: "l \<in> set (media_tags d)" "mt_tenant l \<noteq> t" for l
  proof
    assume "mt_tag l \<in> tg_id ` set (filter hit (tags d))"
    then obtain r where r: "r \<in> set (tags d)" "hit r" "tg_id r = mt_tag l" by auto
    from inv l(1) obtain r' where "r' \<in> set (tags d)" "tg_id r' = mt_tag l" "tg_tenant r' = mt_tenant l"
      using db_inv_D(7) link_ok_def by blast
    with r inv have "r' = r" by (metis db_inv_D(1) distinct_map_unique)
    with r l \<open>tg_tenant r' = mt_tenant l\<close> show False by (simp add: hit_def tag_hit_def)
  qed
  moreover have "\<not> hit r" if "tg_tenant r \<noteq> t" for r using that by (simp add: hit_def tag_hit_def)
  ultimately show ?thesis
    by (auto simp: others_kept_def tenant_view_def d' intro!: filter_cong)
qed

section \<open>Invariants of the operations\<close>

lemmas TagRepo_defs =
  TagRepo_CreateOrGet_def TagRepo_List_def TagRepo_Rename_def TagRepo_Delete_def

lemmas TagRepo_tx_defs = CreateOrGet_tx_def TagList_tx_def Rename_tx_def TagDelete_tx_def

lemma db_op_TagRepo_tx [frame]:
  "db_op (CreateOrGet_tx name s t)" "db_op (TagList_tx X limit cursor s t)"
  "db_op (Rename_tx i name s t)" "db_op (TagDelete_tx i s t)"
  unfolding TagRepo_tx_defs by (intro frame)+

lemma db_op_TagRepo [frame]:
  "db_op (TagRepo_CreateOrGet ctx name)" "db_op (TagRepo_List X ctx limit cursor)"
  "db_op (TagRepo_Rename ctx i name)" "db_op (TagRepo_Delete ctx i)"
  unfolding TagRepo_defs by (intro frame)+

lemma tx_atomic_TagRepo:
  "tx_atomic (TagRepo_CreateOrGet ctx name)" "tx_atomic (TagRepo_List X ctx limit cursor)"
  "tx_atomic (TagRepo_Rename ctx i name)" "tx_atomic (TagRepo_Delete ctx i)"
  unfolding TagRepo_defs by (intro tx_atomic_withTenantTx frame)+

text \<open>
  \<open>J\<close> is any property of the tables that the three writing statements preserve for the tenant
  of the context.
\<close>

lemma keeps_TagRepo:
  assumes "\<And>s t name u now d x d'. TenantIDFromContext ctx = Inr t \<Longrightarrow> J d \<Longrightarrow>
      sql_insert_tag s t name u now d = Inr (x, d') \<Longrightarrow> J d'"
    and "\<And>s t i name d x d'. TenantIDFromContext ctx = Inr t \<Longrightarrow> J d \<Longrightarrow>
      sql_rename_tag s t i name d = Inr (x, d') \<Longrightarrow> J d'"
    and "\<And>s t i d x d'. TenantIDFromContext ctx = Inr t \<Longrightarrow> J d \<Longrightarrow>
      sql_delete_tag s t i d = Inr (x, d') \<Longrightarrow> J d'"
  shows "db_keeps J (TagRepo_CreateOrGet ctx name)" "db_keeps J (TagRepo_List X ctx limit cursor)"
    "db_keeps J (TagRepo_Rename ctx i name)" "db_keeps J (TagRepo_Delete ctx i)"
  unfolding TagRepo_defs TagRepo_tx_defs
  by (intro preserves frame; (erule (2) assms(1) | erule (2) assms(2) | erule (2) assms(3)))+

lemma keeps_inv_TagRepo [preserves]:
  "db_keeps db_inv (TagRepo_CreateOrGet ctx name)" "db_keeps db_inv (TagRepo_List X ctx limit cursor)"
  "db_keeps db_inv (TagRepo_Rename ctx i name)" "db_keeps db_inv (TagRepo_Delete ctx i)"
  by (rule keeps_TagRepo; erule (1) insert_tag_inv rename_tag_inv delete_tag_inv)+

text \<open>Tenant isolation of the writes.\<close>

lemma keeps_others_TagRepo:
  fixes d0
  assumes "TenantIDFromContext ctx = Inr t"
  defines "J \<equiv> \<lambda>d. db_inv d \<and> others_kept t d0 d"
  shows "db_keeps J (TagRepo_CreateOrGet ctx name)" "db_keeps J (TagRepo_List X ctx limit cursor)"
    "db_keeps J (TagRepo_Rename ctx i name)" "db_keeps J (TagRepo_Delete ctx i)"
  unfolding J_def
  by (rule keeps_TagRepo; use assms(1) in \<open>auto dest: insert_tag_inv rename_tag_inv delete_tag_inv
    insert_tag_others rename_tag_others delete_tag_others intro: others_kept_trans\<close>)+

section \<open>The tags of a tenant by name\<close>

definition tag_dir :: "uuid \<Rightarrow> db \<Rightarrow> string \<rightharpoonup> Tag" where
  "tag_dir t d n = map_option tag_of_row (find (\<lambda>r. tg_tenant r = t \<and> tg_name r = n) (tags d))"

lemma tag_dir_Some:
  assumes "db_inv d"
  shows "tag_dir t d n = Some tag \<longleftrightarrow>
    (\<exists>r \<in> set (tags d). tg_tenant r = t \<and> tg_name r = n \<and> tag = tag_of_row r)"
proof
  assume "tag_dir t d n = Some tag"
  then show "\<exists>r \<in> set (tags d). tg_tenant r = t \<and> tg_name r = n \<and> tag = tag_of_row r"
    by (auto simp: tag_dir_def dest!: find_Some_in)
next
  assume "\<exists>r \<in> set (tags d). tg_tenant r = t \<and> tg_name r = n \<and> tag = tag_of_row r"
  then obtain r where r: "r \<in> set (tags d)" "tg_tenant r = t" "tg_name r = n" "tag = tag_of_row r"
    by blast
  then obtain r' where r': "find (\<lambda>r. tg_tenant r = t \<and> tg_name r = n) (tags d) = Some r'"
    by (cases "find (\<lambda>r. tg_tenant r = t \<and> tg_name r = n) (tags d)") (auto simp: find_None_iff_ex)
  then have "r' \<in> set (tags d)" "tg_key r' = tg_key r"
    using r by (auto simp: tg_key_def dest!: find_Some_in)
  then have "r' = r" using assms r(1) by (metis db_inv_D(2) distinct_map_unique)
  with r r' show "tag_dir t d n = Some tag" by (simp add: tag_dir_def)
qed

lemma tag_dir_None: "tag_dir t d n = None \<longleftrightarrow> (t, n) \<notin> tg_key ` set (tags d)"
  by (auto simp: tag_dir_def find_None_iff_ex tg_key_def)

lemma tag_dir_row:
  "db_inv d \<Longrightarrow> r \<in> set (tags d) \<Longrightarrow> tag_dir (tg_tenant r) d (tg_name r) = Some (tag_of_row r)"
  by (auto simp: tag_dir_Some)

text \<open>What the map becomes when the row \<open>r\<close> is replaced by \<open>r'\<close>, or removed.\<close>

lemma tag_dir_replace:
  assumes inv: "db_inv d" "db_inv d'" and r: "r \<in> set (tags d)" "tg_tenant r' = tg_tenant r"
    and set': "set (tags d') = insert r' (set (tags d) - {r})"
  shows "tag_dir (tg_tenant r) d' = (tag_dir (tg_tenant r) d)(tg_name r := None, tg_name r' \<mapsto> tag_of_row r')"
proof
  let ?t = "tg_tenant r"
  fix n
  consider "n = tg_name r'" | "n \<noteq> tg_name r'" "n = tg_name r" | "n \<noteq> tg_name r'" "n \<noteq> tg_name r" by blast
  then show "tag_dir ?t d' n = ((tag_dir ?t d)(tg_name r := None, tg_name r' \<mapsto> tag_of_row r')) n"
  proof cases
    case 1
    then show ?thesis using tag_dir_row [OF inv(2), of r'] r set' by simp
  next
    case 2
    have "q = r" if "q \<in> set (tags d)" "tg_tenant q = ?t" "tg_name q = tg_name r" for q
      using that r inv(1) by (metis db_inv_D(2) distinct_map_unique tg_key_def)
    then have "(?t, n) \<notin> tg_key ` set (tags d')"
      using 2 by (auto simp: set' tg_key_def)
    with 2 show ?thesis by (simp add: tag_dir_None)
  next
    case 3
    have "tag_dir ?t d' n = tag_dir ?t d n"
    proof (cases "tag_dir ?t d n")
      case None
      then have "(?t, n) \<notin> tg_key ` set (tags d')" using 3 by (auto simp: tag_dir_None set' tg_key_def)
      with None show ?thesis using tag_dir_None by metis
    next
      case (Some x)
      then obtain q where q: "q \<in> set (tags d)" "tg_tenant q = ?t" "tg_name q = n" "x = tag_of_row q"
        using tag_dir_Some [OF inv(1)] by blast
      with 3 have "q \<in> set (tags d')" by (auto simp: set')
      with q Some tag_dir_row [OF inv(2), of q] show ?thesis by simp
    qed
    with 3 show ?thesis by simp
  qed
qed

lemma tag_dir_remove:
  assumes inv: "db_inv d" "db_inv d'" and r: "r \<in> set (tags d)"
    and set': "set (tags d') = set (tags d) - {r}"
  shows "tag_dir (tg_tenant r) d' = (tag_dir (tg_tenant r) d)(tg_name r := None)"
proof
  let ?t = "tg_tenant r"
  fix n
  show "tag_dir ?t d' n = ((tag_dir ?t d)(tg_name r := None)) n"
  proof (cases "(?t, n) \<in> tg_key ` set (tags d')")
    case True
    then obtain q where q: "q \<in> set (tags d')" "tg_tenant q = ?t" "tg_name q = n"
      by (auto simp: tg_key_def)
    then have "n \<noteq> tg_name r"
      using inv(1) r set' by (metis DiffD1 DiffD2 db_inv_D(2) distinct_map_unique insertI1 tg_key_def)
    then show ?thesis
      using q set' tag_dir_row [OF inv(1), of q] tag_dir_row [OF inv(2), of q] by simp
  next
    case False
    then have "n \<noteq> tg_name r \<Longrightarrow> (?t, n) \<notin> tg_key ` set (tags d)" by (auto simp: set' tg_key_def)
    with False show ?thesis by (auto simp: tag_dir_None [symmetric])
  qed
qed


lemma insert_tag_dir:
  assumes "db_inv d" "sql_insert_tag s t name u now d = Inr (Some tag, d')"
  shows "tag_dir t d name = None" "tag_dir t d' = (tag_dir t d)(name \<mapsto> tag)" "tag_Name tag = name"
    "tag_ID tag = u"
proof -
  have "db_inv d'" by (rule insert_tag_inv [OF assms])
  from assms(2) show "tag_dir t d name = None" "tag_Name tag = name" "tag_ID tag = u"
    by (auto elim!: insert_tag_Inr simp: tag_dir_None tg_key_def)
  have None: "tag_dir t d name = None" by fact
  show "tag_dir t d' = (tag_dir t d)(name \<mapsto> tag)"
    using assms(2)
  proof (cases rule: insert_tag_Inr)
    case new
    with None show ?thesis by (auto simp: tag_dir_def find_append split: option.splits)
  qed simp
qed

lemma insert_tag_taken:
  "sql_insert_tag s t name u now d = Inr (None, d') \<Longrightarrow> d' = d \<and> tag_dir t d name \<noteq> None"
  by (erule insert_tag_Inr) (simp_all add: tag_dir_None tg_key_def)

lemma select_tag_dir [simp]:
  "rls s t \<Longrightarrow> sql_select_tag_by_name s t name d = tag_dir t d name"
  unfolding sql_select_tag_by_name_def tag_dir_def by (rule arg_cong [where f = "map_option _"])
    (rule find_cong; auto)

lemma rename_tag_dir:
  assumes inv: "db_inv d" and "sql_rename_tag s t i name d = Inr (Some tag, d')"
  shows "tag_ID tag = i" "tag_Name tag = name"
    "\<exists>old t0. tag_dir t d old = Some t0 \<and> tag_ID t0 = i \<and> tag_dir t d' = (tag_dir t d)(old := None, name \<mapsto> tag)"
proof -
  have inv': "db_inv d'" by (rule rename_tag_inv [OF assms])
  from assms(2) obtain r where r: "find (tag_hit s t i) (tags d) = Some r"
    and tag: "tag = tag_of_row (r\<lparr>tg_name := name\<rparr>)"
    and d': "d' = d\<lparr>tags := update_where (tag_hit s t i) (\<lambda>r. r\<lparr>tg_name := name\<rparr>) (tags d)\<rparr>"
    and free: "\<not> (\<exists>r' \<in> set (tags d). tg_id r' \<noteq> i \<and> tg_key r' = (t, name))"
    by (auto simp: sql_rename_tag_def split: option.splits if_splits)
  then have "r \<in> set (tags d) \<and> tag_hit s t i r" by (blast dest: find_Some_in)
  then have hit: "r \<in> set (tags d)" "tg_id r = i" "tg_tenant r = t" "tag_hit s t i r"
    by (auto simp: tag_hit_def)
  then show "tag_ID tag = i" "tag_Name tag = name" by (simp_all add: tag)
  have only: "tag_hit s t i r' \<longleftrightarrow> r' = r" if "r' \<in> set (tags d)" for r'
    using that hit inv by (metis db_inv_D(1) distinct_map_unique tag_hit_def)
  have set': "set (tags d') = insert (r\<lparr>tg_name := name\<rparr>) (set (tags d) - {r})"
    using hit(1) by (auto simp: d' set_update_where only)
  have "tag_dir t d' = (tag_dir t d)(tg_name r := None, name \<mapsto> tag)"
    using tag_dir_replace [OF inv inv' hit(1) _ set'] hit(3) by (simp add: tag)
  moreover have "tag_dir t d (tg_name r) = Some (tag_of_row r)"
    using hit by (auto simp: tag_dir_Some [OF inv])
  ultimately show "\<exists>old t0. tag_dir t d old = Some t0 \<and> tag_ID t0 = i
      \<and> tag_dir t d' = (tag_dir t d)(old := None, name \<mapsto> tag)"
    using hit(2) by (intro exI [of _ "tg_name r"] exI [of _ "tag_of_row r"]) simp
qed

lemma delete_tag_dir:
  assumes inv: "db_inv d" and "sql_delete_tag s t i d = Inr (n, d')" "n \<noteq> 0"
  shows "\<exists>old t0. tag_dir t d old = Some t0 \<and> tag_ID t0 = i \<and> tag_dir t d' = (tag_dir t d)(old := None)"
proof -
  have inv': "db_inv d'" by (rule delete_tag_inv [OF assms(1,2)])
  from assms(2,3) have "filter (tag_hit s t i) (tags d) \<noteq> []"
    by (auto simp: sql_delete_tag_def Let_def)
  then obtain r where hit: "r \<in> set (tags d)" "tag_hit s t i r"
    by (auto simp: filter_empty_conv)
  then have r: "tg_id r = i" "tg_tenant r = t" by (auto simp: tag_hit_def)
  have only: "tag_hit s t i r' \<longleftrightarrow> r' = r" if "r' \<in> set (tags d)" for r'
    using that hit inv by (metis db_inv_D(1) distinct_map_unique tag_hit_def)
  have set': "set (tags d') = set (tags d) - {r}"
    using assms(2) only by (auto simp: sql_delete_tag_def Let_def)
  have "tag_dir t d' = (tag_dir t d)(tg_name r := None)"
    using tag_dir_remove [OF inv inv' hit(1) set'] r by simp
  moreover have "tag_dir t d (tg_name r) = Some (tag_of_row r)"
    using hit r by (auto simp: tag_dir_Some [OF inv])
  ultimately show ?thesis
    using r by (intro exI [of _ "tg_name r"] exI [of _ "tag_of_row r"]) simp
qed

section \<open>What a successful call returned\<close>

lemma insert_tag_no_rows: "db_insert (sql_insert_tag s t n) w \<noteq> (Inl SqlErrNoRows, w')"
  by (auto dest!: db_insert_Inl simp: sql_insert_tag_def Let_def split: if_splits)

lemma CreateOrGet_Inr:
  assumes inv: "db_inv (w_db w)" and "TagRepo_CreateOrGet ctx n w = (Inr (tag, c), w')"
  obtains t where "TenantIDFromContext ctx = Inr t"
    "tag_dir t (w_db w') = (tag_dir t (w_db w))(n \<mapsto> tag)"
    "c \<longleftrightarrow> tag_dir t (w_db w) n = None" "\<not> c \<Longrightarrow> w_db w' = w_db w \<and> tag_dir t (w_db w) n = Some tag"
  using assms(2) unfolding TagRepo_CreateOrGet_def
proof (rule withTenantTx_Inr)
  fix tid w2 w3 assume t: "TenantIDFromContext ctx = Inr tid" and w2: "w_db w2 = w_db w"
    and w3: "w_db w' = w_db w3"
    and "CreateOrGet_tx n (tenant_session w tid) tid w2 = (Inr (tag, c), w3)"
  then consider (new) u "now" where
      "sql_insert_tag (tenant_session w tid) tid n u now (w_db w2) = Inr (Some tag, w_db w3)" "c"
    | (old) u "now" d1 where "sql_insert_tag (tenant_session w tid) tid n u now (w_db w2) = Inr (None, d1)"
        "sql_select_tag_by_name (tenant_session w tid) tid n d1 = Some tag" "w_db w3 = d1" "\<not> c"
    by (auto simp: CreateOrGet_tx_def handle_eq QueryRow_Inr QueryRow_Inl db_insert_Inr db_query_Inr
        insert_tag_no_rows split: if_splits)
  then show thesis
  proof cases
    case new
    then show ?thesis using insert_tag_dir [OF _ new(1)] inv t w2 w3 by (intro that [of tid]) auto
  next
    case old
    then show ?thesis using insert_tag_taken [OF old(1)] t w2 w3
      by (intro that [of tid]) (auto simp: map_upd_triv)
  qed
qed (intro frame)

lemma Rename_Inr:
  assumes inv: "db_inv (w_db w)" and "TagRepo_Rename ctx i n w = (Inr tag, w')"
  obtains t old t0 where "TenantIDFromContext ctx = Inr t" "tag_ID tag = i" "tag_Name tag = n"
    "tag_dir t (w_db w) old = Some t0" "tag_ID t0 = i"
    "tag_dir t (w_db w') = (tag_dir t (w_db w))(old := None, n \<mapsto> tag)"
  using assms(2) unfolding TagRepo_Rename_def
proof (rule withTenantTx_Inr)
  fix tid w2 w3 assume t: "TenantIDFromContext ctx = Inr tid" and w2: "w_db w2 = w_db w"
    and w3: "w_db w' = w_db w3" and "Rename_tx i n (tenant_session w tid) tid w2 = (Inr tag, w3)"
  then have "sql_rename_tag (tenant_session w tid) tid i n (w_db w2) = Inr (Some tag, w_db w3)"
    by (auto simp: Rename_tx_def handle_eq QueryRow_Inr db_exec_Inr split: if_splits)
  from rename_tag_dir [OF _ this] inv t w2 w3 that show thesis by metis
qed (intro frame)

lemma Delete_Inr:
  assumes inv: "db_inv (w_db w)" and "TagRepo_Delete ctx i w = (Inr u, w')"
  obtains t old t0 where "TenantIDFromContext ctx = Inr t"
    "tag_dir t (w_db w) old = Some t0" "tag_ID t0 = i"
    "tag_dir t (w_db w') = (tag_dir t (w_db w))(old := None)"
  using assms(2) unfolding TagRepo_Delete_def
proof (rule withTenantTx_Inr)
  fix tid w2 w3 assume t: "TenantIDFromContext ctx = Inr tid" and w2: "w_db w2 = w_db w"
    and w3: "w_db w' = w_db w3" and "TagDelete_tx i (tenant_session w tid) tid w2 = (Inr u, w3)"
  then obtain k where "sql_delete_tag (tenant_session w tid) tid i (w_db w2) = Inr (k, w_db w3)" "k \<noteq> 0"
    by (auto simp: TagDelete_tx_def and_then_Inr db_exec_Inr split: if_splits)
  from delete_tag_dir [OF _ this] inv t w2 w3 that show thesis by metis
qed (intro frame)

section \<open>The repository implements the contract\<close>

definition PostgresTagRepo :: "Ext \<Rightarrow> World TagRepository" where
  "PostgresTagRepo X =
     \<lparr>tr_CreateOrGet = TagRepo_CreateOrGet, tr_List = TagRepo_List X,
      tr_Rename = TagRepo_Rename, tr_Delete = TagRepo_Delete\<rparr>"

lemma PostgresTagRepo_sel [simp]:
  "tr_CreateOrGet (PostgresTagRepo X) = TagRepo_CreateOrGet"
  "tr_List (PostgresTagRepo X) = TagRepo_List X"
  "tr_Rename (PostgresTagRepo X) = TagRepo_Rename" "tr_Delete (PostgresTagRepo X) = TagRepo_Delete"
  by (simp_all add: PostgresTagRepo_def)

text \<open>The tags the identity of a context reaches.\<close>

definition ctx_tags :: "Ctx \<Rightarrow> World \<Rightarrow> string \<rightharpoonup> Tag" where
  "ctx_tags ctx w = (case TenantIDFromContext ctx of Inl _ \<Rightarrow> Map.empty | Inr t \<Rightarrow> tag_dir t (w_db w))"

lemma tag_dir_id:
  assumes "db_inv d" "tag_dir t d n = Some a" "tag_dir t d n' = Some b" "tag_ID a = tag_ID b"
  shows "n = n'"
proof -
  from assms obtain r r' where "r \<in> set (tags d)" "tg_name r = n" "a = tag_of_row r"
    "r' \<in> set (tags d)" "tg_name r' = n'" "b = tag_of_row r'" by (auto simp: tag_dir_Some)
  with assms(1,4) show ?thesis by (metis db_inv_D(1) distinct_map_unique tag_of_row_sel(1))
qed

interpretation pg_tags: tag_repository "PostgresTagRepo X" ctx "\<lambda>w. db_inv (w_db w)" "ctx_tags ctx"
  for X ctx
proof (unfold_locales, unfold PostgresTagRepo_sel)
  fix w n t c w' assume a: "db_inv (w_db w)" "TagRepo_CreateOrGet ctx n w = (Inr (t, c), w')"
  show "ctx_tags ctx w' = (ctx_tags ctx w)(n \<mapsto> t) \<and> (c \<longleftrightarrow> ctx_tags ctx w n = None)
      \<and> (\<not> c \<longrightarrow> ctx_tags ctx w n = Some t)"
    by (rule CreateOrGet_Inr [OF a]) (auto simp: ctx_tags_def)
next
  fix w i n t w' assume a: "db_inv (w_db w)" "TagRepo_Rename ctx i n w = (Inr t, w')"
  show "tag_ID t = i \<and> tag_Name t = n \<and> (\<exists>old t0. ctx_tags ctx w old = Some t0 \<and> tag_ID t0 = i
      \<and> ctx_tags ctx w' = (ctx_tags ctx w)(old := None, n \<mapsto> t))"
    by (rule Rename_Inr [OF a]) (auto simp: ctx_tags_def)
next
  fix w i w' assume a: "db_inv (w_db w)" "TagRepo_Delete ctx i w = (Inr (), w')"
  show "\<exists>old t0. ctx_tags ctx w old = Some t0 \<and> tag_ID t0 = i \<and> ctx_tags ctx w' = (ctx_tags ctx w)(old := None)"
    by (rule Delete_Inr [OF a]) (auto simp: ctx_tags_def)
next
  fix w n t assume "db_inv (w_db w)" "ctx_tags ctx w n = Some t"
  then show "tag_Name t = n" by (auto simp: ctx_tags_def tag_dir_Some split: sum.splits)
next
  fix w n t n' t'
  assume "db_inv (w_db w)" "ctx_tags ctx w n = Some t" "ctx_tags ctx w n' = Some t'" "tag_ID t = tag_ID t'"
  then show "n = n'" by (auto simp: ctx_tags_def intro: tag_dir_id split: sum.splits)
qed (intro preserves)+

section \<open>The outcome of every call when the database answers\<close>

definition tag_by_id :: "uuid \<Rightarrow> db \<Rightarrow> uuid \<Rightarrow> Tag option" where
  "tag_by_id t d i = map_option tag_of_row (find (\<lambda>r. tg_tenant r = t \<and> tg_id r = i) (tags d))"

lemma find_tag_hit:
  "rls s t \<Longrightarrow> find (tag_hit s t i) (tags d) = find (\<lambda>r. tg_tenant r = t \<and> tg_id r = i) (tags d)"
  by (rule find_cong) (auto simp: tag_hit_def)

text \<open>Renaming: a missing tag, a taken name, or the renamed tag; its own name is not taken.\<close>

definition rename_outcome :: "uuid \<Rightarrow> db \<Rightarrow> uuid \<Rightarrow> string \<Rightarrow> goerr + Tag" where
  "rename_outcome t d i n =
     (case tag_by_id t d i of
        None \<Rightarrow> Inl ErrNotFound
      | Some tag \<Rightarrow>
        (case tag_dir t d n of
           Some tag' \<Rightarrow>
             if tag_ID tag' \<noteq> i
             then Inl (Errorf '''' ErrConflict '': a tag with that name already exists'')
             else Inr (tag\<lparr>tag_Name := n\<rparr>)
         | None \<Rightarrow> Inr (tag\<lparr>tag_Name := n\<rparr>)))"

lemma tag_taken_iff:
  assumes "db_inv d"
  shows "(\<exists>r' \<in> set (tags d). tg_id r' \<noteq> i \<and> tg_key r' = (t, n))
    \<longleftrightarrow> (\<exists>tag'. tag_dir t d n = Some tag' \<and> tag_ID tag' \<noteq> i)"
  by (auto simp: tag_dir_Some [OF assms] tg_key_def)

lemma sql_rename_tag_outcome:
  assumes inv: "db_inv d" and "rls s t"
  shows "(case sql_rename_tag s t i n d of
      Inl e \<Rightarrow> e = PqError uniqueViolation
        \<and> rename_outcome t d i n = Inl (Errorf '''' ErrConflict '': a tag with that name already exists'')
    | Inr (None, d') \<Rightarrow> rename_outcome t d i n = Inl ErrNotFound
    | Inr (Some tag, d') \<Rightarrow> rename_outcome t d i n = Inr tag)"
proof (cases "find (\<lambda>r. tg_tenant r = t \<and> tg_id r = i) (tags d)")
  case None
  then show ?thesis
    by (simp add: sql_rename_tag_def find_tag_hit [OF assms(2)] rename_outcome_def tag_by_id_def)
next
  case (Some r)
  have "tag_of_row (r\<lparr>tg_name := n\<rparr>) = (tag_of_row r)\<lparr>tag_Name := n\<rparr>"
    by (simp add: tag_of_row_def)
  with Some show ?thesis
    using tag_taken_iff [OF inv, of i t n]
    by (auto simp: sql_rename_tag_def find_tag_hit [OF assms(2)] rename_outcome_def tag_by_id_def
        split: option.splits)
qed

lemma Rename_tx_outcome:
  assumes inv: "db_inv (w_db w)" and nf: "no_faults w" and rls: "rls s t"
  shows "fst (Rename_tx i n s t w) = rename_outcome t (w_db w) i n"
proof (cases "sql_rename_tag s t i n (w_db w)")
  case (Inl e)
  with sql_rename_tag_outcome [OF inv rls, of i n]
  have e: "e = PqError uniqueViolation"
    and o: "rename_outcome t (w_db w) i n = Inl (Errorf '''' ErrConflict '': a tag with that name already exists'')"
    by simp_all
  show ?thesis unfolding o using Inl nf
    by (simp add: Rename_tx_def handle_def QueryRow_def and_then_def db_exec_no_faults fail_def e)
next
  case (Inr p)
  obtain x d' where p: "p = (x, d')" by (cases p)
  have "rename_outcome t (w_db w) i n = (case x of None \<Rightarrow> Inl ErrNotFound | Some tag \<Rightarrow> Inr tag)"
    using sql_rename_tag_outcome [OF inv rls, of i n] Inr p by (simp split: option.splits)
  then show ?thesis using Inr nf
    by (simp add: Rename_tx_def handle_def QueryRow_def and_then_def db_exec_no_faults fail_def ret_def p
        split: option.split)
qed

lemma Rename_outcome:
  assumes inv: "db_inv (w_db w)" and nf: "no_faults w" and t: "TenantIDFromContext ctx = Inr t"
  shows "fst (TagRepo_Rename ctx i n w) = rename_outcome t (w_db w) i n"
proof -
  have "fst (Rename_tx i n (tenant_session w t) t (in_tx w)) = rename_outcome t (w_db w) i n"
    using Rename_tx_outcome [of "in_tx w"] inv nf by simp
  then obtain w3 where
    "Rename_tx i n (tenant_session w t) t (in_tx w) = (rename_outcome t (w_db w) i n, w3)"
    by (rule fst_eqE)
  from withTenantTx_no_faults [where fn = "Rename_tx i n", OF nf db_op_TagRepo_tx(3) t this] show ?thesis
    by (auto simp: TagRepo_Rename_def)
qed

text \<open>Creating succeeds for a tenant that exists, when the drawn id is fresh.\<close>

lemma CreateOrGet_succeeds:
  assumes inv: "db_inv (w_db w)" and nf: "no_faults w" and t: "TenantIDFromContext ctx = Inr t"
    and "is_tenant (w_db w) t" and "w_uuids w (w_drawn w) \<notin> tg_id ` set (tags (w_db w))"
  shows "\<exists>tag c w'. TagRepo_CreateOrGet ctx n w = (Inr (tag, c), w') \<and> db_only w w'"
proof -
  have "\<exists>x w3. CreateOrGet_tx n (tenant_session w t) t (in_tx w) = (Inr x, w3)"
  proof (cases "tag_dir t (w_db w) n")
    case None
    with assms(2,4,5) show ?thesis
      by (auto simp: CreateOrGet_tx_def handle_def QueryRow_def and_then_def db_insert_no_faults
          sql_insert_tag_def Let_def tag_dir_None tg_key_def ret_def)
  next
    case (Some tag)
    then have "(t, n) \<in> tg_key ` set (tags (w_db w))"
      using tag_dir_None [of t "w_db w" n] by auto
    with Some assms(2) show ?thesis
      by (auto simp: CreateOrGet_tx_def handle_def QueryRow_def and_then_def db_insert_no_faults
          db_query_no_faults sql_insert_tag_def Let_def tg_key_def ret_def fail_def)
  qed
  then obtain x w3 where "CreateOrGet_tx n (tenant_session w t) t (in_tx w) = (Inr x, w3)" by blast
  from withTenantTx_no_faults [where fn = "CreateOrGet_tx n", OF nf db_op_TagRepo_tx(1) t this] show ?thesis
    by (cases x) (auto simp: TagRepo_CreateOrGet_def)
qed

section \<open>Listing\<close>

definition tag_rows :: "uuid \<Rightarrow> db \<Rightarrow> tag_row list" where
  "tag_rows t d = filter (\<lambda>r. tg_tenant r = t) (tags d)"

text \<open>The tags of a tenant in listing order.\<close>

definition all_tags :: "Ext \<Rightarrow> uuid \<Rightarrow> db \<Rightarrow> Tag list" where
  "all_tags X t d = map tag_of_row (sort_key (tag_row_key X) (tag_rows t d))"

definition tag_key :: "Ext \<Rightarrow> Tag \<Rightarrow> nat list \<times> uuid" where
  "tag_key X t = (x_collate X (tag_Name t), tag_ID t)"

lemma tag_key_row [simp]: "tag_key X (tag_of_row r) = tag_row_key X r"
  by (simp add: tag_key_def tag_row_key_def)

lemma sql_list_tags_after:
  "rls s t \<Longrightarrow> sql_list_tags X s t cursor n d
     = take n (after (tag_key X) (tag_cursor_key X) cursor (all_tags X t d))"
proof (cases cursor)
  case None
  assume rls: "rls s t"
  have "filter (\<lambda>r. rls s (tg_tenant r) \<and> tg_tenant r = t \<and> True) (tags d) = tag_rows t d"
    using rls by (auto simp: tag_rows_def intro: filter_cong)
  then show ?thesis by (simp add: sql_list_tags_def None all_tags_def take_map)
next
  case (Some c)
  assume rls: "rls s t"
  have "filter (\<lambda>r. rls s (tg_tenant r) \<and> tg_tenant r = t \<and> tag_cursor_key X c < tag_row_key X r) (tags d)
      = filter (\<lambda>r. tag_cursor_key X c < tag_row_key X r) (tag_rows t d)"
    using rls by (auto simp: tag_rows_def filter_filter intro: filter_cong)
  moreover have "after (tag_key X) (tag_cursor_key X) cursor (all_tags X t d)
      = map tag_of_row (sort_key (tag_row_key X) (filter (\<lambda>r. tag_cursor_key X c < tag_row_key X r) (tag_rows t d)))"
    by (simp add: after_def Some all_tags_def filter_map o_def filter_sort)
  ultimately show ?thesis by (simp add: sql_list_tags_def Some take_map)
qed

lemma all_tags_strict:
  assumes "db_inv d"
  shows "sorted_wrt (<) (map (tag_key X) (all_tags X t d))"
proof -
  have "distinct (map tg_id (tag_rows t d))"
    using assms by (simp add: tag_rows_def distinct_map_filter db_inv_D)
  then have "distinct (map (tag_row_key X) (tag_rows t d))"
    by (auto simp: distinct_map inj_on_def tag_row_key_def)
  from sort_key_strict [OF this] show ?thesis by (simp add: all_tags_def o_def)
qed

text \<open>Each tag of the tenant once.\<close>

lemma all_tags_ids:
  assumes "db_inv d"
  shows "distinct (map tag_ID (all_tags X t d))" "set (all_tags X t d) = tag_of_row ` {r \<in> set (tags d). tg_tenant r = t}"
  using db_inv_D(1) [OF assms] unfolding all_tags_def tag_rows_def
  by (auto simp: o_def distinct_map inj_on_def)

definition tag_list_ready :: "uuid \<Rightarrow> db \<Rightarrow> Ctx \<Rightarrow> nat \<Rightarrow> World \<Rightarrow> bool" where
  "tag_list_ready t d ctx limit w \<longleftrightarrow>
     0 < limit \<and> no_faults w \<and> db_inv d \<and> w_db w = d \<and> TenantIDFromContext ctx = Inr t"

lemma TagRepo_List_page:
  assumes "tag_list_ready t d ctx limit w"
  shows "\<exists>w'. TagRepo_List X ctx limit cursor w =
      (Inr (page limit tag_cursor_of
         (take (Suc limit) (after (tag_key X) (tag_cursor_key X) cursor (all_tags X t (w_db w))))), w')
    \<and> tag_list_ready t d ctx limit w' \<and> w_db w' = w_db w"
proof -
  let ?p = "page limit tag_cursor_of
     (take (Suc limit) (after (tag_key X) (tag_cursor_key X) cursor (all_tags X t (w_db w))))"
  have nf: "no_faults w" and t: "TenantIDFromContext ctx = Inr t"
    using assms by (simp_all add: tag_list_ready_def)
  have "TagList_tx X limit cursor (tenant_session w t) t (in_tx w)
      = (Inr ?p, (in_tx w)\<lparr>w_calls := Suc (w_calls (in_tx w))\<rparr>)"
    using nf by (simp add: TagList_tx_def and_then_def map_err_def db_query_no_faults
        sql_list_tags_after ret_def)
  from withTenantTx_no_faults [where fn = "TagList_tx X limit cursor", OF nf db_op_TagRepo_tx(2) t this] obtain w' where
    "TagRepo_List X ctx limit cursor w = (Inr ?p, w')" "w_db w' = w_db w" "db_only w w'"
    by (auto simp: TagRepo_List_def)
  with assms show ?thesis by (auto simp: tag_list_ready_def intro: no_faults_db_only)
qed

interpretation tag_pages: keyset "tag_list_ready t d ctx limit" "\<lambda>w. all_tags X t (w_db w)" "tag_key X"
  tag_cursor_of "tag_cursor_key X" limit "TagRepo_List X ctx limit"
  for X t d ctx limit
proof
  fix w c assume g: "tag_list_ready t d ctx limit w"
  then show "0 < limit" by (simp add: tag_list_ready_def)
  show "sorted_wrt (<) (map (tag_key X) (all_tags X t (w_db w)))"
    using g by (intro all_tags_strict) (simp add: tag_list_ready_def)
  show "\<exists>w'. TagRepo_List X ctx limit c w =
      (Inr (page limit tag_cursor_of
         (take (Suc limit) (after (tag_key X) (tag_cursor_key X) c (all_tags X t (w_db w))))), w')
    \<and> tag_list_ready t d ctx limit w' \<and> all_tags X t (w_db w') = all_tags X t (w_db w)"
    using TagRepo_List_page [OF g, of X c] by auto
qed (simp add: tag_cursor_key_def tag_cursor_of_def tag_key_def)

end
