(* ===== verification/Media_Repo.thy ===== *)
theory Media_Repo
  imports Keyset
begin

text \<open>
  \<^verbatim>\<open>postgres/media_repo.go\<close>: the statements of the media repository as functions on
  the tables, the query builder of the listing, and the six operations of
  \<^verbatim>\<open>port.MediaRepository\<close>.
\<close>

section \<open>Statements\<close>

definition media_exists :: "db \<Rightarrow> uuid \<Rightarrow> uuid \<Rightarrow> bool" where
  "media_exists d tenantID i \<longleftrightarrow> (\<exists>r \<in> set (media d). md_id r = i \<and> md_tenant r = tenantID)"

definition sql_insert_media ::
  "session \<Rightarrow> uuid \<Rightarrow> Media \<Rightarrow> uuid \<Rightarrow> time \<Rightarrow> db \<Rightarrow> goerr + (uuid \<times> time) \<times> db" where
  "sql_insert_media s tenantID m u now d =
     (if \<not> rls s tenantID then Inl (PqError insufficientPrivilege)
      else if u \<in> md_id ` set (media d) then Inl (PqError uniqueViolation)
      else if \<not> is_tenant d tenantID then Inl (PqError foreignKeyViolation)
      else Inr ((u, now),
                d\<lparr>media := media d @
                   [\<lparr>md_id = u, md_tenant = tenantID, md_name = media_Name m, md_type = media_Type m,
                     md_path = media_FilePath m, md_orig = media_OriginalName m,
                     md_size = media_FileSize m, md_created = now\<rparr>]\<rparr>))"

text \<open>
  \<^verbatim>\<open>INSERT INTO media_tags SELECT ... WHERE EXISTS\<close>: no row, and no error, when the
  tag is not one the tenant owns.
\<close>

definition sql_insert_link :: "session \<Rightarrow> uuid \<Rightarrow> uuid \<Rightarrow> uuid \<Rightarrow> db \<Rightarrow> goerr + nat \<times> db" where
  "sql_insert_link s tenantID mediaID tagID d =
     (if \<not> (\<exists>r \<in> set (tags d). rls s (tg_tenant r) \<and> tg_id r = tagID \<and> tg_tenant r = tenantID)
      then Inr (0, d)
      else if \<not> rls s tenantID then Inl (PqError insufficientPrivilege)
      else if (mediaID, tagID) \<in> mt_key ` set (media_tags d) then Inl (PqError uniqueViolation)
      else if mediaID \<notin> md_id ` set (media d) then Inl (PqError foreignKeyViolation)
      else Inr (1, d\<lparr>media_tags := media_tags d @
                       [\<lparr>mt_tenant = tenantID, mt_media = mediaID, mt_tag = tagID\<rparr>]\<rparr>))"

text \<open>The join of \<^verbatim>\<open>queryMediaTags\<close>, one tag per link, ordered by name.\<close>

definition sql_media_tags :: "Ext \<Rightarrow> session \<Rightarrow> uuid \<Rightarrow> uuid \<Rightarrow> db \<Rightarrow> Tag list" where
  "sql_media_tags X s tenantID mediaID d =
     map tag_of_row (sort_key (\<lambda>t. x_collate X (tg_name t))
       [t. t \<leftarrow> tags d, rls s (tg_tenant t), mt \<leftarrow> media_tags d, rls s (mt_tenant mt) \<and>
           mt_tag mt = tg_id t \<and> mt_media mt = mediaID \<and> mt_tenant mt = tenantID])"

definition media_hit :: "session \<Rightarrow> uuid \<Rightarrow> uuid \<Rightarrow> media_row \<Rightarrow> bool" where
  "media_hit s tenantID i r \<longleftrightarrow> rls s (md_tenant r) \<and> md_id r = i \<and> md_tenant r = tenantID"

definition sql_get_media :: "session \<Rightarrow> uuid \<Rightarrow> uuid \<Rightarrow> db \<Rightarrow> media_row option" where
  "sql_get_media s tenantID i d = find (media_hit s tenantID i) (media d)"

text \<open>\<^verbatim>\<open>DELETE ... RETURNING file_path\<close>; the links cascade.\<close>

definition sql_delete_media :: "session \<Rightarrow> uuid \<Rightarrow> uuid \<Rightarrow> db \<Rightarrow> goerr + string option \<times> db" where
  "sql_delete_media s tenantID i d =
     (let gone = filter (media_hit s tenantID i) (media d) in
      Inr (case gone of [] \<Rightarrow> None | r # _ \<Rightarrow> Some (md_path r),
           d\<lparr>media := filter (\<lambda>r. \<not> media_hit s tenantID i r) (media d),
             media_tags := filter (\<lambda>l. mt_media l \<notin> md_id ` set gone) (media_tags d)\<rparr>))"

definition sql_media_exists :: "session \<Rightarrow> uuid \<Rightarrow> uuid \<Rightarrow> db \<Rightarrow> bool" where
  "sql_media_exists s tenantID i d \<longleftrightarrow> (\<exists>r \<in> set (media d). media_hit s tenantID i r)"

text \<open>The tags a list of ids selects in a tenant.\<close>

definition sql_tags_any :: "session \<Rightarrow> uuid \<Rightarrow> uuid list \<Rightarrow> db \<Rightarrow> tag_row list" where
  "sql_tags_any s tenantID ids d =
     filter (\<lambda>r. rls s (tg_tenant r) \<and> tg_id r \<in> set ids \<and> tg_tenant r = tenantID) (tags d)"

text \<open>\<^verbatim>\<open>INSERT ... SELECT ... ON CONFLICT DO NOTHING\<close> and its row count.\<close>

definition sql_attach_tags ::
  "session \<Rightarrow> uuid \<Rightarrow> uuid \<Rightarrow> uuid list \<Rightarrow> db \<Rightarrow> goerr + nat \<times> db" where
  "sql_attach_tags s tenantID mediaID ids d =
     (let new = filter (\<lambda>t. (mediaID, tg_id t) \<notin> mt_key ` set (media_tags d))
                  (sql_tags_any s tenantID ids d) in
      if new \<noteq> [] \<and> \<not> rls s tenantID then Inl (PqError insufficientPrivilege)
      else if new \<noteq> [] \<and> mediaID \<notin> md_id ` set (media d) then Inl (PqError foreignKeyViolation)
      else Inr (length new,
                d\<lparr>media_tags := media_tags d @
                   map (\<lambda>t. \<lparr>mt_tenant = tenantID, mt_media = mediaID, mt_tag = tg_id t\<rparr>) new\<rparr>))"

definition sql_detach_tag :: "session \<Rightarrow> uuid \<Rightarrow> uuid \<Rightarrow> uuid \<Rightarrow> db \<Rightarrow> goerr + nat \<times> db" where
  "sql_detach_tag s tenantID mediaID tagID d =
     (let hit = (\<lambda>l. rls s (mt_tenant l) \<and> mt_media l = mediaID \<and> mt_tag l = tagID \<and> mt_tenant l = tenantID) in
      Inr (length (filter hit (media_tags d)),
           d\<lparr>media_tags := filter (\<lambda>l. \<not> hit l) (media_tags d)\<rparr>))"

section \<open>The listing query (listInTx)\<close>

text \<open>
  \<^verbatim>\<open>WHERE m.tenant_id = $1\<close> and the cursor condition
  \<^verbatim>\<open>(m.created_at, m.id) < (cursor.created_at, cursor.id)\<close>.
\<close>

definition list_where :: "session \<Rightarrow> uuid \<Rightarrow> MediaCursor option \<Rightarrow> media_row \<Rightarrow> bool" where
  "list_where s tenantID cursor m \<longleftrightarrow>
     rls s (md_tenant m) \<and> md_tenant m = tenantID \<and>
     (case cursor of None \<Rightarrow> True | Some c \<Rightarrow> (md_created m, md_id m) < (mc_CreatedAt c, mc_ID c))"

text \<open>
  \<^verbatim>\<open>GROUP BY m.id HAVING COUNT(DISTINCT v) = n\<close> over the joined pairs of a media row
  and a value; \<^verbatim>\<open>m.id\<close> is the primary key, so a group is a row.
\<close>

definition group_having :: "nat \<Rightarrow> (media_row \<times> 'v) list \<Rightarrow> media_row list" where
  "group_having n pairs =
     filter (\<lambda>m. length (remdups (map snd (filter (\<lambda>p. md_id (fst p) = md_id m) pairs))) = n)
       (remdups (map fst pairs))"

definition list_candidates ::
  "session \<Rightarrow> uuid \<Rightarrow> MediaCursor option \<Rightarrow> MediaFilter \<Rightarrow> db \<Rightarrow> media_row list" where
  "list_candidates s tenantID cursor f d =
     (if 0 < length (mf_TagIDs f) then
        group_having (length (mf_TagIDs f))
          [(m, mt_tag mt). m \<leftarrow> media d, list_where s tenantID cursor m,
             mt \<leftarrow> media_tags d, rls s (mt_tenant mt) \<and> mt_media mt = md_id m \<and> mt_tag mt \<in> set (mf_TagIDs f)]
      else if 0 < length (mf_TagNames f) then
        group_having (length (mf_TagNames f))
          [(m, tg_id t). m \<leftarrow> media d, list_where s tenantID cursor m,
             mt \<leftarrow> media_tags d, rls s (mt_tenant mt) \<and> mt_media mt = md_id m,
             t \<leftarrow> tags d, rls s (tg_tenant t) \<and> tg_id t = mt_tag mt \<and> tg_name t \<in> set (mf_TagNames f)]
      else filter (list_where s tenantID cursor) (media d))"

text \<open>\<^verbatim>\<open>ORDER BY created_at DESC, id DESC\<close>: ascending in the negated pair.\<close>

definition desc_key :: "time \<Rightarrow> uuid \<Rightarrow> int \<times> int" where
  "desc_key created i = (- created, - uint i)"

definition media_row_key :: "media_row \<Rightarrow> int \<times> int" where
  "media_row_key m = desc_key (md_created m) (md_id m)"

definition sql_list_media ::
  "session \<Rightarrow> uuid \<Rightarrow> MediaCursor option \<Rightarrow> MediaFilter \<Rightarrow> nat \<Rightarrow> db \<Rightarrow> media_row list" where
  "sql_list_media s tenantID cursor f n d =
     take n (sort_key media_row_key (list_candidates s tenantID cursor f d))"

text \<open>The batch query of the tags of a page.\<close>

definition sql_batch_tags :: "Ext \<Rightarrow> session \<Rightarrow> uuid \<Rightarrow> uuid list \<Rightarrow> db \<Rightarrow> (uuid \<times> Tag) list" where
  "sql_batch_tags X s tenantID ids d =
     map (\<lambda>(t, mt). (mt_media mt, tag_of_row t)) (sort_key (\<lambda>(t, mt). x_collate X (tg_name t))
       [(t, mt). t \<leftarrow> tags d, rls s (tg_tenant t), mt \<leftarrow> media_tags d, rls s (mt_tenant mt) \<and>
           mt_tag mt = tg_id t \<and> mt_media mt \<in> set ids \<and> mt_tenant mt = tenantID])"

section \<open>Operations\<close>

text \<open>The loop of \<^verbatim>\<open>Create\<close> over the tag ids.\<close>

fun associate_tags :: "Ext \<Rightarrow> session \<Rightarrow> uuid \<Rightarrow> uuid \<Rightarrow> uuid list \<Rightarrow> (World, goerr, unit) op" where
  "associate_tags X s tenantID mediaID [] = ret ()"
| "associate_tags X s tenantID mediaID (tagID # rest) =
     and_then
       (map_err (\<lambda>e. Errorf (''associate tag '' @ x_uuid_string X tagID @ '': '') e '''')
         (db_exec (\<lambda>_. sql_insert_link s tenantID mediaID tagID)))
       (\<lambda>_. associate_tags X s tenantID mediaID rest)"

definition MediaCreate_tx ::
  "Ext \<Rightarrow> Media \<Rightarrow> uuid list \<Rightarrow> session \<Rightarrow> uuid \<Rightarrow> (World, goerr, Media) op" where
  "MediaCreate_tx X m tagIDs s tenantID =
     and_then (map_err (\<lambda>e. Errorf ''insert media: '' e '''') (db_insert (sql_insert_media s tenantID m)))
       (\<lambda>(i, created).
          and_then (associate_tags X s tenantID i tagIDs)
            (\<lambda>_. and_then (map_err (\<lambda>e. Errorf ''query media tags: '' e '''')
                     (db_query (sql_media_tags X s tenantID i)))
               (\<lambda>ts. ret (m\<lparr>media_ID := i, media_CreatedAt := created, media_Tags := ts\<rparr>))))"

definition MediaRepo_Create :: "Ext \<Rightarrow> Ctx \<Rightarrow> Media \<Rightarrow> uuid list \<Rightarrow> (World, goerr, Media) op" where
  "MediaRepo_Create X ctx m tagIDs = withTenantTx ctx (MediaCreate_tx X m tagIDs)"

definition GetByID_tx :: "Ext \<Rightarrow> uuid \<Rightarrow> session \<Rightarrow> uuid \<Rightarrow> (World, goerr, Media) op" where
  "GetByID_tx X i s tenantID =
     handle (QueryRow (db_query (sql_get_media s tenantID i)))
       (\<lambda>r. and_then (map_err (\<lambda>e. Errorf ''query media tags: '' e '''')
               (db_query (sql_media_tags X s tenantID (md_id r))))
             (\<lambda>ts. ret (media_of_row r ts)))
       (\<lambda>err. if err = SqlErrNoRows then fail ErrNotFound else fail (Errorf ''get media: '' err ''''))"

definition MediaRepo_GetByID :: "Ext \<Rightarrow> Ctx \<Rightarrow> uuid \<Rightarrow> (World, goerr, Media) op" where
  "MediaRepo_GetByID X ctx i = withTenantTx ctx (GetByID_tx X i)"

definition media_cursor_of :: "media_row \<Rightarrow> MediaCursor" where
  "media_cursor_of m = \<lparr>mc_CreatedAt = md_created m, mc_ID = md_id m\<rparr>"

definition listInTx :: "Ext \<Rightarrow> nat \<Rightarrow> MediaCursor option \<Rightarrow> MediaFilter \<Rightarrow> session \<Rightarrow> uuid \<Rightarrow>
    (World, goerr, Media list \<times> MediaCursor option) op" where
  "listInTx X limit cursor f s tenantID =
     and_then (map_err (\<lambda>e. Errorf ''list media: '' e '''')
                (db_query (sql_list_media s tenantID cursor f (limit + 1))))
       (\<lambda>rows. case page limit media_cursor_of rows of (mediaList, next) \<Rightarrow>
          if 0 < length mediaList then
            and_then (map_err (\<lambda>e. Errorf ''batch query tags: '' e '''')
                       (db_query (sql_batch_tags X s tenantID (map md_id mediaList))))
              (\<lambda>tagRows. ret
                 (map (\<lambda>m. media_of_row m (map snd (filter (\<lambda>p. fst p = md_id m) tagRows))) mediaList, next))
          else ret ([], next))"

definition MediaRepo_List :: "Ext \<Rightarrow> Ctx \<Rightarrow> nat \<Rightarrow> MediaCursor option \<Rightarrow> MediaFilter \<Rightarrow>
    (World, goerr, Media list \<times> MediaCursor option) op" where
  "MediaRepo_List X ctx limit cursor f = withTenantTx ctx (listInTx X limit cursor f)"

definition MediaDelete_tx :: "uuid \<Rightarrow> session \<Rightarrow> uuid \<Rightarrow> (World, goerr, string) op" where
  "MediaDelete_tx i s tenantID =
     handle (QueryRow (db_exec (\<lambda>_. sql_delete_media s tenantID i)))
       ret
       (\<lambda>err. if err = SqlErrNoRows then fail ErrNotFound else fail (Errorf ''delete media: '' err ''''))"

definition MediaRepo_Delete :: "Ctx \<Rightarrow> uuid \<Rightarrow> (World, goerr, string) op" where
  "MediaRepo_Delete ctx i = withTenantTx ctx (MediaDelete_tx i)"

definition AttachTags_tx :: "uuid \<Rightarrow> uuid list \<Rightarrow> session \<Rightarrow> uuid \<Rightarrow> (World, goerr, unit) op" where
  "AttachTags_tx mediaID tagIDs s tenantID =
     and_then (map_err (\<lambda>e. Errorf ''check media exists: '' e '''')
                (db_query (sql_media_exists s tenantID mediaID)))
       (\<lambda>ex. if \<not> ex then fail ErrNotFound
         else if length tagIDs = 0 then ret ()
         else and_then (map_err (\<lambda>e. Errorf ''attach tags: '' e '''')
                         (db_exec (\<lambda>_. sql_attach_tags s tenantID mediaID tagIDs)))
           (\<lambda>rows. if rows < length tagIDs then
               and_then (map_err (\<lambda>e. Errorf ''attach tags validation: '' e '''')
                          (db_query (\<lambda>d. length (sql_tags_any s tenantID tagIDs d))))
                 (\<lambda>validCount. if validCount < length tagIDs
                    then fail (Errorf '''' ErrValidation '': one or more tag IDs do not exist'')
                    else ret ())
             else ret ()))"

definition MediaRepo_AttachTags :: "Ctx \<Rightarrow> uuid \<Rightarrow> uuid list \<Rightarrow> (World, goerr, unit) op" where
  "MediaRepo_AttachTags ctx mediaID tagIDs = withTenantTx ctx (AttachTags_tx mediaID tagIDs)"

definition DetachTag_tx :: "uuid \<Rightarrow> uuid \<Rightarrow> session \<Rightarrow> uuid \<Rightarrow> (World, goerr, unit) op" where
  "DetachTag_tx mediaID tagID s tenantID =
     and_then (map_err (\<lambda>e. Errorf ''check media exists: '' e '''')
                (db_query (sql_media_exists s tenantID mediaID)))
       (\<lambda>ex. if \<not> ex then fail ErrNotFound
         else and_then (map_err (\<lambda>e. Errorf ''detach tag: '' e '''')
                         (db_exec (\<lambda>_. sql_detach_tag s tenantID mediaID tagID)))
           (\<lambda>_. ret ()))"

definition MediaRepo_DetachTag :: "Ctx \<Rightarrow> uuid \<Rightarrow> uuid \<Rightarrow> (World, goerr, unit) op" where
  "MediaRepo_DetachTag ctx mediaID tagID = withTenantTx ctx (DetachTag_tx mediaID tagID)"

section \<open>Frames and atomicity\<close>

lemmas MediaRepo_defs = MediaRepo_Create_def MediaRepo_GetByID_def MediaRepo_List_def
  MediaRepo_Delete_def MediaRepo_AttachTags_def MediaRepo_DetachTag_def

lemmas MediaRepo_tx_defs = MediaCreate_tx_def GetByID_tx_def listInTx_def MediaDelete_tx_def
  AttachTags_tx_def DetachTag_tx_def

lemma db_op_associate [frame]: "db_op (associate_tags X s t i ids)"
  by (induction ids) (auto intro!: frame)

lemma db_op_MediaRepo_tx [frame]:
  "db_op (MediaCreate_tx X m ids s t)" "db_op (GetByID_tx X i s t)"
  "db_op (listInTx X limit cursor f s t)" "db_op (MediaDelete_tx i s t)"
  "db_op (AttachTags_tx i ids s t)" "db_op (DetachTag_tx i j s t)"
  unfolding MediaRepo_tx_defs by (intro frame)+

lemma db_op_MediaRepo [frame]:
  "db_op (MediaRepo_Create X ctx m ids)" "db_op (MediaRepo_GetByID X ctx i)"
  "db_op (MediaRepo_List X ctx limit cursor f)" "db_op (MediaRepo_Delete ctx i)"
  "db_op (MediaRepo_AttachTags ctx i ids)" "db_op (MediaRepo_DetachTag ctx i j)"
  unfolding MediaRepo_defs by (intro frame)+

lemma tx_atomic_MediaRepo:
  "tx_atomic (MediaRepo_Create X ctx m ids)" "tx_atomic (MediaRepo_GetByID X ctx i)"
  "tx_atomic (MediaRepo_List X ctx limit cursor f)" "tx_atomic (MediaRepo_Delete ctx i)"
  "tx_atomic (MediaRepo_AttachTags ctx i ids)" "tx_atomic (MediaRepo_DetachTag ctx i j)"
  unfolding MediaRepo_defs by (intro tx_atomic_withTenantTx frame)+

section \<open>The statements keep the invariants and the other tenants' rows\<close>

text \<open>\<open>step_ok t d d'\<close>: a statement of tenant \<open>t\<close> led from \<open>d\<close> to \<open>d'\<close> as it should.\<close>

definition step_ok :: "uuid \<Rightarrow> db \<Rightarrow> db \<Rightarrow> bool" where
  "step_ok t d d' \<longleftrightarrow> db_inv d' \<and> others_kept t d d'"

lemma step_ok_refl: "db_inv d \<Longrightarrow> step_ok t d d"
  by (simp add: step_ok_def)

lemma insert_media_Inr:
  assumes "sql_insert_media s t m u now d = Inr (x, d')"
  defines "r \<equiv> \<lparr>md_id = u, md_tenant = t, md_name = media_Name m, md_type = media_Type m,
     md_path = media_FilePath m, md_orig = media_OriginalName m, md_size = media_FileSize m, md_created = now\<rparr>"
  shows "x = (u, now)" "d' = d\<lparr>media := media d @ [r]\<rparr>" "u \<notin> md_id ` set (media d)" "is_tenant d t" "rls s t"
  using assms(1) unfolding sql_insert_media_def r_def by (simp_all split: if_splits)

lemma insert_media_ok:
  assumes inv: "db_inv d" and ins: "sql_insert_media s t m u now d = Inr ((i, created), d')"
  shows "step_ok t d d' \<and> media_exists d' t i"
proof -
  note I = insert_media_Inr [OF ins]
  have "media_ok d'" using inv I(3,4) by (simp add: I(2) media_ok_def db_inv_def)
  moreover have "links_ok d'" using inv by (auto simp: I(2) links_ok_def db_inv_def)
  moreover have "auth_ok d'" "tags_ok d'" "idem_ok d'" "jobs_ok d'"
    using inv unfolding I(2) db_inv_def by (simp_all add: ok_defs)
  moreover have "others_kept t d d'" by (simp add: I(2) others_kept_def tenant_view_def)
  moreover have "media_exists d' t i" using I(1) by (simp add: I(2) media_exists_def)
  ultimately show ?thesis by (simp add: step_ok_def db_inv_def)
qed

text \<open>Adding links of tenant \<open>t\<close> between its media \<open>i\<close> and its tags.\<close>

lemma add_links_ok:
  assumes inv: "db_inv d" and m: "media_exists d t i"
    and new: "set ts \<subseteq> set (tags d)" "\<And>r. r \<in> set ts \<Longrightarrow> tg_tenant r = t \<and> (i, tg_id r) \<notin> mt_key ` set (media_tags d)"
      "distinct (map tg_id ts)"
  defines "d' \<equiv> d\<lparr>media_tags := media_tags d @ map (\<lambda>r. \<lparr>mt_tenant = t, mt_media = i, mt_tag = tg_id r\<rparr>) ts\<rparr>"
  shows "step_ok t d d' \<and> media_exists d' t i"
proof -
  let ?l = "\<lambda>r. \<lparr>mt_tenant = t, mt_media = i, mt_tag = tg_id r\<rparr>"
  have "map mt_key (map ?l ts) = map (\<lambda>x. (i, x)) (map tg_id ts)" by (simp add: mt_key_def)
  then have "distinct (map mt_key (map ?l ts))"
    using new(3) by (simp only: distinct_map [of "\<lambda>x. (i, x)"]) (simp add: inj_on_def)
  moreover have "mt_key ` set (media_tags d) \<inter> mt_key ` set (map ?l ts) = {}"
    using new(2) by (fastforce simp: mt_key_def)
  ultimately have "distinct (map mt_key (media_tags d'))"
    using inv by (simp add: d'_def db_inv_D(4) del: map_map)
  moreover have "link_ok d l" if "l \<in> set (media_tags d')" for l
    using that inv m new(1,2) unfolding d'_def
    by (auto simp: db_inv_D(7)) (auto simp: link_ok_def media_exists_def)
  then have "\<forall>l \<in> set (media_tags d'). link_ok d' l" by (simp add: d'_def)
  ultimately have "links_ok d'" by (simp add: links_ok_def)
  moreover have "auth_ok d'" "tags_ok d'" "media_ok d'" "idem_ok d'" "jobs_ok d'"
    using inv unfolding d'_def db_inv_def by (simp_all add: ok_defs)
  moreover have "others_kept t d d'" by (simp add: d'_def others_kept_def tenant_view_def)
  moreover have "media_exists d' t i" using m by (simp add: d'_def media_exists_def)
  ultimately show ?thesis by (simp add: step_ok_def db_inv_def)
qed

lemma insert_link_ok:
  assumes inv: "db_inv d" and m: "media_exists d t i" and ins: "sql_insert_link s t i j d = Inr (n, d')"
  shows "step_ok t d d' \<and> media_exists d' t i"
proof (cases "d' = d")
  case False
  with ins obtain r where r: "r \<in> set (tags d)" "tg_id r = j" "tg_tenant r = t"
    "(i, j) \<notin> mt_key ` set (media_tags d)"
    and d': "d' = d\<lparr>media_tags := media_tags d @ [\<lparr>mt_tenant = t, mt_media = i, mt_tag = j\<rparr>]\<rparr>"
    by (auto simp: sql_insert_link_def split: if_splits)
  then show ?thesis using add_links_ok [OF inv m, of "[r]"] by simp
qed (use inv m in \<open>simp add: step_ok_refl\<close>)

lemma attach_tags_ok:
  assumes inv: "db_inv d" and m: "media_exists d t i" and ins: "sql_attach_tags s t i ids d = Inr (n, d')"
  shows "step_ok t d d' \<and> media_exists d' t i"
proof -
  define new where "new = filter (\<lambda>r. (i, tg_id r) \<notin> mt_key ` set (media_tags d)) (sql_tags_any s t ids d)"
  have d': "d' = d\<lparr>media_tags := media_tags d @ map (\<lambda>r. \<lparr>mt_tenant = t, mt_media = i, mt_tag = tg_id r\<rparr>) new\<rparr>"
    using ins by (simp add: sql_attach_tags_def Let_def new_def split: if_splits)
  show ?thesis unfolding d'
    by (rule add_links_ok [OF inv m])
      (auto simp: new_def sql_tags_any_def distinct_map_filter db_inv_D(1) [OF inv])
qed

lemma detach_tag_ok:
  assumes inv: "db_inv d" and "sql_detach_tag s t i j d = Inr (n, d')"
  shows "step_ok t d d'"
proof -
  define hit :: "media_tag_row \<Rightarrow> bool" where "hit = (\<lambda>l. rls s (mt_tenant l) \<and> mt_media l = i \<and> mt_tag l = j \<and> mt_tenant l = t)"
  have d': "d' = d\<lparr>media_tags := filter (\<lambda>l. \<not> hit l) (media_tags d)\<rparr>"
    using assms(2) by (simp add: sql_detach_tag_def Let_def hit_def)
  have "filter (\<lambda>l. mt_tenant l = u) (filter (\<lambda>l. \<not> hit l) ls) = filter (\<lambda>l. mt_tenant l = u) ls"
    if "u \<noteq> t" for u ls using that by (auto simp: hit_def filter_filter intro!: filter_cong)
  then have "others_kept t d d'" by (simp add: d' others_kept_def tenant_view_def)
  with inv show ?thesis
    by (auto simp: step_ok_def d' db_inv_def ok_defs distinct_map_filter)
qed

lemma delete_media_ok:
  assumes inv: "db_inv d" and "sql_delete_media s t i d = Inr (x, d')"
  shows "step_ok t d d'"
proof -
  define hit where "hit = media_hit s t i"
  have d': "d' = d\<lparr>media := filter (\<lambda>r. \<not> hit r) (media d),
      media_tags := filter (\<lambda>l. mt_media l \<notin> md_id ` set (filter hit (media d))) (media_tags d)\<rparr>"
    using assms(2) by (simp add: sql_delete_media_def Let_def hit_def)
  have owner: "\<exists>r \<in> set (media d). md_id r = mt_media l \<and> md_tenant r = mt_tenant l"
    if "l \<in> set (media_tags d)" for l
    using inv that db_inv_D(7) link_ok_def by blast
  have "link_ok d' l" if "l \<in> set (media_tags d')" for l
  proof -
    from that inv have "link_ok d l" by (simp add: d' db_inv_D(7))
    from that obtain r where r: "r \<in> set (media d)" "md_id r = mt_media l" "md_tenant r = mt_tenant l"
      using owner by (auto simp: d')
    have "mt_media l \<notin> md_id ` set (filter hit (media d))" using that by (simp add: d')
    with r have "\<not> hit r" by (fastforce simp: image_iff)
    with r \<open>link_ok d l\<close> show ?thesis by (auto simp: link_ok_def d')
  qed
  with inv have "db_inv d'" by (auto simp: d' db_inv_def ok_defs distinct_map_filter)
  moreover have "mt_media l \<notin> md_id ` set (filter hit (media d))"
    if l: "l \<in> set (media_tags d)" "mt_tenant l \<noteq> t" for l
  proof
    assume "mt_media l \<in> md_id ` set (filter hit (media d))"
    then obtain r where r: "r \<in> set (media d)" "hit r" "md_id r = mt_media l" by auto
    from owner [OF l(1)] r inv have "md_tenant r = mt_tenant l"
      by (metis db_inv_D(3) distinct_map_unique)
    with r l show False by (simp add: hit_def media_hit_def)
  qed
  moreover have "\<not> hit r" if "md_tenant r \<noteq> t" for r using that by (simp add: hit_def media_hit_def)
  ultimately show ?thesis
    by (auto simp: step_ok_def others_kept_def tenant_view_def d' intro!: filter_cong)
qed

section \<open>Invariants of the operations\<close>

text \<open>What a closure of tenant \<open>t\<close> that starts from the tables \<open>d0\<close> keeps.\<close>

definition tenant_safe :: "uuid \<Rightarrow> db \<Rightarrow> db \<Rightarrow> bool" where
  "tenant_safe t d0 d \<longleftrightarrow> db_inv d \<and> others_kept t d0 d"

lemma tenant_safe_step: "tenant_safe t d0 d \<Longrightarrow> step_ok t d d' \<Longrightarrow> tenant_safe t d0 d'"
  by (auto simp: tenant_safe_def step_ok_def intro: others_kept_trans)

lemma safe_associate:
  "db_keeps (\<lambda>d. tenant_safe t d0 d \<and> media_exists d t i) (associate_tags X s t i ids)"
proof (induction ids)
  case (Cons j ids)
  have "tenant_safe t d0 d' \<and> media_exists d' t i"
    if "tenant_safe t d0 d \<and> media_exists d t i" "sql_insert_link s t i j d = Inr (n, d')" for d n d'
    using that insert_link_ok [of d t i s j n d'] by (auto simp: tenant_safe_def intro: tenant_safe_step)
      (auto simp: step_ok_def intro: others_kept_trans)
  then show ?case
    unfolding associate_tags.simps by (intro preserves Cons.IH) blast
qed (simp add: preserves)

lemma safe_MediaCreate_tx: "db_keeps (tenant_safe t d0) (MediaCreate_tx X m ids s t)"
  unfolding MediaCreate_tx_def
proof (rule keeps_and_then_post
    [where K = "\<lambda>x w. tenant_safe t d0 (w_db w) \<and> media_exists (w_db w) t (fst x)"])
  fix w e w'
  assume "tenant_safe t d0 (w_db w)"
    "map_err (\<lambda>e. Errorf ''insert media: '' e []) (db_insert (sql_insert_media s t m)) w = (Inl e, w')"
  then show "tenant_safe t d0 (w_db w')" by (auto simp: map_err_Inl dest: db_insert_Inl_db)
next
  fix w x w'
  assume a: "tenant_safe t d0 (w_db w)"
    "map_err (\<lambda>e. Errorf ''insert media: '' e []) (db_insert (sql_insert_media s t m)) w = (Inr x, w')"
  then obtain u "now" where "sql_insert_media s t m u now (w_db w) = Inr ((fst x, snd x), w_db w')"
    by (auto simp: db_insert_Inr)
  with insert_media_ok a(1) show "tenant_safe t d0 (w_db w') \<and> media_exists (w_db w') t (fst x)"
    by (metis tenant_safe_def tenant_safe_step)
next
  fix x :: "uuid \<times> time"
  show "db_keeps (\<lambda>d. tenant_safe t d0 d \<and> media_exists d t (fst x))
     (case x of (i, created) \<Rightarrow>
          and_then (associate_tags X s t i ids)
            (\<lambda>_. and_then (map_err (\<lambda>e. Errorf ''query media tags: '' e [])
                     (db_query (sql_media_tags X s t i)))
               (\<lambda>ts. ret (m\<lparr>media_ID := i, media_CreatedAt := created, media_Tags := ts\<rparr>))))"
    by (cases x) (auto intro!: preserves safe_associate)
qed auto

lemma safe_MediaDelete_tx: "db_keeps (tenant_safe t d0) (MediaDelete_tx i s t)"
  unfolding MediaDelete_tx_def
  by (intro preserves) (metis delete_media_ok tenant_safe_def tenant_safe_step)

lemma media_hit_exists: "sql_media_exists s t i d \<Longrightarrow> media_exists d t i"
  by (auto simp: sql_media_exists_def media_hit_def media_exists_def)

lemma safe_DetachTag_tx: "db_keeps (tenant_safe t d0) (DetachTag_tx i j s t)"
  unfolding DetachTag_tx_def
  by (intro preserves) (metis detach_tag_ok tenant_safe_def tenant_safe_step)

lemma safe_AttachTags_tx: "db_keeps (tenant_safe t d0) (AttachTags_tx i ids s t)"
  unfolding AttachTags_tx_def
proof (rule keeps_and_then_post
    [where K = "\<lambda>ex w. tenant_safe t d0 (w_db w) \<and> (ex \<longrightarrow> media_exists (w_db w) t i)"])
  fix w e w'
  assume "tenant_safe t d0 (w_db w)"
    "map_err (\<lambda>e. Errorf ''check media exists: '' e []) (db_query (sql_media_exists s t i)) w = (Inl e, w')"
  then show "tenant_safe t d0 (w_db w')" by (auto simp: map_err_Inl dest: db_query_db)
next
  fix w ex w'
  assume "tenant_safe t d0 (w_db w)"
    "map_err (\<lambda>e. Errorf ''check media exists: '' e []) (db_query (sql_media_exists s t i)) w = (Inr ex, w')"
  then show "tenant_safe t d0 (w_db w') \<and> (ex \<longrightarrow> media_exists (w_db w') t i)"
    by (auto simp: db_query_Inr media_hit_exists)
next
  fix ex
  have step: "tenant_safe t d0 d' \<and> (ex \<longrightarrow> media_exists d' t i)"
    if "tenant_safe t d0 d \<and> (ex \<longrightarrow> media_exists d t i)" "\<not> \<not> ex"
      "sql_attach_tags s t i ids d = Inr (n, d')" for d n d'
  proof -
    have "step_ok t d d' \<and> media_exists d' t i"
      by (rule attach_tags_ok [OF _ _ that(3)]) (use that(1,2) in \<open>simp_all add: tenant_safe_def\<close>)
    then show ?thesis using that(1) tenant_safe_step by blast
  qed
  show "db_keeps (\<lambda>d. tenant_safe t d0 d \<and> (ex \<longrightarrow> media_exists d t i))
     (if \<not> ex then fail ErrNotFound
         else if length ids = 0 then ret ()
         else and_then (map_err (\<lambda>e. Errorf ''attach tags: '' e [])
                         (db_exec (\<lambda>_. sql_attach_tags s t i ids)))
           (\<lambda>rows. if rows < length ids then
               and_then (map_err (\<lambda>e. Errorf ''attach tags validation: '' e [])
                          (db_query (\<lambda>d. length (sql_tags_any s t ids d))))
                 (\<lambda>validCount. if validCount < length ids
                    then fail (Errorf [] ErrValidation '': one or more tag IDs do not exist'')
                    else ret ())
             else ret ()))"
    by (intro preserves; erule (2) step)
qed auto

lemma safe_MediaRead_tx:
  "db_keeps (tenant_safe t d0) (GetByID_tx X i s t)"
  "db_keeps (tenant_safe t d0) (listInTx X limit cursor f s t)"
  unfolding GetByID_tx_def listInTx_def by (intro preserves)+

lemma safe_MediaRepo:
  assumes "TenantIDFromContext ctx = Inr t"
  shows "db_keeps (tenant_safe t d0) (MediaRepo_Create X ctx m ids)"
    "db_keeps (tenant_safe t d0) (MediaRepo_GetByID X ctx i)"
    "db_keeps (tenant_safe t d0) (MediaRepo_List X ctx limit cursor f)"
    "db_keeps (tenant_safe t d0) (MediaRepo_Delete ctx i)"
    "db_keeps (tenant_safe t d0) (MediaRepo_AttachTags ctx i ids)"
    "db_keeps (tenant_safe t d0) (MediaRepo_DetachTag ctx i j)"
  unfolding MediaRepo_defs
  by (rule db_keeps_withTenantTx; (intro frame)?; use assms in
    \<open>simp add: safe_MediaCreate_tx safe_MediaRead_tx safe_MediaDelete_tx safe_AttachTags_tx safe_DetachTag_tx\<close>)+

end
