(* ===== verification/Media_Read.thy ===== *)
theory Media_Read
  imports Media_Repo
begin

text \<open>
  What the reading operations of the media repository return: the batch query of the tags of a
  page equals the query for each item, the grouped joins of the tag filters select exactly the
  media that carry all the tags, and following the cursors lists every match once.
\<close>

section \<open>Joins\<close>

lemma semijoin:
  assumes "\<And>r. length (filter (Q r) ls) \<le> 1"
  shows "[r. r \<leftarrow> rs, P r, l \<leftarrow> ls, Q r l] = filter (\<lambda>r. P r \<and> (\<exists>l \<in> set ls. Q r l)) rs"
proof -
  have one: "concat (map (\<lambda>l. if Q r l then [r] else []) ls) = (if \<exists>l \<in> set ls. Q r l then [r] else [])" for r
  proof -
    have "concat (map (\<lambda>l. if Q r l then [r] else []) ls) = map (\<lambda>_. r) (filter (Q r) ls)"
      by (induction ls) auto
    moreover have "(\<exists>l \<in> set ls. Q r l) \<longleftrightarrow> filter (Q r) ls \<noteq> []" by (simp add: filter_empty_conv)
    ultimately show ?thesis using assms [of r] by (cases "filter (Q r) ls") auto
  qed
  show ?thesis by (induction rs) (auto simp: one)
qed

lemma map_insort_key: "map f (insort_key (\<lambda>x. g (f x)) x xs) = insort_key g (f x) (map f xs)"
  by (induction xs) auto

lemma map_sort_key: "map f (sort_key (\<lambda>x. g (f x)) xs) = sort_key g (map f xs)"
  by (induction xs) (auto simp: map_insort_key)

section \<open>The tags of a media item\<close>

definition linked :: "db \<Rightarrow> uuid \<Rightarrow> uuid \<Rightarrow> bool" where
  "linked d i j \<longleftrightarrow> (i, j) \<in> mt_key ` set (media_tags d)"

definition tags_of :: "Ext \<Rightarrow> uuid \<Rightarrow> db \<Rightarrow> uuid \<Rightarrow> Tag list" where
  "tags_of X t d i =
     map tag_of_row (sort_key (\<lambda>r. x_collate X (tg_name r))
       (filter (\<lambda>r. tg_tenant r = t \<and> linked d i (tg_id r)) (tags d)))"

lemma link_tenants:
  assumes "db_inv d" "l \<in> set (media_tags d)"
  shows "m \<in> set (media d) \<Longrightarrow> md_id m = mt_media l \<Longrightarrow> md_tenant m = mt_tenant l"
    and "r \<in> set (tags d) \<Longrightarrow> tg_id r = mt_tag l \<Longrightarrow> tg_tenant r = mt_tenant l"
  using db_inv_D(7) [OF assms] assms(1) unfolding link_ok_def
  by (metis db_inv_D(3) distinct_map_unique) (metis db_inv_D(1) distinct_map_unique assms(1)
      db_inv_D(7) [OF assms, unfolded link_ok_def])

lemma sql_media_tags_eq:
  assumes inv: "db_inv d" and rls: "rls s t"
  shows "sql_media_tags X s t i d = tags_of X t d i"
proof -
  let ?Q = "\<lambda>r l. rls s (mt_tenant l) \<and> mt_tag l = tg_id r \<and> mt_media l = i \<and> mt_tenant l = t"
  have one: "length (filter (?Q r) (media_tags d)) \<le> 1" for r
    using filter_unique_key [OF db_inv_D(4) [OF inv], of "(i, tg_id r)" "\<lambda>l. rls s (mt_tenant l) \<and> mt_tenant l = t"]
    by (simp add: mt_key_def conj_ac)
  note join = semijoin [where P = "\<lambda>r. rls s (tg_tenant r)" and rs = "tags d" and Q = ?Q, OF one]
  have "filter (\<lambda>r. rls s (tg_tenant r) \<and> (\<exists>l \<in> set (media_tags d).
        rls s (mt_tenant l) \<and> mt_tag l = tg_id r \<and> mt_media l = i \<and> mt_tenant l = t)) (tags d)
      = filter (\<lambda>r. tg_tenant r = t \<and> linked d i (tg_id r)) (tags d)"
  proof (rule filter_cong [OF refl])
    fix r assume r: "r \<in> set (tags d)"
    show "rls s (tg_tenant r) \<and> (\<exists>l \<in> set (media_tags d).
        rls s (mt_tenant l) \<and> mt_tag l = tg_id r \<and> mt_media l = i \<and> mt_tenant l = t)
      \<longleftrightarrow> tg_tenant r = t \<and> linked d i (tg_id r)"
      using rls link_tenants(2) [OF inv _ r]
      by (auto simp: linked_def mt_key_def)
  qed
  with join show ?thesis by (simp add: sql_media_tags_def tags_of_def)
qed

text \<open>The batch query of a page gives each item the tags its own query would.\<close>

lemma batch_tags_item:
  assumes "i \<in> set ids"
  shows "map snd (filter (\<lambda>p. fst p = i) (sql_batch_tags X s t ids d)) = sql_media_tags X s t i d"
proof -
  define pairs where "pairs = [(r, mt). r \<leftarrow> tags d, rls s (tg_tenant r), mt \<leftarrow> media_tags d,
     rls s (mt_tenant mt) \<and> mt_tag mt = tg_id r \<and> mt_media mt \<in> set ids \<and> mt_tenant mt = t]"
  have row: "map fst (filter (\<lambda>p. mt_media (snd p) = i)
        (concat (map (\<lambda>mt. if rls s (mt_tenant mt) \<and> mt_tag mt = tg_id r \<and> mt_media mt \<in> set ids
           \<and> mt_tenant mt = t then [(r, mt)] else []) ls)))
      = concat (map (\<lambda>mt. if rls s (mt_tenant mt) \<and> mt_tag mt = tg_id r \<and> mt_media mt = i
           \<and> mt_tenant mt = t then [r] else []) ls)" for r ls
    using assms by (induction ls) auto
  have inner: "map fst (filter (\<lambda>p. mt_media (snd p) = i) pairs)
      = [r. r \<leftarrow> tags d, rls s (tg_tenant r), mt \<leftarrow> media_tags d,
           rls s (mt_tenant mt) \<and> mt_tag mt = tg_id r \<and> mt_media mt = i \<and> mt_tenant mt = t]"
  proof -
    have "map fst (filter (\<lambda>p. mt_media (snd p) = i)
        [(r, mt). r \<leftarrow> rs, rls s (tg_tenant r), mt \<leftarrow> ls,
           rls s (mt_tenant mt) \<and> mt_tag mt = tg_id r \<and> mt_media mt \<in> set ids \<and> mt_tenant mt = t])
      = [r. r \<leftarrow> rs, rls s (tg_tenant r), mt \<leftarrow> ls,
           rls s (mt_tenant mt) \<and> mt_tag mt = tg_id r \<and> mt_media mt = i \<and> mt_tenant mt = t]" for rs ls
      by (induction rs) (simp_all add: row)
    then show ?thesis by (simp add: pairs_def)
  qed
  have "map snd (filter (\<lambda>p. fst p = i) (sql_batch_tags X s t ids d))
      = map tag_of_row (map fst (sort_key (\<lambda>p. x_collate X (tg_name (fst p)))
          (filter (\<lambda>p. mt_media (snd p) = i) pairs)))"
    by (simp add: sql_batch_tags_def pairs_def filter_map o_def case_prod_unfold filter_sort)
  then show ?thesis
    by (simp add: map_sort_key [where g = "\<lambda>r. x_collate X (tg_name r)"] inner sql_media_tags_def del: map_map)
qed

section \<open>The tag filters\<close>

text \<open>The reference meaning of a filter: the media carries all the tags, by id or by name.\<close>

definition media_matches :: "uuid \<Rightarrow> db \<Rightarrow> MediaFilter \<Rightarrow> media_row \<Rightarrow> bool" where
  "media_matches t d f m \<longleftrightarrow>
     (if mf_TagIDs f \<noteq> [] then \<forall>i \<in> set (mf_TagIDs f). linked d (md_id m) i
      else \<forall>n \<in> set (mf_TagNames f). \<exists>r \<in> set (tags d).
             tg_tenant r = t \<and> tg_name r = n \<and> linked d (md_id m) (tg_id r))"

definition filter_distinct :: "MediaFilter \<Rightarrow> bool" where
  "filter_distinct f \<longleftrightarrow> distinct (mf_TagIDs f) \<and> distinct (mf_TagNames f)"

lemma group_having_set:
  "set (group_having n pairs)
    = {m \<in> fst ` set pairs. card {v. \<exists>m'. (m', v) \<in> set pairs \<and> md_id m' = md_id m} = n}"
proof -
  have "length (remdups (map snd (filter (\<lambda>p. md_id (fst p) = md_id m) pairs)))
      = card {v. \<exists>m'. (m', v) \<in> set pairs \<and> md_id m' = md_id m}" for m
  proof -
    have "set (map snd (filter (\<lambda>p. md_id (fst p) = md_id m) pairs))
        = {v. \<exists>m'. (m', v) \<in> set pairs \<and> md_id m' = md_id m}" by force
    then show ?thesis by (metis length_remdups_card_conv)
  qed
  then show ?thesis by (auto simp: group_having_def)
qed

lemma group_having_distinct: "distinct (group_having n pairs)"
  by (simp add: group_having_def)

lemma list_comp_link_set:
  "set [(m, mt_tag l). m \<leftarrow> ms, P m, l \<leftarrow> ls, Q m l]
    = {(m, v). m \<in> set ms \<and> P m \<and> (\<exists>l \<in> set ls. Q m l \<and> v = mt_tag l)}"
  by auto

lemma list_comp_tag_set:
  "set [(m, tg_id r). m \<leftarrow> ms, P m, l \<leftarrow> ls, Q m l, r \<leftarrow> rs, R l r]
    = {(m, v). m \<in> set ms \<and> P m \<and> (\<exists>l \<in> set ls. Q m l \<and> (\<exists>r \<in> set rs. R l r \<and> v = tg_id r))}"
  by auto

text \<open>Counting the distinct values of a group that lie in a set of \<open>n\<close> wanted ones.\<close>

lemma card_all_iff:
  assumes "distinct xs" and "xs \<noteq> []"
  shows "card {v \<in> set xs. P v} = length xs \<longleftrightarrow> (\<forall>v \<in> set xs. P v)"
proof
  assume "card {v \<in> set xs. P v} = length xs"
  then have "{v \<in> set xs. P v} = set xs"
    using assms(1) by (intro card_subset_eq) (auto simp: distinct_card)
  then show "\<forall>v \<in> set xs. P v" by blast
next
  assume "\<forall>v \<in> set xs. P v"
  then have "{v \<in> set xs. P v} = set xs" by blast
  then show "card {v \<in> set xs. P v} = length xs" using assms(1) by (simp add: distinct_card)
qed

lemma group_iff: "(A \<longleftrightarrow> F \<and> g = n) \<Longrightarrow> (F \<longleftrightarrow> B) \<Longrightarrow> (B \<Longrightarrow> g = c) \<Longrightarrow> (A \<longleftrightarrow> B \<and> c = n)"
  by auto

lemma candidates_by_id:
  assumes inv: "db_inv d" and rls: "rls s t" and ids: "distinct ids" "ids \<noteq> []"
  shows "set (group_having (length ids)
      [(m, mt_tag mt). m \<leftarrow> media d, list_where s t cursor m,
         mt \<leftarrow> media_tags d, rls s (mt_tenant mt) \<and> mt_media mt = md_id m \<and> mt_tag mt \<in> set ids])
    = {m \<in> set (media d). list_where s t cursor m \<and> (\<forall>i \<in> set ids. linked d (md_id m) i)}"
    (is "set (group_having _ ?pairs) = ?R")
proof -
  have pairs: "(m, v) \<in> set ?pairs \<longleftrightarrow>
      m \<in> set (media d) \<and> list_where s t cursor m \<and> v \<in> set ids \<and> linked d (md_id m) v" for m v
  proof (unfold list_comp_link_set, intro iffI; clarsimp)
    fix l assume "l \<in> set (media_tags d)" "mt_media l = md_id m"
    then show "linked d (md_id m) (mt_tag l)" by (auto simp: linked_def mt_key_def image_iff intro!: bexI [of _ l])
  next
    assume m: "m \<in> set (media d)" "list_where s t cursor m" "v \<in> set ids" "linked d (md_id m) v"
    then obtain l where l: "l \<in> set (media_tags d)" "mt_media l = md_id m" "mt_tag l = v"
      by (auto simp: linked_def mt_key_def)
    moreover have "rls s (mt_tenant l)"
      using link_tenants(1) [OF inv l(1) m(1)] l(2) m(2) rls by (simp add: list_where_def)
    ultimately show "\<exists>l \<in> set (media_tags d). rls s (mt_tenant l) \<and> mt_media l = md_id m \<and> mt_tag l \<in> set ids
        \<and> v = mt_tag l" using m(3) by blast
  qed
  have grp: "{v. \<exists>m'. (m', v) \<in> set ?pairs \<and> md_id m' = md_id m} = {v \<in> set ids. linked d (md_id m) v}"
    if "m \<in> set (media d)" "list_where s t cursor m" for m
    unfolding pairs using that by auto
  show ?thesis
  proof (rule set_eqI)
    fix m
    have "m \<in> set (group_having (length ids) ?pairs) \<longleftrightarrow> m \<in> fst ` set ?pairs \<and>
        card {v. \<exists>m'. (m', v) \<in> set ?pairs \<and> md_id m' = md_id m} = length ids"
      by (simp only: group_having_set mem_Collect_eq)
    moreover have "m \<in> fst ` set ?pairs \<longleftrightarrow> (\<exists>v. (m, v) \<in> set ?pairs)" by force
    ultimately have "m \<in> set (group_having (length ids) ?pairs) \<longleftrightarrow>
        (\<exists>v. (m, v) \<in> set ?pairs) \<and> card {v \<in> set ids. linked d (md_id m) v} = length ids"
      using grp [of m] pairs [of m] by auto
    also have "\<dots> \<longleftrightarrow> m \<in> ?R"
      unfolding pairs card_all_iff [OF ids] using ids(2) by (cases ids) auto
    finally show "m \<in> set (group_having (length ids) ?pairs) \<longleftrightarrow> m \<in> ?R" .
  qed
qed

lemma candidates_by_name:
  assumes inv: "db_inv d" and rls: "rls s t" and names: "distinct names" "names \<noteq> []"
  shows "set (group_having (length names)
      [(m, tg_id r). m \<leftarrow> media d, list_where s t cursor m,
         mt \<leftarrow> media_tags d, rls s (mt_tenant mt) \<and> mt_media mt = md_id m,
         r \<leftarrow> tags d, rls s (tg_tenant r) \<and> tg_id r = mt_tag mt \<and> tg_name r \<in> set names])
    = {m \<in> set (media d). list_where s t cursor m \<and>
        (\<forall>n \<in> set names. \<exists>r \<in> set (tags d). tg_tenant r = t \<and> tg_name r = n \<and> linked d (md_id m) (tg_id r))}"
    (is "set (group_having _ ?pairs) = ?R")
proof -
  define carried :: "media_row \<Rightarrow> tag_row set" where "carried m = {r \<in> set (tags d). tg_tenant r = t \<and> tg_name r \<in> set names \<and>
      linked d (md_id m) (tg_id r)}" for m
  have pairs: "(m, v) \<in> set ?pairs \<longleftrightarrow>
      m \<in> set (media d) \<and> list_where s t cursor m \<and> v \<in> tg_id ` carried m" for m v
  proof (unfold list_comp_tag_set, intro iffI; clarsimp)
    fix l r assume m: "m \<in> set (media d)" "list_where s t cursor m"
      and l: "l \<in> set (media_tags d)" "mt_media l = md_id m"
      and r: "r \<in> set (tags d)" "tg_id r = mt_tag l" "tg_name r \<in> set names"
    have "tg_tenant r = t"
      using link_tenants [OF inv l(1)] m l(2) r by (simp add: list_where_def)
    moreover have "linked d (md_id m) (tg_id r)"
      using l r by (auto simp: linked_def mt_key_def image_iff intro!: bexI [of _ l])
    ultimately show "mt_tag l \<in> tg_id ` carried m"
      using r by (intro image_eqI [of _ _ r]) (simp_all add: carried_def)
  next
    fix r assume m: "m \<in> set (media d)" "list_where s t cursor m" and "r \<in> carried m"
    then have r: "r \<in> set (tags d)" "tg_tenant r = t" "tg_name r \<in> set names" "linked d (md_id m) (tg_id r)"
      by (auto simp: carried_def)
    then obtain l where l: "l \<in> set (media_tags d)" "mt_media l = md_id m" "mt_tag l = tg_id r"
      by (auto simp: linked_def mt_key_def)
    moreover have "rls s (mt_tenant l)"
      using link_tenants(1) [OF inv l(1) m(1)] l(2) m(2) rls by (simp add: list_where_def)
    ultimately show "\<exists>l \<in> set (media_tags d). rls s (mt_tenant l) \<and> mt_media l = md_id m \<and>
        (\<exists>r' \<in> set (tags d). rls s (tg_tenant r') \<and> tg_id r' = mt_tag l \<and> tg_name r' \<in> set names
          \<and> tg_id r = tg_id r')"
      using r rls by (intro bexI [of _ l] conjI bexI [of _ r]) auto
  qed
  have grp: "card {v. \<exists>m'. (m', v) \<in> set ?pairs \<and> md_id m' = md_id m}
      = card {n \<in> set names. \<exists>r \<in> set (tags d). tg_tenant r = t \<and> tg_name r = n \<and> linked d (md_id m) (tg_id r)}"
    if m: "m \<in> set (media d)" "list_where s t cursor m" for m
  proof -
    have "{v. \<exists>m'. (m', v) \<in> set ?pairs \<and> md_id m' = md_id m} = tg_id ` carried m"
      unfolding pairs using m by (auto simp: carried_def)
    moreover have "inj_on tg_id (carried m)"
      using inv by (auto simp: inj_on_def carried_def intro: distinct_map_unique [OF db_inv_D(1)])
    moreover have "inj_on tg_name (carried m)"
      using inv by (auto simp: inj_on_def carried_def tg_key_def intro: distinct_map_unique [OF db_inv_D(2)])
    moreover have "tg_name ` carried m
        = {n \<in> set names. \<exists>r \<in> set (tags d). tg_tenant r = t \<and> tg_name r = n \<and> linked d (md_id m) (tg_id r)}"
      by (auto simp: carried_def)
    ultimately show ?thesis by (metis card_image)
  qed
  show ?thesis
  proof (rule set_eqI)
    fix m
    have "m \<in> set (group_having (length names) ?pairs) \<longleftrightarrow> m \<in> fst ` set ?pairs \<and>
        card {v. \<exists>m'. (m', v) \<in> set ?pairs \<and> md_id m' = md_id m} = length names"
      by (simp only: group_having_set mem_Collect_eq)
    moreover have "m \<in> fst ` set ?pairs \<longleftrightarrow> (\<exists>v. (m, v) \<in> set ?pairs)" by force
    moreover have "(\<exists>v. (m, v) \<in> set ?pairs) \<Longrightarrow>
        card {v. \<exists>m'. (m', v) \<in> set ?pairs \<and> md_id m' = md_id m}
      = card {n \<in> set names. \<exists>r \<in> set (tags d). tg_tenant r = t \<and> tg_name r = n \<and> linked d (md_id m) (tg_id r)}"
      using grp [of m] pairs [of m] by blast
    ultimately have "m \<in> set (group_having (length names) ?pairs) \<longleftrightarrow> (\<exists>v. (m, v) \<in> set ?pairs) \<and>
        card {n \<in> set names. \<exists>r \<in> set (tags d). tg_tenant r = t \<and> tg_name r = n \<and> linked d (md_id m) (tg_id r)}
          = length names"
      by (rule group_iff)
    also have "\<dots> \<longleftrightarrow> m \<in> ?R"
    proof -
      let ?all = "\<forall>n \<in> set names. \<exists>r \<in> set (tags d). tg_tenant r = t \<and> tg_name r = n \<and> linked d (md_id m) (tg_id r)"
      have "carried m \<noteq> {}" if ?all
        using that names(2) by (cases names) (auto simp: carried_def)
      moreover have "(\<exists>v. (m, v) \<in> set ?pairs) \<longleftrightarrow> m \<in> set (media d) \<and> list_where s t cursor m \<and> carried m \<noteq> {}"
        unfolding pairs by blast
      ultimately show ?thesis unfolding card_all_iff [OF names] by blast
    qed
    finally show "m \<in> set (group_having (length names) ?pairs) \<longleftrightarrow> m \<in> ?R" .
  qed
qed

section \<open>The listing\<close>

definition listed :: "uuid \<Rightarrow> db \<Rightarrow> MediaFilter \<Rightarrow> media_row list" where
  "listed t d f = sort_key media_row_key (filter (\<lambda>m. md_tenant m = t \<and> media_matches t d f m) (media d))"

definition media_cursor_key :: "MediaCursor \<Rightarrow> int \<times> int" where
  "media_cursor_key c = desc_key (mc_CreatedAt c) (mc_ID c)"

lemma desc_key_less: "desc_key a i < desc_key b j \<longleftrightarrow> (b, j) < (a, i)"
  by (auto simp: desc_key_def less_prod_def' word_less_def)

lemma candidates_set:
  assumes "db_inv d" "rls s t" "filter_distinct f"
  shows "set (list_candidates s t cursor f d)
    = {m \<in> set (media d). list_where s t cursor m \<and> media_matches t d f m}"
  using assms candidates_by_id [of d s t "mf_TagIDs f" cursor] candidates_by_name [of d s t "mf_TagNames f" cursor]
  by (auto simp: list_candidates_def media_matches_def filter_distinct_def)

lemma candidates_distinct:
  assumes "db_inv d"
  shows "distinct (list_candidates s t cursor f d)"
  using distinct_map_set_eq [OF db_inv_D(3) [OF assms]]
  by (simp add: list_candidates_def group_having_distinct)

lemma media_key_inj:
  assumes "db_inv d" "set ms \<subseteq> set (media d)" "distinct ms"
  shows "distinct (map media_row_key ms)"
proof -
  have "inj_on media_row_key (set ms)"
  proof (rule inj_onI)
    fix a b assume ab: "a \<in> set ms" "b \<in> set ms" "media_row_key a = media_row_key b"
    then have "md_id a = md_id b" by (auto simp: media_row_key_def desc_key_def intro: word_uint_eqI)
    with ab assms(1,2) show "a = b" by (metis db_inv_D(3) distinct_map_unique subsetD)
  qed
  with assms(3) show ?thesis by (simp add: distinct_map)
qed

lemma listed_set: "set (listed t d f) = {m \<in> set (media d). md_tenant m = t \<and> media_matches t d f m}"
  by (auto simp: listed_def)

lemma listed_strict:
  assumes "db_inv d"
  shows "sorted_wrt (<) (map media_row_key (listed t d f))"
  unfolding listed_def
  using assms distinct_map_set_eq [OF db_inv_D(3) [OF assms]]
  by (intro sort_key_strict media_key_inj) auto

text \<open>The query of a page is the reference listing from the cursor on.\<close>

lemma sql_list_media_after:
  assumes inv: "db_inv d" and rls: "rls s t" and f: "filter_distinct f"
  shows "sql_list_media s t cursor f n d
    = take n (after media_row_key media_cursor_key cursor (listed t d f))"
proof -
  define ref where "ref = filter (\<lambda>m. case cursor of None \<Rightarrow> True | Some c \<Rightarrow> media_cursor_key c < media_row_key m)
     (filter (\<lambda>m. md_tenant m = t \<and> media_matches t d f m) (media d))"
  have "list_where s t cursor m \<longleftrightarrow> md_tenant m = t \<and>
      (case cursor of None \<Rightarrow> True | Some c \<Rightarrow> media_cursor_key c < media_row_key m)" for m
    using rls by (auto simp: list_where_def media_cursor_key_def media_row_key_def desc_key_less
        split: option.splits)
  then have "set (list_candidates s t cursor f d) = set ref"
    by (auto simp: candidates_set [OF inv rls f] ref_def)
  moreover have "distinct ref"
    using distinct_map_set_eq [OF db_inv_D(3) [OF inv]] by (simp add: ref_def)
  ultimately have "sort_key media_row_key (list_candidates s t cursor f d) = sort_key media_row_key ref"
    by (intro sort_key_set_eq media_key_inj [OF inv] candidates_distinct [OF inv])
      (auto simp: ref_def candidates_set [OF inv rls f])
  also have "\<dots> = after media_row_key media_cursor_key cursor (listed t d f)"
    by (cases cursor) (simp_all add: ref_def after_def listed_def filter_sort)
  finally show ?thesis by (simp add: sql_list_media_def)
qed

text \<open>The item a listing shows for a row: the row with all its tags.\<close>

definition media_item :: "Ext \<Rightarrow> uuid \<Rightarrow> db \<Rightarrow> media_row \<Rightarrow> Media" where
  "media_item X t d r = media_of_row r (tags_of X t d (md_id r))"

definition media_key :: "Media \<Rightarrow> int \<times> int" where
  "media_key m = desc_key (media_CreatedAt m) (media_ID m)"

definition cursor_of_media :: "Media \<Rightarrow> MediaCursor" where
  "cursor_of_media m = \<lparr>mc_CreatedAt = media_CreatedAt m, mc_ID = media_ID m\<rparr>"

lemma media_item_key [simp]:
  "media_key (media_item X t d r) = media_row_key r"
  "cursor_of_media (media_item X t d r) = media_cursor_of r"
  by (simp_all add: media_key_def media_item_def media_row_key_def cursor_of_media_def media_cursor_of_def)

definition all_media :: "Ext \<Rightarrow> uuid \<Rightarrow> db \<Rightarrow> MediaFilter \<Rightarrow> Media list" where
  "all_media X t d f = map (media_item X t d) (listed t d f)"

lemma page_map:
  assumes "\<And>r. c (g r) = c' r" and "0 < limit"
  shows "page limit c (map g rows) = (case page limit c' rows of (rs, nxt) \<Rightarrow> (map g rs, nxt))"
  using assms by (auto simp: page_def take_map nth_map)

definition media_list_ready :: "uuid \<Rightarrow> db \<Rightarrow> Ctx \<Rightarrow> MediaFilter \<Rightarrow> nat \<Rightarrow> World \<Rightarrow> bool" where
  "media_list_ready t d ctx f limit w \<longleftrightarrow> 0 < limit \<and> no_faults w \<and> db_inv d \<and> w_db w = d
     \<and> TenantIDFromContext ctx = Inr t \<and> filter_distinct f"

lemma listInTx_page:
  assumes pos: "0 < limit" and nf: "no_faults w" and inv: "db_inv (w_db w)" and f: "filter_distinct f"
    and rls: "rls s t"
  shows "\<exists>w'. listInTx X limit cursor f s t w =
    (Inr (page limit cursor_of_media
       (take (Suc limit) (after media_key media_cursor_key cursor (all_media X t (w_db w) f)))), w')"
proof -
  define rows where "rows = take (Suc limit) (after media_row_key media_cursor_key cursor (listed t (w_db w) f))"
  obtain ml nxt where p: "page limit media_cursor_of rows = (ml, nxt)" by fastforce
  have items: "take (Suc limit) (after media_key media_cursor_key cursor (all_media X t (w_db w) f))
      = map (media_item X t (w_db w)) rows"
    by (cases cursor) (simp_all add: rows_def after_def all_media_def take_map filter_map o_def)
  have "page limit cursor_of_media (map (media_item X t (w_db w)) rows) = (map (media_item X t (w_db w)) ml, nxt)"
    using page_map [of cursor_of_media "media_item X t (w_db w)" media_cursor_of limit rows] pos p by simp
  moreover have "media_of_row m (map snd (filter (\<lambda>p. fst p = md_id m)
      (sql_batch_tags X s t (map md_id ml) (w_db w)))) = media_item X t (w_db w) m" if "m \<in> set ml" for m
    using that by (simp add: batch_tags_item sql_media_tags_eq [OF inv rls] media_item_def)
  ultimately show ?thesis
    using nf p unfolding items
    by (cases ml) (simp_all add: listInTx_def and_then_def map_err_def db_query_no_faults
        sql_list_media_after [OF inv rls f] rows_def [symmetric] ret_def)
qed

lemma MediaRepo_List_page:
  assumes "media_list_ready t d ctx f limit w"
  shows "\<exists>w'. MediaRepo_List X ctx limit cursor f w =
      (Inr (page limit cursor_of_media
         (take (Suc limit) (after media_key media_cursor_key cursor (all_media X t (w_db w) f)))), w')
    \<and> media_list_ready t d ctx f limit w' \<and> w_db w' = w_db w"
proof -
  let ?p = "page limit cursor_of_media
     (take (Suc limit) (after media_key media_cursor_key cursor (all_media X t (w_db w) f)))"
  have r: "0 < limit" "no_faults w" "db_inv (w_db w)" "filter_distinct f" "TenantIDFromContext ctx = Inr t"
    using assms by (simp_all add: media_list_ready_def)
  then obtain w3 where run: "listInTx X limit cursor f (tenant_session w t) t (in_tx w) = (Inr ?p, w3)"
    using listInTx_page [of limit "in_tx w" f "tenant_session w t" t X cursor] by auto
  have "w_db w3 = w_db w"
  proof -
    have "db_keeps (\<lambda>d. d = w_db w) (listInTx X limit cursor f (tenant_session w t) t)"
      unfolding listInTx_def by (intro preserves)
    from keepsD [OF this _ run] show ?thesis by simp
  qed
  with withTenantTx_no_faults [where fn = "listInTx X limit cursor f", OF r(2) db_op_MediaRepo_tx(3) r(5) run]
  obtain w' where "MediaRepo_List X ctx limit cursor f w = (Inr ?p, w')" "w_db w' = w_db w" "db_only w w'"
    by (auto simp: MediaRepo_List_def)
  with assms show ?thesis by (auto simp: media_list_ready_def intro: no_faults_db_only)
qed

interpretation media_pages: keyset "media_list_ready t d ctx f limit" "\<lambda>w. all_media X t (w_db w) f" media_key
  cursor_of_media media_cursor_key limit "\<lambda>c. MediaRepo_List X ctx limit c f"
  for X t d ctx f limit
proof
  fix w c assume g: "media_list_ready t d ctx f limit w"
  then show "0 < limit" by (simp add: media_list_ready_def)
  have "db_inv (w_db w)" using g by (simp add: media_list_ready_def)
  then show "sorted_wrt (<) (map media_key (all_media X t (w_db w) f))"
    using listed_strict [of "w_db w" t f] by (simp add: all_media_def o_def)
  show "\<exists>w'. MediaRepo_List X ctx limit c f w =
      (Inr (page limit cursor_of_media
         (take (Suc limit) (after media_key media_cursor_key c (all_media X t (w_db w) f)))), w')
    \<and> media_list_ready t d ctx f limit w' \<and> all_media X t (w_db w') f = all_media X t (w_db w) f"
    using MediaRepo_List_page [OF g, of X c] by auto
qed (simp add: media_cursor_key_def cursor_of_media_def media_key_def)

end
