(* ===== verification/Media_Contract.thy ===== *)
theory Media_Contract
  imports Media_Read
begin

text \<open>
  What the writing operations of the media repository do to the media of the tenant, and the
  interpretation of the \<open>media_repository\<close> contract on them.
\<close>

section \<open>The media of a tenant by id\<close>

definition media_get :: "Ext \<Rightarrow> uuid \<Rightarrow> db \<Rightarrow> uuid \<rightharpoonup> Media" where
  "media_get X t d i = map_option (media_item X t d) (find (\<lambda>r. md_tenant r = t \<and> md_id r = i) (media d))"

lemma find_unique:
  assumes "distinct (map f xs)" "x \<in> set xs" "P x" "\<And>y. y \<in> set xs \<Longrightarrow> P y \<Longrightarrow> f y = f x"
  shows "find P xs = Some x"
proof (cases "find P xs")
  case None
  with assms show ?thesis by (auto simp: find_None_iff_ex)
next
  case (Some y)
  then have "y \<in> set xs" "P y" by (auto dest: find_Some_in)
  with assms Some show ?thesis by (metis distinct_map_unique)
qed

lemma media_get_Some:
  assumes "db_inv d"
  shows "media_get X t d i = Some m \<longleftrightarrow>
    (\<exists>r \<in> set (media d). md_tenant r = t \<and> md_id r = i \<and> m = media_item X t d r)"
proof
  assume "media_get X t d i = Some m"
  then show "\<exists>r \<in> set (media d). md_tenant r = t \<and> md_id r = i \<and> m = media_item X t d r"
    by (auto simp: media_get_def dest!: find_Some_in)
next
  assume "\<exists>r \<in> set (media d). md_tenant r = t \<and> md_id r = i \<and> m = media_item X t d r"
  then obtain r where "r \<in> set (media d)" "md_tenant r = t" "md_id r = i" "m = media_item X t d r" by blast
  moreover from this have "find (\<lambda>r. md_tenant r = t \<and> md_id r = i) (media d) = Some r"
    by (intro find_unique [OF db_inv_D(3) [OF assms]]) auto
  ultimately show "media_get X t d i = Some m" by (simp add: media_get_def)
qed

lemma media_get_None: "media_get X t d i = None \<longleftrightarrow> \<not> media_exists d t i"
  by (auto simp: media_get_def find_None_iff_ex media_exists_def)

lemma find_media_hit:
  "rls s t \<Longrightarrow> find (media_hit s t i) (media d) = find (\<lambda>r. md_tenant r = t \<and> md_id r = i) (media d)"
  by (rule find_cong) (auto simp: media_hit_def)

section \<open>How links change the tags of a media item\<close>

lemma tags_of_cong:
  "tags d' = tags d \<Longrightarrow> (\<And>j. linked d' i j = linked d i j) \<Longrightarrow> tags_of X t d' i = tags_of X t d i"
  by (simp add: tags_of_def)

lemma media_item_cong:
  "tags d' = tags d \<Longrightarrow> (\<And>j. linked d' (md_id r) j = linked d (md_id r) j) \<Longrightarrow>
    media_item X t d' r = media_item X t d r"
  unfolding media_item_def by (metis tags_of_cong)

lemma linked_ends:
  assumes "db_inv d" "linked d i j"
  shows "\<exists>m \<in> set (media d). \<exists>r \<in> set (tags d). md_id m = i \<and> tg_id r = j \<and> md_tenant m = tg_tenant r"
proof -
  from assms(2) obtain l where l: "l \<in> set (media_tags d)" "mt_media l = i" "mt_tag l = j"
    by (auto simp: linked_def mt_key_def)
  from db_inv_D(7) [OF assms(1) l(1)] obtain m r where "m \<in> set (media d)" "md_id m = i"
    "md_tenant m = mt_tenant l" "r \<in> set (tags d)" "tg_id r = j" "tg_tenant r = mt_tenant l"
    unfolding link_ok_def l(2,3) by blast
  then show ?thesis by (intro bexI [of _ m] bexI [of _ r]) simp_all
qed

lemma tags_of_ids:
  assumes inv: "db_inv d" and m: "media_exists d t i"
  shows "tag_ID ` set (tags_of X t d i) = {j. linked d i j}"
proof -
  have "tag_ID ` set (tags_of X t d i) = tg_id ` {r \<in> set (tags d). tg_tenant r = t \<and> linked d i (tg_id r)}"
    by (simp add: tags_of_def image_image)
  also have "\<dots> = {j. linked d i j}"
  proof (intro equalityI subsetI; clarsimp)
    fix j assume "linked d i j"
    from linked_ends [OF inv this] obtain m' r where "m' \<in> set (media d)" "r \<in> set (tags d)"
      "md_id m' = i" "tg_id r = j" "md_tenant m' = tg_tenant r" by blast
    moreover from this m inv have "md_tenant m' = t"
      unfolding media_exists_def by (metis db_inv_D(3) distinct_map_unique)
    ultimately show "j \<in> tg_id ` {r \<in> set (tags d). tg_tenant r = t \<and> linked d i (tg_id r)}"
      using \<open>linked d i j\<close> by (intro image_eqI [of _ _ r]) auto
  qed
  finally show ?thesis .
qed

text \<open>Two states whose links differ only at the media \<open>i\<close>.\<close>

lemma media_get_relink:
  assumes inv: "db_inv d" "db_inv d'" and same: "media d' = media d" "tags d' = tags d"
    and other: "\<And>i' j. i' \<noteq> i \<Longrightarrow> linked d' i' j = linked d i' j"
    and m: "media_get X t d i = Some m"
  shows "media_get X t d' = (media_get X t d)(i \<mapsto> m\<lparr>media_Tags := tags_of X t d' i\<rparr>)"
proof
  fix i'
  show "media_get X t d' i' = ((media_get X t d)(i \<mapsto> m\<lparr>media_Tags := tags_of X t d' i\<rparr>)) i'"
  proof (cases "i' = i")
    case True
    obtain r where "find (\<lambda>r. md_tenant r = t \<and> md_id r = i) (media d) = Some r" "m = media_item X t d r"
      using m by (auto simp: media_get_def)
    moreover from this have "md_id r = i" by (auto dest: find_Some_in)
    ultimately show ?thesis
      using True by (simp add: media_get_def same media_item_def media_of_row_def)
  next
    case False
    have "media_item X t d' r = media_item X t d r" if "md_id r = i'" for r
      using other [of i'] False that by (intro media_item_cong [OF same(2)]) simp
    then have "media_get X t d' i' = media_get X t d i'"
      unfolding media_get_def same
      by (cases "find (\<lambda>r. md_tenant r = t \<and> md_id r = i') (media d)") (auto dest!: find_Some_in)
    with False show ?thesis by simp
  qed
qed

section \<open>The effect of each successful closure\<close>

lemma linked_append:
  "linked (d\<lparr>media_tags := media_tags d @ map (\<lambda>j. \<lparr>mt_tenant = t, mt_media = i, mt_tag = j\<rparr>) js\<rparr>) i' j
    \<longleftrightarrow> linked d i' j \<or> i' = i \<and> j \<in> set js"
  by (auto simp: linked_def mt_key_def image_Un image_image)

lemma insert_link_effect:
  assumes "sql_insert_link s t i j d = Inr (n, d')"
  shows "tags d' = tags d \<and> media d' = media d \<and>
    (\<forall>i' j'. linked d' i' j' \<longleftrightarrow> linked d i' j' \<or> i' = i \<and> j' = j
      \<and> (\<exists>r \<in> set (tags d). rls s (tg_tenant r) \<and> tg_id r = j \<and> tg_tenant r = t))"
  using assms linked_append [of d t i "[j]"]
  by (auto simp: sql_insert_link_def split: if_splits)

lemma associate_effect:
  assumes "associate_tags X s t i ids w = (Inr (), w')"
  shows "tags (w_db w') = tags (w_db w) \<and> media (w_db w') = media (w_db w) \<and>
    (\<forall>i' j. linked (w_db w') i' j \<longleftrightarrow> linked (w_db w) i' j \<or> i' = i \<and> j \<in> set ids
      \<and> (\<exists>r \<in> set (tags (w_db w)). rls s (tg_tenant r) \<and> tg_id r = j \<and> tg_tenant r = t))"
  using assms
proof (induction ids arbitrary: w)
  case (Cons j ids)
  then obtain n w1 where 1: "sql_insert_link s t i j (w_db w) = Inr (n, w_db w1)"
    and 2: "associate_tags X s t i ids w1 = (Inr (), w')"
    by (auto simp: and_then_Inr dest!: db_exec_InrD)
  show ?case using insert_link_effect [OF 1] Cons.IH [OF 2] by auto
qed simp

lemma tenant_row_rls: "rls s t \<Longrightarrow> (rls s u \<and> P \<and> u = t) \<longleftrightarrow> P \<and> u = t"
  by auto

lemma MediaCreate_tx_Inr:
  assumes inv: "db_inv (w_db w)" and rls: "rls s t"
    and run: "MediaCreate_tx X m ids s t w = (Inr m', w')"
  shows "media_get X t (w_db w) (media_ID m') = None"
    and "media_get X t (w_db w') = (media_get X t (w_db w))(media_ID m' \<mapsto> m')"
    and "m' = m\<lparr>media_ID := media_ID m', media_CreatedAt := media_CreatedAt m', media_Tags := media_Tags m'\<rparr>"
    and "tag_ID ` set (media_Tags m')
      = {j \<in> set ids. \<exists>r \<in> set (tags (w_db w)). tg_id r = j \<and> tg_tenant r = t}"
proof -
  obtain i created u "now" w1 w2 where
    ins: "sql_insert_media s t m u now (w_db w) = Inr ((i, created), w_db w1)" and
    assoc: "associate_tags X s t i ids w1 = (Inr (), w2)" and
    m': "m' = m\<lparr>media_ID := i, media_CreatedAt := created, media_Tags := sql_media_tags X s t i (w_db w2)\<rparr>" and
    w': "w_db w' = w_db w2"
    using run by (auto simp: MediaCreate_tx_def and_then_Inr dest!: db_insert_InrD db_query_InrD)
  note I = insert_media_Inr [OF ins]
  have i: "i = u" "created = now" using I(1) by simp_all
  have inv1: "db_inv (w_db w1)" and ex1: "media_exists (w_db w1) t i"
    using insert_media_ok [OF inv ins] by (simp_all add: step_ok_def)
  have "db_keeps (\<lambda>d. tenant_safe t (w_db w1) d \<and> media_exists d t i) (associate_tags X s t i ids)"
    by (rule safe_associate)
  from keepsD [OF this _ assoc] have inv2: "db_inv (w_db w2)"
    using inv1 ex1 by (simp add: tenant_safe_def)
  note A = associate_effect [OF assoc]
  have fresh: "\<not> media_exists (w_db w) t i" using I(3) i by (auto simp: media_exists_def)
  then show "media_get X t (w_db w) (media_ID m') = None"
    by (simp add: media_get_None m')
  have nolinks: "\<not> linked (w_db w) i j" for j
    using linked_ends [OF inv, of i j] I(3) i by blast
  have links1: "linked (w_db w1) i' j = linked (w_db w) i' j" for i' j
    by (simp add: I(2) linked_def)
  have ex2: "media_exists (w_db w2) t i" using ex1 A by (simp add: media_exists_def)
  have tags: "media_Tags m' = tags_of X t (w_db w2) i"
    by (simp add: m' sql_media_tags_eq [OF inv2 rls])
  have tags1: "tags (w_db w1) = tags (w_db w)" by (simp add: I(2))
  have "tag_ID ` set (media_Tags m') = {j. linked (w_db w2) i j}"
    by (simp add: tags tags_of_ids [OF inv2 ex2])
  also have "\<dots> = {j \<in> set ids. \<exists>r \<in> set (tags (w_db w)). tg_id r = j \<and> tg_tenant r = t}"
    using A rls by (auto simp: links1 nolinks tags1)
  finally show "tag_ID ` set (media_Tags m')
      = {j \<in> set ids. \<exists>r \<in> set (tags (w_db w)). tg_id r = j \<and> tg_tenant r = t}" .
  show "m' = m\<lparr>media_ID := media_ID m', media_CreatedAt := media_CreatedAt m', media_Tags := media_Tags m'\<rparr>"
    by (simp add: m')
  show "media_get X t (w_db w') = (media_get X t (w_db w))(media_ID m' \<mapsto> m')"
  proof
    fix i'
    have media2: "media (w_db w2) = media (w_db w1)" using A by simp
    show "media_get X t (w_db w') i' = ((media_get X t (w_db w))(media_ID m' \<mapsto> m')) i'"
    proof (cases "i' = i")
      case True
      define r where "r = \<lparr>md_id = u, md_tenant = t, md_name = media_Name m, md_type = media_Type m,
        md_path = media_FilePath m, md_orig = media_OriginalName m, md_size = media_FileSize m, md_created = now\<rparr>"
      have "r \<in> set (media (w_db w2))" by (simp add: media2 I(2) r_def)
      then have "media_get X t (w_db w2) i = Some (media_item X t (w_db w2) r)"
        unfolding media_get_Some [OF inv2] by (rule bexI [of _ r, rotated]) (simp add: i r_def)
      moreover have "media_item X t (w_db w2) r = m'"
        using tags by (simp add: media_item_def media_of_row_def r_def m' i)
      ultimately show ?thesis using True by (simp add: w' m')
    next
      case False
      have "media_item X t (w_db w2) r = media_item X t (w_db w) r" if "md_id r = i'" for r
        by (intro media_item_cong) (use A False that in \<open>auto simp: links1 tags1\<close>)
      moreover have "find (\<lambda>r. md_tenant r = t \<and> md_id r = i') (media (w_db w2))
          = find (\<lambda>r. md_tenant r = t \<and> md_id r = i') (media (w_db w))"
        unfolding media2 I(2) using False i by (auto simp: find_append split: option.splits)
      ultimately have "media_get X t (w_db w2) i' = media_get X t (w_db w) i'"
        unfolding media_get_def
        by (cases "find (\<lambda>r. md_tenant r = t \<and> md_id r = i') (media (w_db w))") (auto dest!: find_Some_in)
      with False show ?thesis by (simp add: w' m')
    qed
  qed
qed

lemma GetByID_tx_Inr:
  assumes inv: "db_inv (w_db w)" and rls: "rls s t" and run: "GetByID_tx X i s t w = (Inr m, w')"
  shows "media_get X t (w_db w) i = Some m \<and> w_db w' = w_db w"
proof -
  obtain r where "sql_get_media s t i (w_db w) = Some r"
    "m = media_of_row r (sql_media_tags X s t (md_id r) (w_db w))" "w_db w' = w_db w"
    using run by (auto simp: GetByID_tx_def handle_eq QueryRow_Inr and_then_Inr dest!: db_query_InrD
        split: if_splits)
  then show ?thesis
    by (auto simp: media_get_def sql_get_media_def find_media_hit [OF rls] media_item_def
        sql_media_tags_eq [OF inv rls] dest: find_Some_in)
qed

lemma MediaDelete_tx_Inr:
  assumes inv: "db_inv (w_db w)" and rls: "rls s t" and run: "MediaDelete_tx i s t w = (Inr p, w')"
  shows "\<exists>m. media_get X t (w_db w) i = Some m \<and> p = media_FilePath m
    \<and> media_get X t (w_db w') = (media_get X t (w_db w))(i := None)"
proof -
  let ?d = "w_db w" and ?d' = "w_db w'"
  have del: "sql_delete_media s t i ?d = Inr (Some p, ?d')"
    using run by (auto simp: MediaDelete_tx_def handle_eq QueryRow_Inr dest!: db_exec_InrD split: if_splits)
  have inv': "db_inv ?d'" using delete_media_ok [OF inv del] by (simp add: step_ok_def)
  have hit: "media_hit s t i r \<longleftrightarrow> md_id r = i \<and> md_tenant r = t" for r
    using rls by (auto simp: media_hit_def)
  from del obtain r rest where f: "filter (media_hit s t i) (media ?d) = r # rest" and p: "p = md_path r"
    by (auto simp: sql_delete_media_def Let_def split: list.splits)
  then have r: "r \<in> set (media ?d)" "md_id r = i" "md_tenant r = t"
    using hit by (metis filter_eq_ConsD in_set_conv_decomp)+
  have d': "?d' = ?d\<lparr>media := filter (\<lambda>r. \<not> media_hit s t i r) (media ?d),
      media_tags := filter (\<lambda>l. mt_media l \<notin> md_id ` set (filter (media_hit s t i) (media ?d))) (media_tags ?d)\<rparr>"
    using del by (auto simp: sql_delete_media_def Let_def)
  have media': "media ?d' = filter (\<lambda>r. \<not> (md_id r = i \<and> md_tenant r = t)) (media ?d)"
    and tags': "tags ?d' = tags ?d"
    unfolding d' hit by simp_all
  have "mt_media l \<notin> md_id ` set (filter (media_hit s t i) (media ?d)) \<longleftrightarrow> mt_media l \<noteq> i" for l
    using hit r by auto
  then have links': "linked ?d' i' j \<longleftrightarrow> linked ?d i' j" if "i' \<noteq> i" for i' j
    unfolding d' using that by (auto simp: linked_def mt_key_def image_iff)
  have "media_get X t ?d i = Some (media_item X t ?d r)"
    using r by (auto simp: media_get_Some [OF inv])
  moreover have "media_get X t ?d' = (media_get X t ?d)(i := None)"
  proof
    fix i'
    show "media_get X t ?d' i' = ((media_get X t ?d)(i := None)) i'"
    proof (cases "i' = i")
      case True
      then show ?thesis by (auto simp: media_get_None media_exists_def media')
    next
      case False
      have "media_item X t ?d' q = media_item X t ?d q" if "md_id q = i'" for q
        using links' [OF False] that by (intro media_item_cong [OF tags']) simp
      moreover have "find (\<lambda>r. md_tenant r = t \<and> md_id r = i') (media ?d')
          = find (\<lambda>r. md_tenant r = t \<and> md_id r = i') (media ?d)"
        unfolding media' using False by (intro find_filter) auto
      ultimately have "media_get X t ?d' i' = media_get X t ?d i'"
        unfolding media_get_def
        by (cases "find (\<lambda>r. md_tenant r = t \<and> md_id r = i') (media ?d)") (auto dest!: find_Some_in)
      with False show ?thesis by simp
    qed
  qed
  ultimately show ?thesis using p by (auto simp: media_item_def)
qed

lemma sql_tags_any_ids:
  assumes "rls s t"
  shows "tg_id ` set (sql_tags_any s t ids d) = {j \<in> set ids. \<exists>r \<in> set (tags d). tg_id r = j \<and> tg_tenant r = t}"
  using assms by (auto simp: sql_tags_any_def)

text \<open>Counting tells whether all the ids exist.\<close>

lemma tags_any_count:
  assumes inv: "db_inv d" and rls: "rls s t" and "length ids \<le> length (sql_tags_any s t ids d)"
  shows "\<forall>j \<in> set ids. \<exists>r \<in> set (tags d). tg_id r = j \<and> tg_tenant r = t"
proof -
  have "distinct (map tg_id (sql_tags_any s t ids d))"
    using db_inv_D(1) [OF inv] by (simp add: sql_tags_any_def distinct_map_filter)
  then have "length (sql_tags_any s t ids d) = card (tg_id ` set (sql_tags_any s t ids d))"
    by (metis distinct_card length_map list.set_map)
  moreover have "tg_id ` set (sql_tags_any s t ids d) \<subseteq> set ids"
    by (auto simp: sql_tags_any_ids [OF rls])
  moreover have "card (set ids) \<le> length ids" by (rule card_length)
  ultimately have "tg_id ` set (sql_tags_any s t ids d) = set ids"
    using assms(3) by (intro card_seteq) auto
  then show ?thesis unfolding sql_tags_any_ids [OF rls] by blast
qed

lemma attach_effect:
  assumes rls: "rls s t" and "sql_attach_tags s t i ids d = Inr (n, d')"
  shows "tags d' = tags d \<and> media d' = media d \<and> n \<le> length (sql_tags_any s t ids d) \<and>
    (\<forall>i' j. linked d' i' j \<longleftrightarrow> linked d i' j \<or> i' = i \<and> j \<in> set ids
      \<and> (\<exists>r \<in> set (tags d). tg_id r = j \<and> tg_tenant r = t))"
proof -
  define new where "new = filter (\<lambda>r. (i, tg_id r) \<notin> mt_key ` set (media_tags d)) (sql_tags_any s t ids d)"
  have n: "n = length new" and d': "d' = d\<lparr>media_tags := media_tags d @
      map (\<lambda>j. \<lparr>mt_tenant = t, mt_media = i, mt_tag = j\<rparr>) (map tg_id new)\<rparr>"
    using assms(2) by (simp_all add: sql_attach_tags_def Let_def new_def o_def split: if_splits)
  have "linked d' i' j \<longleftrightarrow> linked d i' j \<or> i' = i \<and> j \<in> tg_id ` set (sql_tags_any s t ids d)" for i' j
    unfolding d' linked_append by (auto simp: new_def linked_def)
  moreover have "n \<le> length (sql_tags_any s t ids d)" by (simp add: n new_def)
  ultimately show ?thesis unfolding sql_tags_any_ids [OF rls] by (simp add: d')
qed

lemma AttachTags_tx_Inr:
  assumes inv: "db_inv (w_db w)" and rls: "rls s t" and run: "AttachTags_tx i ids s t w = (Inr (), w')"
  shows "media_exists (w_db w) t i \<and> tags (w_db w') = tags (w_db w) \<and> media (w_db w') = media (w_db w) \<and>
    (\<forall>i' j. linked (w_db w') i' j \<longleftrightarrow> linked (w_db w) i' j \<or> i' = i \<and> j \<in> set ids) \<and>
    (\<forall>j \<in> set ids. \<exists>r \<in> set (tags (w_db w)). tg_id r = j \<and> tg_tenant r = t)"
proof (cases "ids = []")
  case True
  with run show ?thesis
    by (auto simp: AttachTags_tx_def and_then_Inr dest!: db_query_InrD media_hit_exists split: if_splits)
next
  case False
  with run obtain n where ex: "media_exists (w_db w) t i"
    and att: "sql_attach_tags s t i ids (w_db w) = Inr (n, w_db w')"
    and count: "n < length ids \<longrightarrow> length ids \<le> length (sql_tags_any s t ids (w_db w'))"
    by (auto simp: AttachTags_tx_def and_then_Inr not_less
        dest!: db_query_InrD media_hit_exists db_exec_InrD split: if_splits)
  note E = attach_effect [OF rls att]
  have "sql_tags_any s t ids (w_db w') = sql_tags_any s t ids (w_db w)" using E by (simp add: sql_tags_any_def)
  with count E have "length ids \<le> length (sql_tags_any s t ids (w_db w))" by (cases "n < length ids") auto
  from tags_any_count [OF inv rls this] E ex show ?thesis by auto
qed

lemma DetachTag_tx_Inr:
  assumes rls: "rls s t" and inv: "db_inv (w_db w)" and run: "DetachTag_tx i j s t w = (Inr (), w')"
  shows "media_exists (w_db w) t i \<and> tags (w_db w') = tags (w_db w) \<and> media (w_db w') = media (w_db w) \<and>
    (\<forall>i' j'. linked (w_db w') i' j' \<longleftrightarrow> linked (w_db w) i' j' \<and> \<not> (i' = i \<and> j' = j))"
proof -
  from run obtain n where ex: "media_exists (w_db w) t i"
    and det: "sql_detach_tag s t i j (w_db w) = Inr (n, w_db w')"
    by (auto simp: DetachTag_tx_def and_then_Inr dest!: db_query_InrD media_hit_exists db_exec_InrD split: if_splits)
  have d': "w_db w' = (w_db w)\<lparr>media_tags := filter (\<lambda>l. \<not> (rls s (mt_tenant l) \<and> mt_media l = i
      \<and> mt_tag l = j \<and> mt_tenant l = t)) (media_tags (w_db w))\<rparr>"
    using det by (auto simp: sql_detach_tag_def Let_def)
  have "mt_tenant l = t" if "l \<in> set (media_tags (w_db w))" "mt_media l = i" for l
    using ex link_tenants(1) [OF inv that(1)] that(2) by (auto simp: media_exists_def)
  then have "linked (w_db w') i' j' \<longleftrightarrow> linked (w_db w) i' j' \<and> \<not> (i' = i \<and> j' = j)" for i' j'
    unfolding d' linked_def mt_key_def using rls by auto
  with ex show ?thesis by (simp add: d')
qed

section \<open>The repository implements the contract\<close>

text \<open>Each matching item of the tenant once.\<close>

lemma all_media_spec:
  assumes "db_inv d"
  shows "distinct (map media_ID (all_media X t d f))"
    "set (all_media X t d f) = {m. \<exists>r \<in> set (media d). md_tenant r = t \<and> media_matches t d f r
                   \<and> media_get X t d (md_id r) = Some m}"
proof -
  show "distinct (map media_ID (all_media X t d f))"
    using db_inv_D(3) [OF assms] by (simp add: all_media_def listed_def o_def media_item_def distinct_map inj_on_def)
  have "media_get X t d (md_id r) = Some (media_item X t d r)" if "r \<in> set (media d)" "md_tenant r = t" for r
    using that by (auto simp: media_get_Some [OF assms])
  then show "set (all_media X t d f) = {m. \<exists>r \<in> set (media d). md_tenant r = t \<and> media_matches t d f r
                   \<and> media_get X t d (md_id r) = Some m}"
    by (auto simp: all_media_def listed_set)
qed

definition PostgresMediaRepo :: "Ext \<Rightarrow> World MediaRepository" where
  "PostgresMediaRepo X =
     \<lparr>mr_Create = MediaRepo_Create X, mr_GetByID = MediaRepo_GetByID X, mr_List = MediaRepo_List X,
      mr_Delete = MediaRepo_Delete, mr_AttachTags = MediaRepo_AttachTags,
      mr_DetachTag = MediaRepo_DetachTag\<rparr>"

lemma PostgresMediaRepo_sel [simp]:
  "mr_Create (PostgresMediaRepo X) = MediaRepo_Create X"
  "mr_GetByID (PostgresMediaRepo X) = MediaRepo_GetByID X"
  "mr_List (PostgresMediaRepo X) = MediaRepo_List X"
  "mr_Delete (PostgresMediaRepo X) = MediaRepo_Delete"
  "mr_AttachTags (PostgresMediaRepo X) = MediaRepo_AttachTags"
  "mr_DetachTag (PostgresMediaRepo X) = MediaRepo_DetachTag"
  by (simp_all add: PostgresMediaRepo_def)

definition ctx_media :: "Ext \<Rightarrow> Ctx \<Rightarrow> World \<Rightarrow> uuid \<rightharpoonup> Media" where
  "ctx_media X ctx w =
     (case TenantIDFromContext ctx of Inl _ \<Rightarrow> Map.empty | Inr t \<Rightarrow> media_get X t (w_db w))"

text \<open>An operation that is safe for the tenant of its context keeps the invariant.\<close>

lemma tenant_op_inv:
  assumes "\<And>t d0. TenantIDFromContext ctx = Inr t \<Longrightarrow> db_keeps (tenant_safe t d0) (withTenantTx ctx fn)"
  shows "db_keeps db_inv (withTenantTx ctx fn)"
proof (rule keepsI)
  fix w r w' assume inv: "db_inv (w_db w)" and run: "withTenantTx ctx fn w = (r, w')"
  show "db_inv (w_db w')"
  proof (cases "TenantIDFromContext ctx")
    case (Inl e)
    with run inv show ?thesis by (simp add: withTenantTx_def)
  next
    case (Inr t)
    from keepsD [OF assms [OF this, of "w_db w"] _ run] inv show ?thesis by (simp add: tenant_safe_def)
  qed
qed

lemma keeps_inv_MediaRepo [preserves]:
  "db_keeps db_inv (MediaRepo_Create X ctx m ids)" "db_keeps db_inv (MediaRepo_GetByID X ctx i)"
  "db_keeps db_inv (MediaRepo_List X ctx limit cursor f)" "db_keeps db_inv (MediaRepo_Delete ctx i)"
  "db_keeps db_inv (MediaRepo_AttachTags ctx i ids)" "db_keeps db_inv (MediaRepo_DetachTag ctx i j)"
  unfolding MediaRepo_defs by (rule tenant_op_inv, erule safe_MediaRepo [unfolded MediaRepo_defs])+

lemma ctx_media_tx:
  assumes "TenantIDFromContext ctx = Inr t" "w_db w2 = w_db w"
  shows "ctx_media X ctx w = media_get X t (w_db w2)"
  using assms by (simp add: ctx_media_def)

lemma ctx_media_atomic:
  "tx_atomic f \<Longrightarrow> f w = (Inl e, w') \<Longrightarrow> ctx_media X ctx w' = ctx_media X ctx w \<or> lost_ack w"
proof -
  assume "tx_atomic f" "f w = (Inl e, w')"
  then have "w_db w' = w_db w \<or> lost_ack w" unfolding tx_atomic_def by blast
  then show "ctx_media X ctx w' = ctx_media X ctx w \<or> lost_ack w"
    by (elim disjE) (simp_all add: ctx_media_def split: sum.split)
qed

interpretation pg_media: media_repository "PostgresMediaRepo X" ctx "\<lambda>w. db_inv (w_db w)"
  "ctx_media X ctx" lost_ack
  for X ctx
proof (unfold_locales, unfold PostgresMediaRepo_sel)
  fix w m ids m' w' assume inv: "db_inv (w_db w)" and run: "MediaRepo_Create X ctx m ids w = (Inr m', w')"
  show "ctx_media X ctx w (media_ID m') = None \<and>
      ctx_media X ctx w' = (ctx_media X ctx w)(media_ID m' \<mapsto> m') \<and>
      m' = m\<lparr>media_ID := media_ID m', media_CreatedAt := media_CreatedAt m', media_Tags := media_Tags m'\<rparr> \<and>
      tag_ID ` set (media_Tags m') \<subseteq> set ids"
    using run unfolding MediaRepo_Create_def
  proof (rule withTenantTx_Inr)
    fix t w2 w3 assume t: "TenantIDFromContext ctx = Inr t" and w: "w_db w2 = w_db w" "w_db w' = w_db w3"
      and run': "MediaCreate_tx X m ids (tenant_session w t) t w2 = (Inr m', w3)"
    from MediaCreate_tx_Inr [OF _ rls_tenant run'] inv w t show ?thesis
      by (auto simp: ctx_media_def)
  qed (intro frame)
next
  fix w i m w' assume inv: "db_inv (w_db w)" and run: "MediaRepo_GetByID X ctx i w = (Inr m, w')"
  show "ctx_media X ctx w i = Some m \<and> ctx_media X ctx w' = ctx_media X ctx w"
    using run unfolding MediaRepo_GetByID_def
  proof (rule withTenantTx_Inr)
    fix t w2 w3 assume t: "TenantIDFromContext ctx = Inr t" and w: "w_db w2 = w_db w" "w_db w' = w_db w3"
      and run': "GetByID_tx X i (tenant_session w t) t w2 = (Inr m, w3)"
    from GetByID_tx_Inr [OF _ rls_tenant run'] inv w t show ?thesis by (simp add: ctx_media_def)
  qed (intro frame)
next
  fix w i p w' assume inv: "db_inv (w_db w)" and run: "MediaRepo_Delete ctx i w = (Inr p, w')"
  show "\<exists>m. ctx_media X ctx w i = Some m \<and> p = media_FilePath m
      \<and> ctx_media X ctx w' = (ctx_media X ctx w)(i := None)"
    using run unfolding MediaRepo_Delete_def
  proof (rule withTenantTx_Inr)
    fix t w2 w3 assume t: "TenantIDFromContext ctx = Inr t" and w: "w_db w2 = w_db w" "w_db w' = w_db w3"
      and run': "MediaDelete_tx i (tenant_session w t) t w2 = (Inr p, w3)"
    from MediaDelete_tx_Inr [OF _ rls_tenant run', of X] inv w t show ?thesis by (simp add: ctx_media_def)
  qed (intro frame)
next
  fix w i ids w' assume inv: "db_inv (w_db w)" and run: "MediaRepo_AttachTags ctx i ids w = (Inr (), w')"
  have inv': "db_inv (w_db w')" using keepsD [OF keeps_inv_MediaRepo(5) _ run] inv by simp
  show "\<exists>m ts. ctx_media X ctx w i = Some m \<and> ctx_media X ctx w' = (ctx_media X ctx w)(i \<mapsto> m\<lparr>media_Tags := ts\<rparr>)
      \<and> tag_ID ` set ts = tag_ID ` set (media_Tags m) \<union> set ids"
    using run unfolding MediaRepo_AttachTags_def
  proof (rule withTenantTx_Inr)
    fix t w2 w3 assume t: "TenantIDFromContext ctx = Inr t" and w: "w_db w2 = w_db w" "w_db w' = w_db w3"
      and run: "AttachTags_tx i ids (tenant_session w t) t w2 = (Inr (), w3)"
    from AttachTags_tx_Inr [OF _ rls_tenant run] inv w
    have ex: "media_exists (w_db w) t i" and same: "media (w_db w') = media (w_db w)" "tags (w_db w') = tags (w_db w)"
      and links: "\<And>i' j. linked (w_db w') i' j \<longleftrightarrow> linked (w_db w) i' j \<or> i' = i \<and> j \<in> set ids" by simp_all
    have "media_get X t (w_db w) i \<noteq> None" using ex by (simp add: media_get_None)
    then obtain m where m: "media_get X t (w_db w) i = Some m" by blast
    then have "media_Tags m = tags_of X t (w_db w) i"
      by (auto simp: media_get_Some [OF inv] media_item_def)
    moreover have "media_exists (w_db w') t i" using ex same by (simp add: media_exists_def)
    ultimately have "tag_ID ` set (tags_of X t (w_db w') i) = tag_ID ` set (media_Tags m) \<union> set ids"
      by (auto simp: tags_of_ids [OF inv'] tags_of_ids [OF inv ex] links)
    with media_get_relink [OF inv inv' same _ m] links m t show ?thesis
      by (intro exI [of _ m] exI [of _ "tags_of X t (w_db w') i"]) (simp add: ctx_media_def)
  qed (intro frame)
next
  fix w i j w' assume inv: "db_inv (w_db w)" and run: "MediaRepo_DetachTag ctx i j w = (Inr (), w')"
  have inv': "db_inv (w_db w')" using keepsD [OF keeps_inv_MediaRepo(6) _ run] inv by simp
  show "\<exists>m ts. ctx_media X ctx w i = Some m \<and> ctx_media X ctx w' = (ctx_media X ctx w)(i \<mapsto> m\<lparr>media_Tags := ts\<rparr>)
      \<and> tag_ID ` set ts = tag_ID ` set (media_Tags m) - {j}"
    using run unfolding MediaRepo_DetachTag_def
  proof (rule withTenantTx_Inr)
    fix t w2 w3 assume t: "TenantIDFromContext ctx = Inr t" and w: "w_db w2 = w_db w" "w_db w' = w_db w3"
      and run: "DetachTag_tx i j (tenant_session w t) t w2 = (Inr (), w3)"
    from DetachTag_tx_Inr [OF rls_tenant _ run] inv w
    have ex: "media_exists (w_db w) t i" and same: "media (w_db w') = media (w_db w)" "tags (w_db w') = tags (w_db w)"
      and links: "\<And>i' j'. linked (w_db w') i' j' \<longleftrightarrow> linked (w_db w) i' j' \<and> \<not> (i' = i \<and> j' = j)" by simp_all
    have "media_get X t (w_db w) i \<noteq> None" using ex by (simp add: media_get_None)
    then obtain m where m: "media_get X t (w_db w) i = Some m" by blast
    then have "media_Tags m = tags_of X t (w_db w) i"
      by (auto simp: media_get_Some [OF inv] media_item_def)
    moreover have "media_exists (w_db w') t i" using ex same by (simp add: media_exists_def)
    ultimately have "tag_ID ` set (tags_of X t (w_db w') i) = tag_ID ` set (media_Tags m) - {j}"
      by (auto simp: tags_of_ids [OF inv'] tags_of_ids [OF inv ex] links)
    with media_get_relink [OF inv inv' same _ m] links m t show ?thesis
      by (intro exI [of _ m] exI [of _ "tags_of X t (w_db w') i"]) (simp add: ctx_media_def)
  qed (intro frame)
next
  fix w i m assume "db_inv (w_db w)" "ctx_media X ctx w i = Some m"
  then show "media_ID m = i" by (auto simp: ctx_media_def media_get_Some media_item_def split: sum.splits)
qed (intro preserves ctx_media_atomic [OF tx_atomic_MediaRepo(1)]
    ctx_media_atomic [OF tx_atomic_MediaRepo(4)]; assumption)+

end
