(* ===== verification/Sanitize.thy ===== *)
theory Sanitize
  imports Domain
begin

text \<open>
  \<^verbatim>\<open>internal/service/sanitize.go\<close>: the pipeline every tag and media name goes through.
  NFC normalisation (\<^verbatim>\<open>golang.org/x/text/unicode/norm\<close>) is a parameter \<open>nfc\<close> on
  sequences of code points; everything else is modelled.
\<close>

definition maxTagsPerMedia :: nat where "maxTagsPerMedia = 50"
definition maxTagNameLength :: nat where "maxTagNameLength = 255"

section \<open>Rune classes\<close>

text \<open>\<^verbatim>\<open>unicode.IsControl\<close>: the category Cc.\<close>

definition is_control :: "rune \<Rightarrow> bool" where
  "is_control r \<longleftrightarrow> r \<le> 0x1F \<or> (0x7F \<le> r \<and> r \<le> 0x9F)"

definition isUnsafeRune :: "rune \<Rightarrow> bool" where
  "isUnsafeRune r =
     (if is_control r \<and> r \<noteq> 0x09 \<and> r \<noteq> 0x0A \<and> r \<noteq> 0x0D then True
      else if r = 0x200B then True
      else if r = 0x200C then True
      else if r = 0x200D then True
      else if r = 0x200E then True
      else if r = 0x200F then True
      else if r = 0xFEFF then True
      else if r \<ge> 0x202A \<and> r \<le> 0x202E then True
      else if r \<ge> 0x2066 \<and> r \<le> 0x2069 then True
      else if r \<ge> 0xFFF9 \<and> r \<le> 0xFFFB then True
      else if r = 0xFFFD then True
      else if r \<ge> 0xE0001 \<and> r \<le> 0xE007F then True
      else False)"

text \<open>The character class of the regular expression \<^verbatim>\<open>unicodeWhitespace\<close>.\<close>

definition unicodeWhitespace :: "rune \<Rightarrow> bool" where
  "unicodeWhitespace r \<longleftrightarrow>
     r = 0x00A0 \<or> (0x2000 \<le> r \<and> r \<le> 0x200A) \<or> r = 0x2028 \<or> r = 0x2029 \<or> r = 0x202F
     \<or> r = 0x205F \<or> r = 0x3000"

text \<open>Go's \<^verbatim>\<open>\s\<close>: tab, newline, form feed, carriage return, space.\<close>

definition re_space :: "rune \<Rightarrow> bool" where
  "re_space r \<longleftrightarrow> r = 0x09 \<or> r = 0x0A \<or> r = 0x0C \<or> r = 0x0D \<or> r = 0x20"

text \<open>\<^verbatim>\<open>unicode.IsSpace\<close>, which \<^verbatim>\<open>strings.TrimSpace\<close> trims.\<close>

definition is_space :: "rune \<Rightarrow> bool" where
  "is_space r \<longleftrightarrow>
     (0x09 \<le> r \<and> r \<le> 0x0D) \<or> r = 0x20 \<or> r = 0x85 \<or> r = 0xA0 \<or> r = 0x1680
     \<or> (0x2000 \<le> r \<and> r \<le> 0x200A) \<or> r = 0x2028 \<or> r = 0x2029 \<or> r = 0x202F \<or> r = 0x205F
     \<or> r = 0x3000"

section \<open>The pipeline\<close>

definition replace_unicode_whitespace :: "rune list \<Rightarrow> rune list" where
  "replace_unicode_whitespace rs = map (\<lambda>r. if unicodeWhitespace r then 0x20 else r) rs"

definition replace_tabs_newlines :: "rune list \<Rightarrow> rune list" where
  "replace_tabs_newlines rs = map (\<lambda>r. if r = 0x09 \<or> r = 0x0A \<or> r = 0x0D then 0x20 else r) rs"

text \<open>
  \<^verbatim>\<open>multipleSpaces.ReplaceAllString(s, " ")\<close>: each maximal run of two or more
  \<^verbatim>\<open>\s\<close> becomes one space, a single one stays what it is.
\<close>

function multipleSpaces :: "rune list \<Rightarrow> rune list" where
  "multipleSpaces [] = []"
| "multipleSpaces (r # rs) =
     (if re_space r
      then (if takeWhile re_space rs = [] then r else 0x20) # multipleSpaces (dropWhile re_space rs)
      else r # multipleSpaces rs)"
  by pat_completeness auto
termination
  by (relation "measure length") (auto simp: le_imp_less_Suc length_dropWhile_le)

definition trim_space :: "rune list \<Rightarrow> rune list" where
  "trim_space rs = rev (dropWhile is_space (rev (dropWhile is_space rs)))"

text \<open>\<^verbatim>\<open>%04X\<close>: upper-case hexadecimal, at least four digits.\<close>

definition hex_digit :: "nat \<Rightarrow> char" where
  "hex_digit d = (if d < 10 then char_of (48 + d) else char_of (55 + d))"

definition fmt_04X :: "rune \<Rightarrow> string" where
  "fmt_04X r =
     (let ds = map (\<lambda>k. hex_digit (r div 16 ^ k mod 16)) (rev [0..<6])
      in drop (if r < 0x10000 then 2 else if r < 0x100000 then 1 else 0) ds)"

fun first_unsafe :: "rune list \<Rightarrow> rune option" where
  "first_unsafe [] = None"
| "first_unsafe (r # rs) = (if isUnsafeRune r then Some r else first_unsafe rs)"

definition SanitizeName :: "(rune list \<Rightarrow> rune list) \<Rightarrow> string \<Rightarrow> goerr + string" where
  "SanitizeName nfc s =
     (case utf8_decode s of
        None \<Rightarrow> Inl (Errorf '''' ErrValidation '': name contains invalid UTF-8 sequences'')
      | Some rs0 \<Rightarrow>
        (let rs1 = nfc rs0;
             rs2 = replace_unicode_whitespace rs1;
             rs3 = replace_tabs_newlines rs2;
             rs4 = multipleSpaces rs3;
             rs5 = trim_space rs4
         in case first_unsafe rs5 of
              Some r \<Rightarrow> Inl (Errorf '''' ErrValidation ('': name contains disallowed character U+'' @ fmt_04X r))
            | None \<Rightarrow>
              if rs5 = [] then Inl (Errorf '''' ErrValidation '': name is required'')
              else if length (utf8_encode rs5) > maxTagNameLength
              then Inl (Errorf '''' ErrValidation '': name must not exceed 255 characters'')
              else Inr (utf8_encode rs5)))"

section \<open>What NFC is assumed to do\<close>

text \<open>
  Documented behaviour of Unicode normalisation form C (UAX #15): it is idempotent, maps
  scalar values to scalar values, leaves the empty text empty, never creates or removes a white
  space, and white space is a normalisation boundary on both sides (a white space composes
  with nothing); U+2000 and U+2001 are the only white spaces with a canonical mapping (to
  U+2002 and U+2003).
\<close>

definition nfc_spec :: "(rune list \<Rightarrow> rune list) \<Rightarrow> bool" where
  "nfc_spec nfc \<longleftrightarrow>
     (\<forall>rs. nfc (nfc rs) = nfc rs)
   \<and> (\<forall>rs. list_all valid_rune rs \<longrightarrow> list_all valid_rune (nfc rs))
   \<and> (\<forall>rs. (\<exists>r \<in> set (nfc rs). is_space r) \<longrightarrow> (\<exists>r \<in> set rs. is_space r))
   \<and> (\<forall>xs w ys. is_space w \<longrightarrow> nfc (xs @ w # ys) = nfc xs @ nfc [w] @ nfc ys)
   \<and> (\<forall>w. is_space w \<longrightarrow> (\<exists>w'. nfc [w] = [w'] \<and> is_space w'))
   \<and> (\<forall>w. is_space w \<longrightarrow> w \<noteq> 0x2000 \<longrightarrow> w \<noteq> 0x2001 \<longrightarrow> nfc [w] = [w])"

lemma nfc_spec_id: "nfc_spec (\<lambda>rs. rs)"
  by (auto simp: nfc_spec_def)

section \<open>Collapsing and trimming\<close>

abbreviation no_double :: "rune list \<Rightarrow> bool" where
  "no_double rs \<equiv> successively (\<lambda>a b. \<not> (re_space a \<and> re_space b)) rs"

lemma multipleSpaces_eq_Nil [simp]: "multipleSpaces rs = [] \<longleftrightarrow> rs = []"
  by (cases rs) auto

lemma multipleSpaces_hd: "rs \<noteq> [] \<Longrightarrow> re_space (hd (multipleSpaces rs)) = re_space (hd rs)"
  by (cases rs) (auto simp: re_space_def)

lemma multipleSpaces_no_double: "no_double (multipleSpaces rs)"
proof (induction rs rule: multipleSpaces.induct)
  case (2 r rs)
  show ?case
  proof (cases "re_space r")
    case True
    have "\<not> re_space (hd (multipleSpaces (dropWhile re_space rs)))" if "dropWhile re_space rs \<noteq> []"
      using that by (simp only: multipleSpaces_hd hd_dropWhile simp_thms)
    then show ?thesis
      using True 2 by (cases "dropWhile re_space rs = []") (simp_all add: successively_Cons del: dropWhile_eq_Nil_conv)
  next
    case False
    with 2 show ?thesis by (auto simp: successively_Cons)
  qed
qed simp

lemma multipleSpaces_fix: "no_double rs \<Longrightarrow> multipleSpaces rs = rs"
proof (induction rs rule: multipleSpaces.induct)
  case (2 r rs)
  then show ?case by (cases rs) (auto simp: successively_Cons)
qed simp

lemma multipleSpaces_set: "set (multipleSpaces rs) \<subseteq> insert 0x20 (set rs)"
  by (induction rs rule: multipleSpaces.induct) (auto dest: set_dropWhileD)

lemma trim_space_split:
  obtains as bs where "rs = as @ trim_space rs @ bs" and "list_all is_space as" and "list_all is_space bs"
proof -
  let ?m = "dropWhile is_space rs"
  have "rs = takeWhile is_space rs @ trim_space rs @ rev (takeWhile is_space (rev ?m))"
    unfolding trim_space_def by (metis rev_append rev_rev_ident takeWhile_dropWhile_id)
  moreover have "list_all is_space (takeWhile is_space rs)"
    and "list_all is_space (rev (takeWhile is_space (rev ?m)))"
    by (auto simp: list_all_iff dest: set_takeWhileD)
  ultimately show thesis by (rule that)
qed

lemma trim_space_ends:
  assumes "trim_space rs \<noteq> []"
  shows "\<not> is_space (hd (trim_space rs))" and "\<not> is_space (last (trim_space rs))"
proof -
  let ?m = "dropWhile is_space rs"
  from assms have ne: "dropWhile is_space (rev ?m) \<noteq> []" by (simp add: trim_space_def)
  then show "\<not> is_space (last (trim_space rs))"
    by (simp add: trim_space_def last_rev hd_dropWhile)
  from ne have "?m \<noteq> []" by (metis dropWhile.simps(1) rev.simps(1))
  then have "\<not> is_space (hd ?m)" by (rule hd_dropWhile)
  moreover have "hd (trim_space rs) = hd ?m"
  proof -
    have "?m = trim_space rs @ rev (takeWhile is_space (rev ?m))"
      unfolding trim_space_def by (metis rev_append rev_rev_ident takeWhile_dropWhile_id)
    with assms show ?thesis by (metis hd_append2)
  qed
  ultimately show "\<not> is_space (hd (trim_space rs))" by simp
qed

lemma trim_space_fix:
  assumes "rs \<noteq> []" and "\<not> is_space (hd rs)" and "\<not> is_space (last rs)"
  shows "trim_space rs = rs"
proof -
  from assms have "dropWhile is_space rs = rs" and "dropWhile is_space (rev rs) = rev rs"
    by (simp_all only: dropWhile_eq_self_iff hd_rev simp_thms)
  then show ?thesis by (simp only: trim_space_def rev_rev_ident)
qed

lemma trim_space_set: "set (trim_space rs) \<subseteq> set rs"
  by (auto simp: trim_space_def dest!: set_dropWhileD)

lemma trim_space_no_double: "no_double rs \<Longrightarrow> no_double (trim_space rs)"
  by (rule trim_space_split [of rs]) (metis successively_append_iff)

lemma first_unsafe_None: "first_unsafe rs = None \<longleftrightarrow> (\<forall>r \<in> set rs. \<not> isUnsafeRune r)"
  by (induction rs) auto

lemma first_unsafe_Some: "first_unsafe rs = Some r \<Longrightarrow> r \<in> set rs \<and> isUnsafeRune r"
  by (induction rs) (auto split: if_splits)

section \<open>Words between white spaces, and what NFC does to them\<close>

fun words_of :: "rune list \<Rightarrow> rune list list" where
  "words_of [] = [[]]"
| "words_of (r # rs) =
     (if is_space r then [] # words_of rs
      else (r # hd (words_of rs)) # tl (words_of rs))"

lemma words_of_nonempty [simp]: "words_of rs \<noteq> []"
  by (cases rs) auto

lemma set_words_of: "set (words_of rs) = insert (hd (words_of rs)) (set (tl (words_of rs)))"
  by (metis list.collapse list.simps(15) words_of_nonempty)

lemma words_of_no_space: "(\<And>r. r \<in> set xs \<Longrightarrow> \<not> is_space r) \<Longrightarrow> words_of xs = [xs]"
  by (induction xs) auto

lemma words_of_append: "is_space w \<Longrightarrow> words_of (xs @ w # ys) = words_of xs @ words_of ys"
  by (induction xs) auto

lemma words_of_map:
  "(\<And>r. is_space r \<Longrightarrow> is_space (f r)) \<Longrightarrow> (\<And>r. \<not> is_space r \<Longrightarrow> f r = r) \<Longrightarrow>
    words_of (map f rs) = words_of rs"
  by (induction rs) auto

lemma words_of_dropWhile:
  "(\<And>r. P r \<Longrightarrow> is_space r) \<Longrightarrow> set (words_of (dropWhile P rs)) \<subseteq> set (words_of rs)"
  by (induction rs) auto

lemma re_space_is_space: "re_space r \<Longrightarrow> is_space r"
  by (auto simp: re_space_def is_space_def)

lemma words_of_multipleSpaces:
  "hd (words_of (multipleSpaces rs)) = hd (words_of rs) \<and>
   set (tl (words_of (multipleSpaces rs))) \<subseteq> set (tl (words_of rs))"
proof (induction rs rule: multipleSpaces.induct)
  case (2 r rs)
  show ?case
  proof (cases "re_space r")
    case True
    have sp: "is_space 32" by (simp add: is_space_def)
    from 2(1) True have "set (words_of (multipleSpaces (dropWhile re_space rs)))
        \<subseteq> set (words_of (dropWhile re_space rs))"
      by (subst (1 2) set_words_of) auto
    also have "\<dots> \<subseteq> set (words_of rs)"
      by (rule words_of_dropWhile) (rule re_space_is_space)
    finally show ?thesis using True sp re_space_is_space by auto
  next
    case False
    then show ?thesis using 2(2) set_words_of [of rs] set_words_of [of "multipleSpaces rs"] by auto
  qed
qed simp

lemma words_of_trim: "set (words_of (trim_space rs)) \<subseteq> set (words_of rs)"
proof -
  obtain as bs where r: "rs = as @ trim_space rs @ bs" and as: "list_all is_space as"
    and bs: "list_all is_space bs" by (rule trim_space_split)
  have pre: "set (words_of ys) \<subseteq> set (words_of (as @ ys))" for ys
    using as by (induction as) auto
  have "set (words_of (trim_space rs)) \<subseteq> set (words_of (trim_space rs @ bs))"
    using bs by (cases bs) (auto simp: words_of_append)
  with pre [of "trim_space rs @ bs"] r show ?thesis by auto
qed

lemma nfc_words_stable:
  assumes "nfc_spec nfc"
  shows "\<forall>w \<in> set (words_of (nfc rs)). nfc w = w"
proof (induction rs rule: length_induct)
  case (1 rs)
  show ?case
  proof (cases "\<exists>r \<in> set rs. is_space r")
    case True
    then obtain xs w ys where rs: "rs = xs @ w # ys" and w: "is_space w"
      and xs: "\<forall>r \<in> set xs. \<not> is_space r"
      using split_list_first_prop [of rs is_space] by auto
    from assms w obtain w' where w': "nfc [w] = [w']" "is_space w'" by (auto simp: nfc_spec_def)
    from assms w w' rs have "nfc rs = nfc xs @ w' # nfc ys" by (simp add: nfc_spec_def)
    moreover from assms xs have "words_of (nfc xs) = [nfc xs]"
      by (intro words_of_no_space) (auto simp: nfc_spec_def)
    moreover from 1 [rule_format, of ys] rs have "\<forall>w \<in> set (words_of (nfc ys)). nfc w = w" by simp
    ultimately show ?thesis using assms w' by (simp add: words_of_append nfc_spec_def)
  next
    case False
    with assms have "words_of (nfc rs) = [nfc rs]"
      by (intro words_of_no_space) (auto simp: nfc_spec_def)
    with assms show ?thesis by (simp add: nfc_spec_def)
  qed
qed

lemma nfc_stable_of_words:
  assumes "nfc_spec nfc"
    and "\<forall>w \<in> set (words_of rs). nfc w = w"
    and "\<forall>r \<in> set rs. is_space r \<longrightarrow> r \<noteq> 0x2000 \<and> r \<noteq> 0x2001"
  shows "nfc rs = rs"
  using assms(2,3)
proof (induction rs rule: length_induct)
  case (1 rs)
  show ?case
  proof (cases "\<exists>r \<in> set rs. is_space r")
    case True
    then obtain xs w ys where rs: "rs = xs @ w # ys" and w: "is_space w"
      and xs: "\<forall>r \<in> set xs. \<not> is_space r"
      using split_list_first_prop [of rs is_space] by auto
    from assms(1) w 1(3) rs have "nfc rs = nfc xs @ w # nfc ys" by (simp add: nfc_spec_def)
    moreover from 1(2) rs w xs have "nfc xs = xs" by (simp add: words_of_append words_of_no_space)
    moreover from 1(1) [rule_format, of ys] 1(2,3) rs w have "nfc ys = ys" by (simp add: words_of_append)
    ultimately show ?thesis using rs by simp
  next
    case False
    then have "words_of rs = [rs]" by (intro words_of_no_space) auto
    with 1(2) show ?thesis by simp
  qed
qed

section \<open>Canonical names\<close>

text \<open>What the pipeline promises of a name it accepts.\<close>

definition canonical_runes :: "rune list \<Rightarrow> bool" where
  "canonical_runes rs \<longleftrightarrow>
     rs \<noteq> [] \<and> list_all valid_rune rs \<and> (\<forall>r \<in> set rs. \<not> isUnsafeRune r)
   \<and> (\<forall>r \<in> set rs. \<not> unicodeWhitespace r \<and> r \<noteq> 0x09 \<and> r \<noteq> 0x0A \<and> r \<noteq> 0x0D)
   \<and> no_double rs \<and> \<not> is_space (hd rs) \<and> \<not> is_space (last rs)
   \<and> length (utf8_encode rs) \<le> maxTagNameLength"

definition normalize_name :: "(rune list \<Rightarrow> rune list) \<Rightarrow> rune list \<Rightarrow> rune list" where
  "normalize_name nfc rs =
     trim_space (multipleSpaces (replace_tabs_newlines (replace_unicode_whitespace (nfc rs))))"

lemma SanitizeName_alt:
  "SanitizeName nfc s =
     (case utf8_decode s of
        None \<Rightarrow> Inl (Errorf '''' ErrValidation '': name contains invalid UTF-8 sequences'')
      | Some rs \<Rightarrow>
        (case first_unsafe (normalize_name nfc rs) of
           Some r \<Rightarrow> Inl (Errorf '''' ErrValidation ('': name contains disallowed character U+'' @ fmt_04X r))
         | None \<Rightarrow>
           if normalize_name nfc rs = [] then Inl (Errorf '''' ErrValidation '': name is required'')
           else if length (utf8_encode (normalize_name nfc rs)) > maxTagNameLength
           then Inl (Errorf '''' ErrValidation '': name must not exceed 255 characters'')
           else Inr (utf8_encode (normalize_name nfc rs))))"
  by (simp only: SanitizeName_def normalize_name_def Let_def)

lemma SanitizeName_error: "SanitizeName nfc s = Inl e \<Longrightarrow> errors_is e ErrValidation"
  by (auto simp: SanitizeName_alt split: option.splits if_splits)

lemma SanitizeName_InrD:
  assumes "SanitizeName nfc s = Inr t"
  obtains rs where "utf8_decode s = Some rs" and "t = utf8_encode (normalize_name nfc rs)"
    and "normalize_name nfc rs \<noteq> []" and "\<forall>r \<in> set (normalize_name nfc rs). \<not> isUnsafeRune r"
    and "length (utf8_encode (normalize_name nfc rs)) \<le> maxTagNameLength"
  using assms by (auto simp: SanitizeName_alt first_unsafe_None split: option.splits if_splits)

lemma normalize_replaced:
  assumes "r \<in> set (normalize_name nfc rs)"
  shows "\<not> unicodeWhitespace r \<and> r \<noteq> 0x09 \<and> r \<noteq> 0x0A \<and> r \<noteq> 0x0D"
proof -
  let ?t = "replace_tabs_newlines (replace_unicode_whitespace (nfc rs))"
  have "r = 0x20 \<or> r \<in> set ?t"
    using assms trim_space_set [of "multipleSpaces ?t"] multipleSpaces_set [of ?t]
    unfolding normalize_name_def by blast
  moreover have "\<not> unicodeWhitespace 0x20" by (simp add: unicodeWhitespace_def)
  ultimately show ?thesis
    by (auto simp: replace_tabs_newlines_def replace_unicode_whitespace_def split: if_splits)
qed

lemma normalize_valid:
  assumes "nfc_spec nfc" and "list_all valid_rune rs"
  shows "list_all valid_rune (normalize_name nfc rs)"
proof -
  have "list_all valid_rune (nfc rs)" using assms by (simp add: nfc_spec_def)
  then have "\<forall>r \<in> set (replace_tabs_newlines (replace_unicode_whitespace (nfc rs))). valid_rune r"
    by (auto simp: list_all_iff replace_tabs_newlines_def replace_unicode_whitespace_def valid_rune_def)
  moreover have "valid_rune 0x20" by (simp add: valid_rune_def)
  ultimately show ?thesis
    using trim_space_set multipleSpaces_set unfolding normalize_name_def list_all_iff by blast
qed

lemma normalize_canonical:
  assumes "nfc_spec nfc" and "list_all valid_rune rs" and "normalize_name nfc rs \<noteq> []"
    and "\<forall>r \<in> set (normalize_name nfc rs). \<not> isUnsafeRune r"
    and "length (utf8_encode (normalize_name nfc rs)) \<le> maxTagNameLength"
  shows "canonical_runes (normalize_name nfc rs)"
  using assms normalize_valid [OF assms(1,2)] trim_space_ends multipleSpaces_no_double
    trim_space_no_double normalize_replaced
  unfolding canonical_runes_def by (metis normalize_name_def)

lemma normalize_words:
  assumes "nfc_spec nfc"
  shows "\<forall>w \<in> set (words_of (normalize_name nfc rs)). nfc w = w"
proof -
  let ?u = "replace_unicode_whitespace (nfc rs)"
  let ?t = "replace_tabs_newlines ?u"
  have "words_of ?u = words_of (nfc rs)" unfolding replace_unicode_whitespace_def
    by (rule words_of_map) (auto simp: is_space_def unicodeWhitespace_def)
  moreover have "words_of ?t = words_of ?u" unfolding replace_tabs_newlines_def
    by (rule words_of_map) (auto simp: is_space_def)
  moreover have "set (words_of (multipleSpaces ?t)) \<subseteq> set (words_of ?t)"
    using words_of_multipleSpaces [of ?t] set_words_of [of ?t]
      set_words_of [of "multipleSpaces ?t"] by auto
  ultimately show ?thesis
    using nfc_words_stable [OF assms] words_of_trim unfolding normalize_name_def by fastforce
qed

text \<open>A canonical text that NFC leaves alone goes through the pipeline unchanged.\<close>

lemma canonical_fixpoint:
  assumes "canonical_runes rs" and "nfc rs = rs"
  shows "SanitizeName nfc (utf8_encode rs) = Inr (utf8_encode rs)"
proof -
  from assms have "replace_unicode_whitespace rs = rs" "replace_tabs_newlines rs = rs"
    by (auto simp: canonical_runes_def replace_unicode_whitespace_def replace_tabs_newlines_def
        intro!: map_idI)
  with assms have "normalize_name nfc rs = rs"
    by (simp add: normalize_name_def canonical_runes_def multipleSpaces_fix trim_space_fix)
  with assms show ?thesis
    by (auto simp: SanitizeName_alt canonical_runes_def utf8_decode_encode first_unsafe_None
        split: option.splits dest!: first_unsafe_Some)
qed

lemma normalize_stable:
  assumes "nfc_spec nfc"
  shows "nfc (normalize_name nfc rs) = normalize_name nfc rs"
proof (rule nfc_stable_of_words [OF assms])
  show "\<forall>w \<in> set (words_of (normalize_name nfc rs)). nfc w = w" by (rule normalize_words [OF assms])
  show "\<forall>r \<in> set (normalize_name nfc rs). is_space r \<longrightarrow> r \<noteq> 0x2000 \<and> r \<noteq> 0x2001"
    by (auto dest!: normalize_replaced simp: unicodeWhitespace_def)
qed

lemma SanitizeName_canonical:
  assumes "nfc_spec nfc" and "SanitizeName nfc s = Inr t"
  obtains rs where "utf8_decode t = Some rs" and "canonical_runes rs" and "nfc rs = rs"
    and "t = utf8_encode rs"
proof -
  from assms(2) obtain rs where rs: "utf8_decode s = Some rs" "t = utf8_encode (normalize_name nfc rs)"
    "normalize_name nfc rs \<noteq> []" "\<forall>r \<in> set (normalize_name nfc rs). \<not> isUnsafeRune r"
    "length (utf8_encode (normalize_name nfc rs)) \<le> maxTagNameLength"
    by (rule SanitizeName_InrD)
  from rs(1) have v: "list_all valid_rune rs" by (rule utf8_decode_valid)
  show thesis
  proof (rule that)
    show "utf8_decode t = Some (normalize_name nfc rs)"
      using rs(2) normalize_valid [OF assms(1) v] by (simp add: utf8_decode_encode)
    show "canonical_runes (normalize_name nfc rs)" by (rule normalize_canonical [OF assms(1) v rs(3-5)])
    show "nfc (normalize_name nfc rs) = normalize_name nfc rs" by (rule normalize_stable [OF assms(1)])
    show "t = utf8_encode (normalize_name nfc rs)" by (rule rs(2))
  qed
qed

end
