(* ===== verification/Demo.thy ===== *)
theory Demo
  imports Tag_Repo Media_Contract Sanitize
begin

text \<open>
  A small concrete state, for the witnesses of the properties: two tenants, three tags, three
  media items and their links, a world in which no call fails, and the context of each tenant.
\<close>

definition demo_ext :: Ext where
  "demo_ext = \<lparr>x_nfc = (\<lambda>rs. rs), x_uuid_string = (\<lambda>_. ''u''), x_uuid_parse = (\<lambda>_. None),
     x_collate = map of_char, x_sha256_hex = (\<lambda>s. s), x_jsonb = Some,
     x_time_text = (\<lambda>_. ''t''), x_time_parse = (\<lambda>_. None), x_quote = (\<lambda>s. s),
     x_sniff = (\<lambda>_. ''image/png'')\<rparr>"

definition demo_tenant :: "uuid \<Rightarrow> tenant_row" where
  "demo_tenant i = \<lparr>tn_id = i, tn_name = ''t'', tn_status = TenantStatusActive, tn_created = 0\<rparr>"

definition demo_tag :: "uuid \<Rightarrow> uuid \<Rightarrow> string \<Rightarrow> tag_row" where
  "demo_tag i t n = \<lparr>tg_id = i, tg_tenant = t, tg_name = n, tg_created = 5\<rparr>"

definition demo_media :: "uuid \<Rightarrow> uuid \<Rightarrow> time \<Rightarrow> media_row" where
  "demo_media i t c = \<lparr>md_id = i, md_tenant = t, md_name = ''m'', md_type = MediaTypeImage,
     md_path = ''p'', md_orig = ''o'', md_size = 1, md_created = c\<rparr>"

definition demo_link :: "uuid \<Rightarrow> uuid \<Rightarrow> uuid \<Rightarrow> media_tag_row" where
  "demo_link t m g = \<lparr>mt_tenant = t, mt_media = m, mt_tag = g\<rparr>"

definition demo_db :: db where
  "demo_db = \<lparr>tenants = [demo_tenant 1, demo_tenant 2], api_keys = [],
     tags = [demo_tag 10 1 ''goal'', demo_tag 11 1 ''team'', demo_tag 12 2 ''goal''],
     media = [demo_media 20 1 7, demo_media 21 1 8, demo_media 22 2 9],
     media_tags = [demo_link 1 20 10, demo_link 1 20 11, demo_link 1 21 10, demo_link 2 22 12],
     idempotency_keys = [], jobs = []\<rparr>"

definition demo_world :: World where
  "demo_world = \<lparr>w_db = demo_db, w_disk = Map.empty, w_objects = Map.empty, w_clock = 50,
     w_uuids = (\<lambda>_. 100), w_drawn = 0, w_faults = (\<lambda>_ _. NoFault), w_calls = 0,
     w_bypass_rls = False\<rparr>"

definition demo_ctx :: "uuid \<Rightarrow> Ctx" where
  "demo_ctx t = \<lparr>ctx_identity = Some \<lparr>id_TenantID = t, id_KeyID = 7, id_Scopes = [''media:*''], id_ExpiresAt = None\<rparr>, ctx_deadline = None\<rparr>"

lemmas demo_defs = demo_db_def demo_tenant_def demo_tag_def demo_media_def demo_link_def

lemma demo_world_sel [simp]:
  "w_db demo_world = demo_db" "w_clock demo_world = 50" "w_drawn demo_world = 0" "w_calls demo_world = 0"
  "w_faults demo_world k n = NoFault" "w_uuids demo_world n = 100" "\<not> w_bypass_rls demo_world"
  by (simp_all add: demo_world_def)

lemma demo_no_faults [simp]: "no_faults demo_world"
  by (simp add: no_faults_def)

lemma demo_ctx_tenant [simp]: "TenantIDFromContext (demo_ctx t) = Inr t"
  by (simp add: TenantIDFromContext_def IdentityFromContext_def demo_ctx_def)

lemma demo_db_sel:
  "tenants demo_db = [demo_tenant 1, demo_tenant 2]" "api_keys demo_db = []"
  "tags demo_db = [demo_tag 10 1 ''goal'', demo_tag 11 1 ''team'', demo_tag 12 2 ''goal'']"
  "media demo_db = [demo_media 20 1 7, demo_media 21 1 8, demo_media 22 2 9]"
  "media_tags demo_db = [demo_link 1 20 10, demo_link 1 20 11, demo_link 1 21 10, demo_link 2 22 12]"
  "idempotency_keys demo_db = []" "jobs demo_db = []"
  by (simp_all add: demo_db_def)

lemma demo_row_sel [simp]:
  "tn_id (demo_tenant i) = i" "tg_id (demo_tag i t n) = i" "tg_tenant (demo_tag i t n) = t"
  "tg_name (demo_tag i t n) = n" "md_id (demo_media i t c) = i" "md_tenant (demo_media i t c) = t"
  "md_created (demo_media i t c) = c" "mt_tenant (demo_link t m g) = t" "mt_media (demo_link t m g) = m"
  "mt_tag (demo_link t m g) = g"
  by (simp_all add: demo_defs)

lemma demo_inv [simp]: "db_inv demo_db"
  unfolding db_inv_def
proof (intro conjI)
  show "auth_ok demo_db" by (simp add: auth_ok_def demo_db_sel)
  show "tags_ok demo_db" by (simp add: tags_ok_def demo_db_sel tg_key_def is_tenant_def)
  show "media_ok demo_db" by (simp add: media_ok_def demo_db_sel is_tenant_def)
  show "links_ok demo_db" by (simp add: links_ok_def demo_db_sel mt_key_def link_ok_def)
  show "idem_ok demo_db" by (simp add: idem_ok_def demo_db_sel)
  show "jobs_ok demo_db" by (simp add: jobs_ok_def demo_db_sel)
qed

lemma demo_tag_ready: "0 < n \<Longrightarrow> tag_list_ready t demo_db (demo_ctx t) n demo_world"
  by (simp add: tag_list_ready_def)

end
