(* ===== verification/Data_Properties.thy ===== *)
theory Data_Properties
  imports Demo
begin

text \<open>
  The properties of the domain rules, the name pipeline and the PostgreSQL repositories, each
  with a witness on the state of \<open>Demo\<close>.
\<close>

section \<open>Names\<close>

text \<open>C37: a name the pipeline accepts is canonical: valid UTF-8 in NFC, not empty, at most 255
  bytes, no control, invisible or bidirectional character, no white space but single inner
  spaces (U+1680 and a lone form feed are the exceptions the code leaves to later checks).\<close>

theorem sanitize_canonical:
  assumes "nfc_spec nfc" and "SanitizeName nfc s = Inr t"
  shows "\<exists>rs. utf8_decode t = Some rs \<and> canonical_runes rs \<and> nfc rs = rs"
  using assms by (rule SanitizeName_canonical) blast

lemma sanitize_demo: "SanitizeName (\<lambda>rs. rs) ''  a  b '' = Inr ''a b''"
  by (simp add: SanitizeName_def utf8_decode_def decode_rune_def replace_unicode_whitespace_def
      unicodeWhitespace_def replace_tabs_newlines_def re_space_def trim_space_def is_space_def
      isUnsafeRune_def is_control_def utf8_encode_def encode_rune.simps maxTagNameLength_def of_char_def char_of_def
      bit_iff_odd)

theorem sanitize_canonical_witness:
  "\<exists>rs. utf8_decode ''a b'' = Some rs \<and> canonical_runes rs \<and> rs = rs"
  using sanitize_canonical [OF nfc_spec_id sanitize_demo] .

text \<open>C24: the pipeline is idempotent: an accepted name is accepted again, unchanged, so that a
  stored name can be looked up by what the client typed.\<close>

theorem sanitize_idempotent:
  assumes "nfc_spec nfc" and "SanitizeName nfc s = Inr t"
  shows "SanitizeName nfc t = Inr t"
  using assms by (rule SanitizeName_canonical) (metis canonical_fixpoint)

theorem sanitize_idempotent_witness: "SanitizeName (\<lambda>rs. rs) ''a b'' = Inr ''a b''"
  using sanitize_idempotent [OF nfc_spec_id sanitize_demo] .

text \<open>
  Decoding UTF-8 and encoding are inverse: a byte string decodes to a sequence of runes
  exactly when it is the encoding of that sequence of scalar values.\<close>

lemma utf8_roundtrip: "utf8_decode s = Some rs \<longleftrightarrow> list_all valid_rune rs \<and> utf8_encode rs = s"
  by (metis utf8_decode_encode utf8_decode_valid utf8_encode_decode)

section \<open>Transactions\<close>

text \<open>A tenant transaction is all or nothing: when it reports an error the tables are what
  they were, unless the server's acknowledgement of the commit was lost.\<close>

lemma tenant_tx_all_or_nothing:
  assumes "\<And>s t. db_op (fn s t)" and "withTenantTx ctx fn w = (Inl e, w')"
  shows "w_db w' = w_db w \<or> (\<exists>n msg. w_faults w CommitCall n = FaultAfter msg)"
  using tx_atomic_withTenantTx [of fn ctx, OF assms(1)] assms(2) unfolding tx_atomic_def lost_ack_def by blast

lemma tenant_tx_all_or_nothing_witness:
  "\<exists>e w'. withTenantTx background (Rename_tx 10 ''x'') demo_world = (Inl e, w') \<and>
    (w_db w' = demo_db \<or> (\<exists>n msg. w_faults demo_world CommitCall n = FaultAfter msg))"
proof -
  have run: "withTenantTx background (Rename_tx 10 ''x'') demo_world = (Inl ErrNoTenantContext, demo_world)"
    by (simp add: withTenantTx_def TenantIDFromContext_def IdentityFromContext_def background_def)
  from tenant_tx_all_or_nothing [OF db_op_TagRepo_tx(3) this] run show ?thesis by auto
qed

section \<open>Tags\<close>

text \<open>C38: creating a tag is idempotent: the second call with the same name returns the same tag,
  says that it was not created, and changes nothing.\<close>

theorem create_tag_idempotent:
  assumes "db_inv (w_db w)" and "TagRepo_CreateOrGet ctx n w = (Inr (t, c), w1)"
    and "TagRepo_CreateOrGet ctx n w1 = (Inr (t', c'), w2)"
  shows "t' = t \<and> \<not> c' \<and> ctx_tags ctx w2 = ctx_tags ctx w1"
  using pg_tags.create_twice [of w undefined ctx n t c w1 t' c' w2] assms by simp

theorem create_tag_idempotent_witness:
  "\<exists>t c w1 c' w2. TagRepo_CreateOrGet (demo_ctx 1) ''goal'' demo_world = (Inr (t, c), w1)
    \<and> TagRepo_CreateOrGet (demo_ctx 1) ''goal'' w1 = (Inr (t, c'), w2) \<and> \<not> c'"
proof -
  obtain t c w1 where 1: "TagRepo_CreateOrGet (demo_ctx 1) ''goal'' demo_world = (Inr (t, c), w1)"
    and o1: "db_only demo_world w1"
    using CreateOrGet_succeeds [of demo_world "demo_ctx 1" 1 "''goal''"]
    by (auto simp: is_tenant_def demo_db_sel)
  have db1: "w_db w1 = demo_db"
    using CreateOrGet_Inr [OF _ 1] by (auto simp: tag_dir_def demo_db_sel)
  obtain t' c' w2 where 2: "TagRepo_CreateOrGet (demo_ctx 1) ''goal'' w1 = (Inr (t', c'), w2)"
    using CreateOrGet_succeeds [of w1 "demo_ctx 1" 1 "''goal''"] o1 no_faults_db_only [OF o1]
    by (auto simp: is_tenant_def demo_db_sel db1 db_only_iff)
  from create_tag_idempotent [OF _ 1 2] 1 2 show ?thesis by auto
qed

text \<open>The outcome of a rename when the database answers: ErrNotFound for a tag the tenant
  does not have, ErrConflict when another tag of the tenant has the name, otherwise the tag with
  the new name; renaming a tag to its own name succeeds.\<close>

lemma rename_tag_outcome:
  assumes "db_inv (w_db w)" and "no_faults w" and "TenantIDFromContext ctx = Inr t"
  shows "fst (TagRepo_Rename ctx i n w) =
     (case tag_by_id t (w_db w) i of
        None \<Rightarrow> Inl ErrNotFound
      | Some tag \<Rightarrow>
          if \<exists>tag'. tag_dir t (w_db w) n = Some tag' \<and> tag_ID tag' \<noteq> i
          then Inl (Errorf '''' ErrConflict '': a tag with that name already exists'')
          else Inr (tag\<lparr>tag_Name := n\<rparr>))"
  unfolding Rename_outcome [OF assms] rename_outcome_def by (auto split: option.splits)

lemma rename_tag_outcome_witness:
  "fst (TagRepo_Rename (demo_ctx 1) 10 ''team'' demo_world)
     = Inl (Errorf '''' ErrConflict '': a tag with that name already exists'')
   \<and> fst (TagRepo_Rename (demo_ctx 1) 12 ''x'' demo_world) = Inl ErrNotFound"
proof
  show "fst (TagRepo_Rename (demo_ctx 1) 10 ''team'' demo_world)
     = Inl (Errorf '''' ErrConflict '': a tag with that name already exists'')"
    by (subst rename_tag_outcome [where t = 1]) (simp_all add: tag_by_id_def tag_dir_def demo_db_sel)
  show "fst (TagRepo_Rename (demo_ctx 1) 12 ''x'' demo_world) = Inl ErrNotFound"
    by (subst rename_tag_outcome [where t = 1]) (simp_all add: tag_by_id_def demo_db_sel)
qed

text \<open>
  Following the cursors of the tag listing from the first page returns every tag of the
  tenant exactly once, in name order, whatever the page size.\<close>

lemma tag_listing_complete:
  assumes "db_inv (w_db w)" and "no_faults w" and "TenantIDFromContext ctx = Inr t" and "0 < limit"
    and "length (tag_rows t (w_db w)) < fuel"
  shows "\<exists>w'. follow fuel (TagRepo_List X ctx limit) None w = (Inr (Some (all_tags X t (w_db w))), w')
    \<and> distinct (map tag_ID (all_tags X t (w_db w)))
    \<and> set (all_tags X t (w_db w)) = tag_of_row ` {r \<in> set (tags (w_db w)). tg_tenant r = t}"
proof -
  have "\<exists>w'. follow fuel (TagRepo_List X ctx limit) None w = (Inr (Some (all_tags X t (w_db w))), w')
      \<and> tag_list_ready t (w_db w) ctx limit w'"
    by (rule tag_pages.follow_all)
      (use assms in \<open>simp_all add: tag_list_ready_def all_tags_def\<close>)
  then show ?thesis using all_tags_ids [OF assms(1)] by blast
qed

lemma tag_listing_complete_witness:
  "\<exists>w'. follow 3 (TagRepo_List demo_ext (demo_ctx 1) 1) None demo_world
    = (Inr (Some (all_tags demo_ext 1 demo_db)), w')"
  using tag_listing_complete [of demo_world "demo_ctx 1" 1 1 3 demo_ext]
  by (auto simp: tag_rows_def demo_db_sel)

section \<open>Tenant isolation\<close>

text \<open>C7: an operation of the tag repository run for one tenant keeps the constraints of the
  schema and every row of every other tenant, whatever its outcome.\<close>

theorem tag_writes_isolated:
  assumes "TenantIDFromContext ctx = Inr t" and "db_inv (w_db w)" and "u \<noteq> t"
    and "op \<in> {\<lambda>w. w_db (snd (TagRepo_CreateOrGet ctx n w)), \<lambda>w. w_db (snd (TagRepo_Rename ctx i n w)),
               \<lambda>w. w_db (snd (TagRepo_Delete ctx i w))}"
  shows "db_inv (op w) \<and> tenant_view u (op w) = tenant_view u (w_db w)"
  using assms(2-4) keeps_others_TagRepo [OF assms(1), of "w_db w"]
  unfolding keeps_def others_kept_def by auto

theorem tag_writes_isolated_witness:
  "tenant_view 2 (w_db (snd (TagRepo_Delete (demo_ctx 1) 10 demo_world))) = tenant_view 2 demo_db"
  using tag_writes_isolated [of "demo_ctx 1" 1 demo_world 2 "\<lambda>w. w_db (snd (TagRepo_Delete (demo_ctx 1) 10 w))"
      _ 10] by simp

text \<open>C2: an operation of the media repository run for one tenant keeps the constraints of the
  schema, the tenant consistency of the links and every row of every other tenant.\<close>

theorem media_writes_isolated:
  assumes "TenantIDFromContext ctx = Inr t" and "db_inv (w_db w)" and "u \<noteq> t"
    and "op \<in> {\<lambda>w. w_db (snd (MediaRepo_Create X ctx m ids w)), \<lambda>w. w_db (snd (MediaRepo_Delete ctx i w)),
               \<lambda>w. w_db (snd (MediaRepo_AttachTags ctx i ids w)), \<lambda>w. w_db (snd (MediaRepo_DetachTag ctx i j w))}"
  shows "db_inv (op w) \<and> tenant_view u (op w) = tenant_view u (w_db w)"
  using assms(2-4) safe_MediaRepo [OF assms(1), of "w_db w"]
  unfolding keeps_def tenant_safe_def others_kept_def by auto

theorem media_writes_isolated_witness:
  "tenant_view 2 (w_db (snd (MediaRepo_AttachTags (demo_ctx 1) 21 [11] demo_world))) = tenant_view 2 demo_db"
  using media_writes_isolated [of "demo_ctx 1" 1 demo_world 2
      "\<lambda>w. w_db (snd (MediaRepo_AttachTags (demo_ctx 1) 21 [11] w))" demo_ext _ "[11]" 21] by simp

text \<open>
  The second line of defence: for a role without BYPASSRLS the policies of migration 006
  let a tenant session see and write rows of its own tenant only, and a session without tenant
  and outside system mode nothing at all.\<close>

lemma rls_backstop:
  "\<not> s_bypass s \<Longrightarrow> \<not> s_system s \<Longrightarrow>
     filter (\<lambda>r. rls s (tg_tenant r)) rows
       = (case s_tenant s of None \<Rightarrow> [] | Some t \<Rightarrow> filter (\<lambda>r. tg_tenant r = t) rows)"
  by (auto simp: rls_def app_current_tenant_def app_system_mode_def split: option.splits intro: filter_cong)

lemma rls_backstop_witness:
  "filter (\<lambda>r. rls (tenant_session demo_world 2) (tg_tenant r)) (tags demo_db) = [demo_tag 12 2 ''goal'']"
  by (subst rls_backstop) (simp_all add: tenant_session_def demo_db_sel)

section \<open>Media\<close>

text \<open>C32: a media item that was created reads back as what the call returned, under a fresh id;
  it carries exactly those of the requested tags that exist in the tenant (the others are
  dropped without an error), and no other media item changed.\<close>

theorem create_media_effect:
  assumes "db_inv (w_db w)" and "TenantIDFromContext ctx = Inr t"
    and "MediaRepo_Create X ctx m ids w = (Inr m', w')"
  shows "media_get X t (w_db w) (media_ID m') = None
    \<and> media_get X t (w_db w') = (media_get X t (w_db w))(media_ID m' \<mapsto> m')
    \<and> media_FilePath m' = media_FilePath m \<and> media_Name m' = media_Name m
    \<and> tag_ID ` set (media_Tags m') = {j \<in> set ids. \<exists>r \<in> set (tags (w_db w)). tg_id r = j \<and> tg_tenant r = t}"
  using assms(3) unfolding MediaRepo_Create_def
proof (rule withTenantTx_Inr)
  fix tid w2 w3 assume t: "TenantIDFromContext ctx = Inr tid" and w: "w_db w2 = w_db w" "w_db w' = w_db w3"
    and run: "MediaCreate_tx X m ids (tenant_session w tid) tid w2 = (Inr m', w3)"
  from MediaCreate_tx_Inr [OF _ rls_tenant run] assms(1,2) t w show ?thesis
    by (auto dest: arg_cong [where f = media_FilePath] arg_cong [where f = media_Name])
qed (intro frame)

lemma demo_create:
  "\<exists>m' w'. MediaRepo_Create demo_ext (demo_ctx 1) (media_of_row (demo_media 0 1 0) []) [10, 12] demo_world
     = (Inr m', w')"
proof -
  have "\<exists>x w3. MediaCreate_tx demo_ext (media_of_row (demo_media 0 1 0) []) [10, 12]
      (tenant_session demo_world 1) 1 (in_tx demo_world) = (Inr x, w3)"
    by (simp add: MediaCreate_tx_def and_then_def map_err_def db_insert_no_faults db_query_no_faults
        db_exec_no_faults sql_insert_media_def sql_insert_link_def demo_db_sel is_tenant_def mt_key_def ret_def
        rls_other_tenant)
  then obtain x w3 where "MediaCreate_tx demo_ext (media_of_row (demo_media 0 1 0) []) [10, 12]
      (tenant_session demo_world 1) 1 (in_tx demo_world) = (Inr x, w3)" by blast
  from withTenantTx_no_faults [where fn = "MediaCreate_tx demo_ext (media_of_row (demo_media 0 1 0) []) [10, 12]",
      OF demo_no_faults db_op_MediaRepo_tx(1) demo_ctx_tenant this]
  show ?thesis by (auto simp: MediaRepo_Create_def)
qed

theorem create_media_effect_witness:
  "\<exists>m' w'. MediaRepo_Create demo_ext (demo_ctx 1) (media_of_row (demo_media 0 1 0) []) [10, 12] demo_world
     = (Inr m', w') \<and> tag_ID ` set (media_Tags m') = {10}"
proof -
  obtain m' w' where run: "MediaRepo_Create demo_ext (demo_ctx 1) (media_of_row (demo_media 0 1 0) []) [10, 12]
      demo_world = (Inr m', w')" using demo_create by blast
  have "{j \<in> set [10, 12]. \<exists>r \<in> set (tags (w_db demo_world)). tg_id r = j \<and> tg_tenant r = 1} = {10 :: uuid}"
    by (auto simp: demo_db_sel)
  with create_media_effect [OF _ demo_ctx_tenant run] run show ?thesis by auto
qed

text \<open>The tag filter of the listing has AND semantics: following the cursors returns exactly
  the media of the tenant that carry every requested tag (by id or by name), each once, newest
  first and with all its tags, although the query counts the rows of a grouped join.\<close>

lemma media_listing_complete:
  assumes "db_inv (w_db w)" and "no_faults w" and "TenantIDFromContext ctx = Inr t" and "0 < limit"
    and "distinct (mf_TagIDs f)" and "distinct (mf_TagNames f)" and "length (media (w_db w)) < fuel"
  shows "\<exists>w' ms. follow fuel (\<lambda>c. MediaRepo_List X ctx limit c f) None w = (Inr (Some ms), w')
    \<and> distinct (map media_ID ms)
    \<and> set ms = {m. \<exists>r \<in> set (media (w_db w)). md_tenant r = t \<and> media_matches t (w_db w) f r
                   \<and> media_get X t (w_db w) (md_id r) = Some m}"
proof -
  let ?ms = "all_media X t (w_db w) f"
  have len: "length ?ms < fuel"
    using assms(7) by (simp add: all_media_def listed_def) (rule le_less_trans [OF length_filter_le])
  have "\<exists>w'. follow fuel (\<lambda>c. MediaRepo_List X ctx limit c f) None w = (Inr (Some ?ms), w')
      \<and> media_list_ready t (w_db w) ctx f limit w'"
    by (rule media_pages.follow_all) (use assms len in \<open>simp_all add: media_list_ready_def filter_distinct_def\<close>)
  then show ?thesis using all_media_spec [OF assms(1)] by blast
qed

lemma media_listing_complete_witness:
  "\<exists>w' ms. follow 4 (\<lambda>c. MediaRepo_List demo_ext (demo_ctx 1) 1 c \<lparr>mf_TagIDs = [10, 11], mf_TagNames = []\<rparr>)
     None demo_world = (Inr (Some ms), w') \<and> distinct (map media_ID ms)"
  using media_listing_complete [of demo_world "demo_ctx 1" 1 1 "\<lparr>mf_TagIDs = [10, 11], mf_TagNames = []\<rparr>" 4 demo_ext]
  by (auto simp: demo_db_sel)

text \<open>C33: attaching tags is all or nothing: when it succeeds, every given tag exists in the tenant
  and the media carries its old tags and all the given ones; attaching again changes nothing.\<close>

theorem attach_tags_effect:
  assumes "db_inv (w_db w)" and "MediaRepo_AttachTags ctx i ids w = (Inr (), w')"
  shows "\<exists>m ts. ctx_media X ctx w i = Some m \<and> ctx_media X ctx w' = (ctx_media X ctx w)(i \<mapsto> m\<lparr>media_Tags := ts\<rparr>)
    \<and> tag_ID ` set ts = tag_ID ` set (media_Tags m) \<union> set ids"
  using pg_media.attach_Inr [of w X ctx i ids w'] assms by simp

text \<open>C34: deleting a media item removes that item only, with its links, and returns the path of
  its file.\<close>

theorem delete_media_effect:
  assumes "db_inv (w_db w)" and "MediaRepo_Delete ctx i w = (Inr p, w')"
  shows "\<exists>m. ctx_media X ctx w i = Some m \<and> p = media_FilePath m
    \<and> ctx_media X ctx w' = (ctx_media X ctx w)(i := None)"
  using pg_media.delete_Inr [of w X ctx i p w'] assms by simp

lemma demo_delete: "\<exists>w'. MediaRepo_Delete (demo_ctx 1) 20 demo_world = (Inr ''p'', w')"
proof -
  have "\<exists>w3. MediaDelete_tx 20 (tenant_session demo_world 1) 1 (in_tx demo_world) = (Inr ''p'', w3)"
    by (simp add: MediaDelete_tx_def handle_def QueryRow_def and_then_def db_exec_no_faults
        sql_delete_media_def Let_def media_hit_def demo_db_sel ret_def rls_other_tenant)
      (simp add: demo_media_def)
  then obtain w3 where "MediaDelete_tx 20 (tenant_session demo_world 1) 1 (in_tx demo_world) = (Inr ''p'', w3)"
    by blast
  from withTenantTx_no_faults [where fn = "MediaDelete_tx 20",
      OF demo_no_faults db_op_MediaRepo_tx(4) demo_ctx_tenant this]
  show ?thesis by (auto simp: MediaRepo_Delete_def)
qed

theorem delete_media_effect_witness:
  "\<exists>w'. MediaRepo_Delete (demo_ctx 1) 20 demo_world = (Inr ''p'', w') \<and> ctx_media demo_ext (demo_ctx 1) w' 20 = None"
proof -
  obtain w' where run: "MediaRepo_Delete (demo_ctx 1) 20 demo_world = (Inr ''p'', w')" using demo_delete by blast
  from delete_media_effect [OF _ run, of demo_ext] run show ?thesis by auto
qed

lemma demo_attach: "\<exists>w'. MediaRepo_AttachTags (demo_ctx 1) 21 [11] demo_world = (Inr (), w')"
proof -
  have "\<exists>w3. AttachTags_tx 21 [11] (tenant_session demo_world 1) 1 (in_tx demo_world) = (Inr (), w3)"
    by (simp add: AttachTags_tx_def map_err_def and_then_def db_exec_no_faults db_query_no_faults
        sql_attach_tags_def sql_tags_any_def sql_media_exists_def Let_def media_hit_def demo_db_sel ret_def
        rls_other_tenant mt_key_def)
  then obtain w3 where "AttachTags_tx 21 [11] (tenant_session demo_world 1) 1 (in_tx demo_world) = (Inr (), w3)"
    by blast
  from withTenantTx_no_faults [where fn = "AttachTags_tx 21 [11]",
      OF demo_no_faults db_op_MediaRepo_tx(5) demo_ctx_tenant this]
  show ?thesis by (auto simp: MediaRepo_AttachTags_def)
qed

theorem attach_tags_effect_witness:
  "\<exists>w' m. MediaRepo_AttachTags (demo_ctx 1) 21 [11] demo_world = (Inr (), w')
     \<and> ctx_media demo_ext (demo_ctx 1) w' 21 = Some m \<and> 11 \<in> tag_ID ` set (media_Tags m)"
proof -
  obtain w' where run: "MediaRepo_AttachTags (demo_ctx 1) 21 [11] demo_world = (Inr (), w')"
    using demo_attach by blast
  from attach_tags_effect [OF _ run, of demo_ext] run show ?thesis by auto
qed

end
