(* ===== verification/Job_Queue.thy ===== *)
theory Job_Queue
  imports Schema
begin

text \<open>
  \<^verbatim>\<open>postgres/job_queue.go\<close> and the sampling of \<^verbatim>\<open>postgres/metrics.go\<close>: the
  statements on the \<^verbatim>\<open>jobs\<close> table, the operations of \<^verbatim>\<open>port.JobQueue\<close>, the
  invariant of the retry counter, and the life of a job as seen by id.
\<close>

section \<open>Statements\<close>

definition second :: time where "second = 1000000"

text \<open>The columns with defaults of migration 003: \<^verbatim>\<open>error\<close> and \<^verbatim>\<open>result\<close> are NULL.\<close>

definition sql_enqueue ::
  "Ext \<Rightarrow> session \<Rightarrow> uuid \<Rightarrow> string \<Rightarrow> string \<Rightarrow> uuid \<Rightarrow> time \<Rightarrow> db \<Rightarrow> goerr + uuid \<times> db" where
  "sql_enqueue X s tenantID jobType payload u now d =
     (case x_jsonb X payload of
        None \<Rightarrow> Inl (PqError invalidTextRepresentation)
      | Some p \<Rightarrow>
        if \<not> rls s tenantID then Inl (PqError insufficientPrivilege)
        else if u \<in> jb_id ` set (jobs d) then Inl (PqError uniqueViolation)
        else if \<not> is_tenant d tenantID then Inl (PqError foreignKeyViolation)
        else Inr (u, d\<lparr>jobs := jobs d @
               [\<lparr>jb_id = u, jb_tenant = tenantID, jb_type = jobType, jb_payload = p,
                 jb_status = JobStatusPending, jb_result = None, jb_error = None, jb_attempts = 0,
                 jb_max_attempts = 3, jb_scheduled = now, jb_started = None, jb_completed = None,
                 jb_created = now\<rparr>]\<rparr>))"

definition due :: "session \<Rightarrow> time \<Rightarrow> job_row \<Rightarrow> bool" where
  "due s now r \<longleftrightarrow> rls s (jb_tenant r) \<and> jb_status r = JobStatusPending \<and> jb_scheduled r \<le> now"

text \<open>
  The sub-select of \<^verbatim>\<open>Dequeue\<close>: the oldest due job (among equally old ones the server
  may return any; here the first of the table).
\<close>

definition sql_next_job :: "session \<Rightarrow> time \<Rightarrow> db \<Rightarrow> job_row option" where
  "sql_next_job s now d =
     (case sort_key jb_scheduled (filter (due s now) (jobs d)) of [] \<Rightarrow> None | r # _ \<Rightarrow> Some r)"

definition start_job :: "time \<Rightarrow> job_row \<Rightarrow> job_row" where
  "start_job now r =
     r\<lparr>jb_status := JobStatusRunning, jb_started := Some now, jb_attempts := jb_attempts r + 1\<rparr>"

definition sql_dequeue :: "session \<Rightarrow> time \<Rightarrow> db \<Rightarrow> goerr + job_row option \<times> db" where
  "sql_dequeue s now d =
     (case sql_next_job s now d of
        None \<Rightarrow> Inr (None, d)
      | Some r \<Rightarrow> Inr (Some (start_job now r),
                      d\<lparr>jobs := update_where (\<lambda>q. jb_id q = jb_id r) (start_job now) (jobs d)\<rparr>))"

text \<open>
  \<^verbatim>\<open>Scan\<close> of the returned row: \<^verbatim>\<open>job.Error\<close> is a Go \<^verbatim>\<open>string\<close>, which
  cannot receive NULL.
\<close>

definition scan_job :: "job_row \<Rightarrow> goerr + Job" where
  "scan_job r =
     (case jb_error r of
        None \<Rightarrow> Inl (Opaque ''sql: Scan error on column index 6, name \"error\": converting NULL to string is unsupported'')
      | Some err \<Rightarrow> Inr
          \<lparr>job_ID = jb_id r, job_TenantID = jb_tenant r, job_Type = jb_type r, job_Payload = jb_payload r,
           job_Status = jb_status r, job_Result = jb_result r, job_Error = err,
           job_Attempts = jb_attempts r, job_MaxAttempts = jb_max_attempts r,
           job_ScheduledAt = jb_scheduled r, job_StartedAt = jb_started r,
           job_CompletedAt = jb_completed r, job_CreatedAt = jb_created r\<rparr>)"

definition complete_job :: "string option \<Rightarrow> time \<Rightarrow> job_row \<Rightarrow> job_row" where
  "complete_job result now r =
     r\<lparr>jb_status := JobStatusCompleted, jb_result := result, jb_completed := Some now\<rparr>"

text \<open>A Go nil \<^verbatim>\<open>json.RawMessage\<close> is NULL.\<close>

definition sql_complete ::
  "Ext \<Rightarrow> session \<Rightarrow> uuid \<Rightarrow> string option \<Rightarrow> time \<Rightarrow> db \<Rightarrow> goerr + unit \<times> db" where
  "sql_complete X s i result now d =
     (let upd = (\<lambda>res. Inr ((), d\<lparr>jobs := update_where (\<lambda>r. rls s (jb_tenant r) \<and> jb_id r = i)
                     (complete_job res now) (jobs d)\<rparr>)) in
      case result of
        None \<Rightarrow> upd None
      | Some t \<Rightarrow> (case x_jsonb X t of None \<Rightarrow> Inl (PqError invalidTextRepresentation) | Some v \<Rightarrow> upd (Some v)))"

text \<open>\<^verbatim>\<open>30 * power(2, attempts - 1)\<close> seconds.\<close>

definition backoff :: "int \<Rightarrow> time" where
  "backoff attempts =
     (if 1 \<le> attempts then 30 * second * 2 ^ nat (attempts - 1)
      else 30 * second div 2 ^ nat (1 - attempts))"

definition fail_job :: "string \<Rightarrow> time \<Rightarrow> job_row \<Rightarrow> job_row" where
  "fail_job errMsg now r =
     r\<lparr>jb_error := Some errMsg,
       jb_status := (if jb_attempts r \<ge> jb_max_attempts r then JobStatusFailed else JobStatusPending),
       jb_scheduled := (if jb_attempts r \<ge> jb_max_attempts r then jb_scheduled r
                        else now + backoff (jb_attempts r)),
       jb_completed := (if jb_attempts r \<ge> jb_max_attempts r then Some now else None)\<rparr>"

definition sql_fail :: "session \<Rightarrow> uuid \<Rightarrow> string \<Rightarrow> time \<Rightarrow> db \<Rightarrow> goerr + unit \<times> db" where
  "sql_fail s i errMsg now d =
     Inr ((), d\<lparr>jobs := update_where (\<lambda>r. rls s (jb_tenant r) \<and> jb_id r = i) (fail_job errMsg now) (jobs d)\<rparr>)"

definition day :: time where "day = 24 * 60 * 60 * second"

definition finished_before :: "session \<Rightarrow> time \<Rightarrow> job_row \<Rightarrow> bool" where
  "finished_before s t r \<longleftrightarrow> rls s (jb_tenant r)
     \<and> (jb_status r = JobStatusCompleted \<or> jb_status r = JobStatusFailed)
     \<and> (case jb_completed r of None \<Rightarrow> False | Some c \<Rightarrow> c < t)"

definition sql_cleanup_jobs :: "session \<Rightarrow> int \<Rightarrow> time \<Rightarrow> db \<Rightarrow> goerr + nat \<times> db" where
  "sql_cleanup_jobs s olderThanDays now d =
     (let old = finished_before s (now - olderThanDays * day) in
      Inr (length (filter old (jobs d)), d\<lparr>jobs := filter (\<lambda>r. \<not> old r) (jobs d)\<rparr>))"

record QueueStats =
  qs_Pending :: nat
  qs_Running :: nat
  qs_OldestPendingAge :: time

text \<open>The aggregates of \<^verbatim>\<open>Stats\<close>; MIN of no row is NULL.\<close>

definition sql_stats :: "session \<Rightarrow> time \<Rightarrow> db \<Rightarrow> nat \<times> nat \<times> time option" where
  "sql_stats s now d =
     (let rows = filter (\<lambda>r. rls s (jb_tenant r)) (jobs d);
          pend = filter (due s now) rows in
      (length pend, length (filter (\<lambda>r. jb_status r = JobStatusRunning) rows),
       if pend = [] then None else Some (now - Min (jb_scheduled ` set pend))))"

section \<open>Operations\<close>

text \<open>\<open>db_read\<close>: a query that reads the clock.\<close>

definition db_read :: "(time \<Rightarrow> db \<Rightarrow> 'a) \<Rightarrow> (World, goerr, 'a) op" where
  "db_read q = db_exec (\<lambda>now d. Inr (q now d, d))"

definition JobQueue_Enqueue :: "Ext \<Rightarrow> Ctx \<Rightarrow> string \<Rightarrow> string option \<Rightarrow> (World, goerr, uuid) op" where
  "JobQueue_Enqueue X ctx jobType payload =
     (let payload = (case payload of None \<Rightarrow> ''{}'' | Some p \<Rightarrow> p) in
      withTenantTx ctx (\<lambda>s tenantID. db_insert (sql_enqueue X s tenantID jobType payload)))"

definition Dequeue_tx :: "session \<Rightarrow> (World, goerr, Job option) op" where
  "Dequeue_tx s =
     and_then (db_exec (sql_dequeue s))
       (\<lambda>row. case row of
          None \<Rightarrow> ret None
        | Some r \<Rightarrow> (case scan_job r of Inl e \<Rightarrow> fail e | Inr job \<Rightarrow> ret (Some job)))"

definition JobQueue_Dequeue :: "(World, goerr, Job option) op" where
  "JobQueue_Dequeue = withSystemTx Dequeue_tx"

definition JobQueue_Complete :: "Ext \<Rightarrow> uuid \<Rightarrow> string option \<Rightarrow> (World, goerr, unit) op" where
  "JobQueue_Complete X i result = withSystemTx (\<lambda>s. db_exec (sql_complete X s i result))"

definition JobQueue_Fail :: "uuid \<Rightarrow> string \<Rightarrow> (World, goerr, unit) op" where
  "JobQueue_Fail i errMsg = withSystemTx (\<lambda>s. db_exec (sql_fail s i errMsg))"

definition JobQueue_Stats :: "(World, goerr, QueueStats) op" where
  "JobQueue_Stats =
     and_then (withSystemTx (\<lambda>s. db_read (sql_stats s)))
       (\<lambda>(p, r, oldest). ret \<lparr>qs_Pending = p, qs_Running = r,
          qs_OldestPendingAge = (case oldest of None \<Rightarrow> 0 | Some a \<Rightarrow> if a > 0 then a else 0)\<rparr>)"

definition JobQueue_Cleanup :: "int \<Rightarrow> (World, goerr, nat) op" where
  "JobQueue_Cleanup olderThanDays = withSystemTx (\<lambda>s. db_exec (sql_cleanup_jobs s olderThanDays))"

text \<open>A ticker loop: one action per tick until the context is done.\<close>

datatype loop_event = Tick | Done

fun ticker_loop :: "('w \<Rightarrow> 'w) \<Rightarrow> loop_event list \<Rightarrow> 'w \<Rightarrow> 'w" where
  "ticker_loop act [] w = w"
| "ticker_loop act (Done # es) w = w"
| "ticker_loop act (Tick # es) w = ticker_loop act es (act w)"

definition StartCleanupLoop :: "int \<Rightarrow> loop_event list \<Rightarrow> World \<Rightarrow> World" where
  "StartCleanupLoop retentionDays = ticker_loop (\<lambda>w. snd (JobQueue_Cleanup retentionDays w))"

text \<open>The gauges keep their value when a sample fails (metrics.go).\<close>

record queueMetrics =
  g_pending :: nat
  g_running :: nat
  g_oldestPendingAge :: time

definition stats_sample :: "queueMetrics \<times> World \<Rightarrow> queueMetrics \<times> World" where
  "stats_sample mw =
     (case JobQueue_Stats (snd mw) of
        (Inl err, w') \<Rightarrow> (fst mw, w')
      | (Inr stats, w') \<Rightarrow>
          (\<lparr>g_pending = qs_Pending stats, g_running = qs_Running stats,
            g_oldestPendingAge = qs_OldestPendingAge stats\<rparr>, w'))"

definition StartStatsLoop :: "loop_event list \<Rightarrow> queueMetrics \<times> World \<Rightarrow> queueMetrics \<times> World" where
  "StartStatsLoop events mw = ticker_loop stats_sample events (stats_sample mw)"

section \<open>Transactions\<close>

lemmas queue_ops = JobQueue_Enqueue_def JobQueue_Dequeue_def JobQueue_Complete_def JobQueue_Fail_def
  JobQueue_Cleanup_def

lemma db_op_Dequeue_tx [frame]: "db_op (Dequeue_tx s)"
  unfolding Dequeue_tx_def scan_job_def
  by (intro frame) (auto simp: db_op_ret db_op_fail split: option.splits)

lemma db_op_read [frame]: "db_op (db_read q)"
  unfolding db_read_def by (intro frame)

lemma db_op_queue [frame]:
  "db_op (JobQueue_Enqueue X ctx ty p)" "db_op JobQueue_Dequeue" "db_op (JobQueue_Complete X i res)"
  "db_op (JobQueue_Fail i msg)" "db_op (JobQueue_Cleanup n)" "db_op JobQueue_Stats"
  unfolding queue_ops JobQueue_Stats_def Let_def by (intro frame)+

lemma tx_atomic_queue:
  "tx_atomic (JobQueue_Enqueue X ctx ty p)" "tx_atomic JobQueue_Dequeue"
  "tx_atomic (JobQueue_Complete X i res)" "tx_atomic (JobQueue_Fail i msg)" "tx_atomic (JobQueue_Cleanup n)"
  unfolding queue_ops Let_def by (intro tx_atomic_withTenantTx tx_atomic_withSystemTx frame)+

section \<open>The invariant of the retry counter\<close>

definition attempts_ok :: "job_row \<Rightarrow> bool" where
  "attempts_ok r \<longleftrightarrow> 0 \<le> jb_attempts r \<and> jb_attempts r \<le> jb_max_attempts r
     \<and> (jb_status r = JobStatusPending \<longrightarrow> jb_attempts r < jb_max_attempts r)"

definition job_inv :: "db \<Rightarrow> bool" where
  "job_inv d \<longleftrightarrow> db_inv d \<and> (\<forall>r \<in> set (jobs d). attempts_ok r)"

lemma db_inv_jobs:
  "db_inv d \<Longrightarrow> distinct (map jb_id js) \<Longrightarrow> (\<And>r. r \<in> set js \<Longrightarrow> is_tenant d (jb_tenant r)) \<Longrightarrow>
    db_inv (d\<lparr>jobs := js\<rparr>)"
  by (simp add: db_inv_def ok_defs)

lemma job_inv_update:
  assumes "job_inv d" and f: "\<And>r. jb_id (f r) = jb_id r" "\<And>r. jb_tenant (f r) = jb_tenant r"
    and ok: "\<And>r. r \<in> set (jobs d) \<Longrightarrow> P r \<Longrightarrow> attempts_ok r \<Longrightarrow> attempts_ok (f r)"
  shows "job_inv (d\<lparr>jobs := update_where P f (jobs d)\<rparr>)"
  unfolding job_inv_def
proof
  show "db_inv (d\<lparr>jobs := update_where P f (jobs d)\<rparr>)"
    using assms(1) f
    by (intro db_inv_jobs) (auto simp: job_inv_def map_update_where_same set_update_where db_inv_def ok_defs)
  show "\<forall>r \<in> set (jobs (d\<lparr>jobs := update_where P f (jobs d)\<rparr>)). attempts_ok r"
    using assms(1) ok by (auto simp: job_inv_def set_update_where)
qed

lemma sql_next_job_SomeD:
  "sql_next_job s now d = Some r \<Longrightarrow> r \<in> set (jobs d) \<and> due s now r"
proof -
  assume "sql_next_job s now d = Some r"
  then obtain rs where "sort_key jb_scheduled (filter (due s now) (jobs d)) = r # rs"
    by (auto simp: sql_next_job_def split: list.splits)
  then have "r \<in> set (filter (due s now) (jobs d))" by (metis list.set_intros(1) set_sort)
  then show ?thesis by simp
qed

lemma sql_next_job_None: "sql_next_job s now d = None \<longleftrightarrow> filter (due s now) (jobs d) = []"
proof -
  have "sort_key jb_scheduled (filter (due s now) (jobs d)) = [] \<longleftrightarrow> filter (due s now) (jobs d) = []"
    by (metis set_empty set_sort)
  then show ?thesis by (auto simp: sql_next_job_def split: list.splits)
qed

lemma sql_next_job_oldest:
  assumes "sql_next_job s now d = Some r" "q \<in> set (jobs d)" "due s now q"
  shows "jb_scheduled r \<le> jb_scheduled q"
proof -
  let ?js = "sort_key jb_scheduled (filter (due s now) (jobs d))"
  obtain rs where js: "?js = r # rs"
    using assms(1) by (auto simp: sql_next_job_def split: list.splits)
  have "q \<in> set ?js" using assms(2,3) by simp
  then have "q \<in> set (r # rs)" unfolding js .
  moreover have "sorted (map jb_scheduled (r # rs))" using sorted_sort_key [of jb_scheduled] js by metis
  ultimately show ?thesis by auto
qed

text \<open>A row found by its key is the row itself: the update of a dequeue touches one job.\<close>

lemma job_by_id: "job_inv d \<Longrightarrow> r \<in> set (jobs d) \<Longrightarrow> q \<in> set (jobs d) \<Longrightarrow> jb_id q = jb_id r \<Longrightarrow> q = r"
  using db_inv_D(6) distinct_map_unique unfolding job_inv_def by metis

lemma job_inv_start:
  assumes "job_inv d" "sql_next_job s now d = Some r"
  shows "job_inv (d\<lparr>jobs := update_where (\<lambda>q. jb_id q = jb_id r) (start_job now) (jobs d)\<rparr>)"
proof (rule job_inv_update [OF assms(1)])
  fix q assume "q \<in> set (jobs d)" "jb_id q = jb_id r" "attempts_ok q"
  with assms sql_next_job_SomeD have "q = r" "due s now r" by (metis job_by_id)+
  with \<open>attempts_ok q\<close> show "attempts_ok (start_job now q)"
    by (simp add: attempts_ok_def due_def start_job_def)
qed (simp_all add: start_job_def)

lemma job_inv_filter: "job_inv d \<Longrightarrow> job_inv (d\<lparr>jobs := filter P (jobs d)\<rparr>)"
  unfolding job_inv_def
  by (auto intro!: db_inv_jobs simp: distinct_map_filter) (auto simp: db_inv_def ok_defs distinct_map_filter)

lemma sql_enqueue_InrD:
  assumes "sql_enqueue X s t ty p u now d = Inr (i, d')"
  obtains r where "i = u" "d' = d\<lparr>jobs := jobs d @ [r]\<rparr>" "jb_id r = u" "jb_tenant r = t" "jb_type r = ty"
    "jb_status r = JobStatusPending" "jb_attempts r = 0" "jb_max_attempts r = 3" "jb_error r = None"
    "jb_scheduled r = now" "x_jsonb X p = Some (jb_payload r)" "u \<notin> jb_id ` set (jobs d)" "is_tenant d t" "rls s t"
  using assms that by (force simp: sql_enqueue_def split: option.splits if_splits)

lemma job_inv_enqueue:
  assumes d: "job_inv d" and e: "sql_enqueue X s t ty p u now d = Inr (i, d')"
  shows "job_inv d'"
  using e
proof (cases rule: sql_enqueue_InrD)
  case (1 r)
  have "db_inv (d\<lparr>jobs := jobs d @ [r]\<rparr>)"
    using d 1 by (intro db_inv_jobs) (auto simp: job_inv_def db_inv_def ok_defs)
  then show ?thesis using d 1 by (auto simp: job_inv_def attempts_ok_def)
qed

lemma job_inv_complete:
  assumes d: "job_inv d" and c: "sql_complete X s i res now d = Inr (x, d')"
  shows "job_inv d'"
proof -
  have "job_inv (d\<lparr>jobs := update_where (\<lambda>r. rls s (jb_tenant r) \<and> jb_id r = i) (complete_job v now) (jobs d)\<rparr>)" for v
    by (rule job_inv_update [OF d]) (auto simp: complete_job_def attempts_ok_def)
  with c show ?thesis by (auto simp: sql_complete_def Let_def split: option.splits)
qed

lemma job_inv_fail: "job_inv d \<Longrightarrow> sql_fail s i msg now d = Inr (x, d') \<Longrightarrow> job_inv d'"
  unfolding sql_fail_def by (auto intro!: job_inv_update simp: fail_job_def attempts_ok_def)

lemma job_inv_cleanup: "job_inv d \<Longrightarrow> sql_cleanup_jobs s n now d = Inr (x, d') \<Longrightarrow> job_inv d'"
  by (auto simp: sql_cleanup_jobs_def Let_def job_inv_filter)

lemma job_inv_dequeue: "job_inv d \<Longrightarrow> sql_dequeue s now d = Inr (x, d') \<Longrightarrow> job_inv d'"
  by (auto simp: sql_dequeue_def job_inv_start split: option.splits)

lemma keeps_Dequeue_tx: "db_keeps job_inv (Dequeue_tx s)"
  unfolding Dequeue_tx_def scan_job_def
  by (intro preserves) (auto intro: job_inv_dequeue simp: keeps_ret keeps_fail split: option.splits)

lemma keeps_queue [preserves]:
  "db_keeps job_inv (JobQueue_Enqueue X ctx ty p)" "db_keeps job_inv JobQueue_Dequeue"
  "db_keeps job_inv (JobQueue_Complete X i res)" "db_keeps job_inv (JobQueue_Fail i msg)"
  "db_keeps job_inv (JobQueue_Cleanup n)"
  unfolding queue_ops Let_def
  by (intro preserves frame keeps_Dequeue_tx;
      blast intro: job_inv_enqueue job_inv_complete job_inv_fail job_inv_cleanup)+

lemma keeps_Stats [preserves]: "db_keeps I JobQueue_Stats"
  unfolding JobQueue_Stats_def db_read_def by (intro preserves frame) auto

section \<open>What the operations did\<close>

lemma find_job_update:
  assumes "\<And>r. jb_id (f r) = jb_id r"
  shows "find (\<lambda>r. jb_id r = i) (update_where (\<lambda>r. jb_id r = k) f rs)
    = (if i = k then map_option f (find (\<lambda>r. jb_id r = i) rs) else find (\<lambda>r. jb_id r = i) rs)"
  using assms by (induction rs) auto

lemma find_job_update_where:
  "(\<And>r. jb_id (f r) = jb_id r) \<Longrightarrow> find (\<lambda>r. jb_id r = i) (update_where P f rs)
    = map_option (\<lambda>r. if P r then f r else r) (find (\<lambda>r. jb_id r = i) rs)"
  by (induction rs) auto

lemma find_job: "job_inv d \<Longrightarrow> r \<in> set (jobs d) \<Longrightarrow> find (\<lambda>q. jb_id q = jb_id r) (jobs d) = Some r"
  by (metis (mono_tags, lifting) find_None_iff_ex find_Some_in job_by_id not_None_eq)

definition deliver :: "job_row \<Rightarrow> string \<Rightarrow> Job" where
  "deliver r err =
     \<lparr>job_ID = jb_id r, job_TenantID = jb_tenant r, job_Type = jb_type r, job_Payload = jb_payload r,
      job_Status = jb_status r, job_Result = jb_result r, job_Error = err,
      job_Attempts = jb_attempts r, job_MaxAttempts = jb_max_attempts r,
      job_ScheduledAt = jb_scheduled r, job_StartedAt = jb_started r,
      job_CompletedAt = jb_completed r, job_CreatedAt = jb_created r\<rparr>"

lemma scan_job_Inr: "scan_job r = Inr j \<longleftrightarrow> (\<exists>err. jb_error r = Some err \<and> j = deliver r err)"
  by (auto simp: scan_job_def deliver_def split: option.splits)

lemma Dequeue_tx_Inr:
  assumes "Dequeue_tx s w = (Inr x, w')"
  shows "x = None \<and> db_exec (sql_dequeue s) w = (Inr None, w')
    \<or> (\<exists>r j. x = Some j \<and> db_exec (sql_dequeue s) w = (Inr (Some r), w') \<and> scan_job r = Inr j)"
proof -
  from assms obtain row w1 where q: "db_exec (sql_dequeue s) w = (Inr row, w1)"
    and k: "(case row of None \<Rightarrow> ret None
      | Some r \<Rightarrow> (case scan_job r of Inl e \<Rightarrow> fail e | Inr job \<Rightarrow> ret (Some job))) w1 = (Inr x, w')"
    unfolding Dequeue_tx_def and_then_Inr by blast
  show ?thesis
  proof (cases row)
    case (Some r)
    with q k show ?thesis by (cases "scan_job r") auto
  qed (use q k in auto)
qed

lemma system_session_db_only: "db_only w w' \<Longrightarrow> system_session w' = system_session w"
  by (simp add: system_session_def db_only_iff)

lemma Dequeue_SomeD:
  assumes "JobQueue_Dequeue w = (Inr (Some j), w')"
  obtains r err where "sql_next_job (system_session w) (w_clock w) (w_db w) = Some r"
    "jb_error r = Some err" "j = deliver (start_job (w_clock w) r) err"
    "w_db w' = (w_db w)\<lparr>jobs := update_where (\<lambda>q. jb_id q = jb_id r) (start_job (w_clock w)) (jobs (w_db w))\<rparr>"
  using assms unfolding JobQueue_Dequeue_def
proof (rule withSystemTx_Inr)
  fix w2 w3
  assume w2: "w_db w2 = w_db w" "db_only w w2" and fn: "Dequeue_tx (system_session w) w2 = (Inr (Some j), w3)"
    and w3: "w_db w' = w_db w3"
  have clock: "w_clock w2 = w_clock w" using w2(2) by (simp add: db_only_iff)
  obtain row w4 where q: "db_exec (sql_dequeue (system_session w)) w2 = (Inr (Some row), w4)"
    "scan_job row = Inr j" "w3 = w4"
    using Dequeue_tx_Inr [OF fn] by auto
  obtain r where r: "sql_next_job (system_session w) (w_clock w) (w_db w) = Some r"
    "row = start_job (w_clock w) r"
    "w_db w4 = (w_db w)\<lparr>jobs := update_where (\<lambda>q. jb_id q = jb_id r) (start_job (w_clock w)) (jobs (w_db w))\<rparr>"
    using db_exec_InrD [OF q(1)] w2(1) clock by (auto simp: sql_dequeue_def split: option.splits)
  then show thesis using that q w3 by (auto simp: scan_job_Inr start_job_def)
qed (rule frame)

lemma Dequeue_NoneD:
  assumes "JobQueue_Dequeue w = (Inr None, w')"
  shows "w_db w' = w_db w" "sql_next_job (system_session w) (w_clock w) (w_db w) = None"
proof -
  from assms have "w_db w' = w_db w \<and> sql_next_job (system_session w) (w_clock w) (w_db w) = None"
    unfolding JobQueue_Dequeue_def
  proof (rule withSystemTx_Inr)
    fix w2 w3
    assume w2: "w_db w2 = w_db w" "db_only w w2" and fn: "Dequeue_tx (system_session w) w2 = (Inr None, w3)"
      and w3: "w_db w' = w_db w3"
    have "w_clock w2 = w_clock w" using w2(2) by (simp add: db_only_iff)
    moreover have "db_exec (sql_dequeue (system_session w)) w2 = (Inr None, w3)"
      using Dequeue_tx_Inr [OF fn] by auto
    ultimately show ?thesis using db_exec_InrD w2 w3
      by (fastforce simp: sql_dequeue_def split: option.splits)
  qed (rule frame)
  then show "w_db w' = w_db w" "sql_next_job (system_session w) (w_clock w) (w_db w) = None" by simp_all
qed

text \<open>An operation that is one statement in a system transaction.\<close>

lemma system_exec_Inr:
  assumes "withSystemTx (\<lambda>s. db_exec (f s)) w = (Inr x, w')"
  shows "f (system_session w) (w_clock w) (w_db w) = Inr (x, w_db w')"
  using assms
proof (rule withSystemTx_Inr)
  fix w2 w3
  assume "w_db w2 = w_db w" "db_only w w2" "db_exec (f (system_session w)) w2 = (Inr x, w3)"
    "w_db w' = w_db w3"
  then show ?thesis using db_exec_InrD by (fastforce simp: db_only_iff)
qed (rule frame)

lemma system_exec_no_faults:
  assumes "no_faults w"
  shows "\<exists>w'. withSystemTx (\<lambda>s. db_exec (f s)) w
      = (case f (system_session w) (w_clock w) (w_db w) of Inl e \<Rightarrow> Inl e | Inr (x, d) \<Rightarrow> Inr x, w')
    \<and> w_db w' = (case f (system_session w) (w_clock w) (w_db w) of Inl e \<Rightarrow> w_db w | Inr (x, d) \<Rightarrow> d)
    \<and> db_only w w'"
proof -
  obtain r w3 where run: "db_exec (f (system_session w)) (in_tx w) = (r, w3)" by fastforce
  have r: "r = (case f (system_session w) (w_clock w) (w_db w) of Inl e \<Rightarrow> Inl e | Inr (x, d) \<Rightarrow> Inr x)
    \<and> (\<forall>x d. f (system_session w) (w_clock w) (w_db w) = Inr (x, d) \<longrightarrow> w_db w3 = d)"
    using run assms by (auto simp: db_exec_no_faults split: sum.splits prod.splits)
  from withSystemTx_no_faults [where fn = "\<lambda>s. db_exec (f s)", OF assms db_op_exec run] r
  show ?thesis by (auto split: sum.splits prod.splits)
qed

text \<open>
  The head of the queue is read into a Go \<^verbatim>\<open>string\<close>: with a NULL error the scan fails, the
  transaction is rolled back, and the job stays where it was.
\<close>

lemma Dequeue_null_error:
  assumes nf: "no_faults w" and r: "sql_next_job (system_session w) (w_clock w) (w_db w) = Some r"
    and null: "jb_error r = None"
  shows "\<exists>msg w'. JobQueue_Dequeue w = (Inl (Opaque msg), w') \<and> w_db w' = w_db w \<and> db_only w w'"
proof -
  have "jb_error (start_job (w_clock w) r) = None" using null by (simp add: start_job_def)
  then obtain msg where scan: "scan_job (start_job (w_clock w) r) = Inl (Opaque msg)"
    by (auto simp: scan_job_def)
  obtain w3 where run: "Dequeue_tx (system_session w) (in_tx w) = (Inl (Opaque msg), w3)"
    using nf r scan by (simp add: Dequeue_tx_def and_then_def db_exec_no_faults sql_dequeue_def)
  from withSystemTx_no_faults [where fn = Dequeue_tx, OF nf db_op_Dequeue_tx run]
  show ?thesis by (auto simp: JobQueue_Dequeue_def)
qed

lemma Dequeue_no_faults_None:
  assumes nf: "no_faults w" and r: "sql_next_job (system_session w) (w_clock w) (w_db w) = None"
  shows "\<exists>w'. JobQueue_Dequeue w = (Inr None, w') \<and> w_db w' = w_db w \<and> db_only w w'"
proof -
  obtain w3 where run: "Dequeue_tx (system_session w) (in_tx w) = (Inr None, w3)" "w_db w3 = w_db w"
    using nf r by (simp add: Dequeue_tx_def and_then_def db_exec_no_faults sql_dequeue_def ret_def)
  from withSystemTx_no_faults [where fn = Dequeue_tx, OF nf db_op_Dequeue_tx run(1)] run(2)
  show ?thesis by (auto simp: JobQueue_Dequeue_def)
qed

lemma Dequeue_no_faults_Some:
  assumes nf: "no_faults w" and r: "sql_next_job (system_session w) (w_clock w) (w_db w) = Some r"
    and err: "jb_error r = Some err"
  shows "\<exists>w'. JobQueue_Dequeue w = (Inr (Some (deliver (start_job (w_clock w) r) err)), w')
    \<and> w_db w' = (w_db w)\<lparr>jobs := update_where (\<lambda>q. jb_id q = jb_id r) (start_job (w_clock w)) (jobs (w_db w))\<rparr>
    \<and> db_only w w'"
proof -
  have "scan_job (start_job (w_clock w) r) = Inr (deliver (start_job (w_clock w) r) err)"
    using err by (simp add: scan_job_Inr start_job_def)
  then obtain w3 where run: "Dequeue_tx (system_session w) (in_tx w)
      = (Inr (Some (deliver (start_job (w_clock w) r) err)), w3)"
    "w_db w3 = (w_db w)\<lparr>jobs := update_where (\<lambda>q. jb_id q = jb_id r) (start_job (w_clock w)) (jobs (w_db w))\<rparr>"
    using nf r by (simp add: Dequeue_tx_def and_then_def db_exec_no_faults sql_dequeue_def ret_def)
  from withSystemTx_no_faults [where fn = Dequeue_tx, OF nf db_op_Dequeue_tx run(1)] run(2)
  show ?thesis by (auto simp: JobQueue_Dequeue_def)
qed

lemma Enqueue_Inr:
  assumes "JobQueue_Enqueue X ctx ty p w = (Inr i, w')"
  obtains t r where "TenantIDFromContext ctx = Inr t" "w_db w' = (w_db w)\<lparr>jobs := jobs (w_db w) @ [r]\<rparr>"
    "jb_id r = i" "jb_tenant r = t" "jb_type r = ty" "jb_status r = JobStatusPending" "jb_attempts r = 0"
    "jb_max_attempts r = 3" "jb_error r = None" "jb_scheduled r = w_clock w"
    "x_jsonb X (case p of None \<Rightarrow> ''{}'' | Some p \<Rightarrow> p) = Some (jb_payload r)"
    "i \<notin> jb_id ` set (jobs (w_db w))" "\<exists>n \<ge> w_drawn w. i = w_uuids w n"
proof -
  let ?p = "case p of None \<Rightarrow> ''{}'' | Some p \<Rightarrow> p"
  let ?fn = "\<lambda>s tenantID. db_insert (sql_enqueue X s tenantID ty ?p)"
  from assms have "withTenantTx ctx ?fn w = (Inr i, w')" by (simp add: JobQueue_Enqueue_def Let_def)
  then show thesis
  proof (rule withTenantTx_Inr)
    fix t w2 w3
    assume w2: "TenantIDFromContext ctx = Inr t" "w_db w2 = w_db w" "db_only w w2" "w_db w' = w_db w3"
      and ins: "db_insert (sql_enqueue X (tenant_session w t) t ty ?p) w2 = (Inr i, w3)"
    have c: "w_clock w2 = w_clock w" "w_uuids w2 = w_uuids w" "w_drawn w \<le> w_drawn w2"
      using w2(3) by (simp_all add: db_only_iff)
    from db_insert_InrD [OF ins] have
      "sql_enqueue X (tenant_session w t) t ty ?p (w_uuids w (w_drawn w2)) (w_clock w) (w_db w) = Inr (i, w_db w')"
      using w2 c by simp
    then show thesis
    proof (cases rule: sql_enqueue_InrD)
      case (1 r)
      then show thesis using w2 c by (intro that [of t r]) auto
    qed
  qed (rule frame)
qed

text \<open>A job just enqueued on an idle queue cannot be dequeued.\<close>

lemma fresh_job_undeliverable:
  assumes nf: "no_faults w" and idle: "sql_next_job (system_session w) (w_clock w) (w_db w) = None"
    and enq: "JobQueue_Enqueue X ctx ty p w = (Inr i, w1)"
  shows "\<exists>msg w2. JobQueue_Dequeue w1 = (Inl (Opaque msg), w2) \<and> w_db w2 = w_db w1"
  using enq
proof (cases rule: Enqueue_Inr)
  case (1 t r)
  have w1: "db_only w w1" using enq db_op_queue(1) by (blast dest: db_opD)
  have "filter (due (system_session w1) (w_clock w1)) (jobs (w_db w)) = []"
    using idle w1 by (simp add: sql_next_job_None system_session_db_only db_only_iff system_session_def)
  moreover have "due (system_session w1) (w_clock w1) r"
    using 1 w1 by (simp add: due_def db_only_iff)
  ultimately have "sql_next_job (system_session w1) (w_clock w1) (w_db w1) = Some r"
    using 1 by (simp add: sql_next_job_def)
  from Dequeue_null_error [OF no_faults_db_only [OF w1 nf] this] 1 show ?thesis by blast
qed

section \<open>The contract of port.JobQueue\<close>

definition job_look :: "World \<Rightarrow> uuid \<rightharpoonup> JobStatus \<times> int \<times> int" where
  "job_look w i = map_option (\<lambda>r. (jb_status r, jb_attempts r, jb_max_attempts r))
     (find (\<lambda>r. jb_id r = i) (jobs (w_db w)))"

definition PostgresJobQueue :: "Ext \<Rightarrow> World JobQueue" where
  "PostgresJobQueue X =
     \<lparr>jq_Enqueue = JobQueue_Enqueue X, jq_Dequeue = (\<lambda>_. JobQueue_Dequeue),
      jq_Complete = (\<lambda>_. JobQueue_Complete X), jq_Fail = (\<lambda>_. JobQueue_Fail),
      jq_Cleanup = (\<lambda>_. JobQueue_Cleanup)\<rparr>"

lemma PostgresJobQueue_sel [simp]:
  "jq_Enqueue (PostgresJobQueue X) = JobQueue_Enqueue X" "jq_Dequeue (PostgresJobQueue X) c = JobQueue_Dequeue"
  "jq_Complete (PostgresJobQueue X) c = JobQueue_Complete X" "jq_Fail (PostgresJobQueue X) c = JobQueue_Fail"
  "jq_Cleanup (PostgresJobQueue X) c = JobQueue_Cleanup"
  by (simp_all add: PostgresJobQueue_def)

lemma job_look_Some:
  "job_look w i = Some (st, a, m) \<longleftrightarrow>
    (\<exists>r. find (\<lambda>r. jb_id r = i) (jobs (w_db w)) = Some r \<and> st = jb_status r \<and> a = jb_attempts r \<and> m = jb_max_attempts r)"
  by (auto simp: job_look_def)

lemma job_look_update:
  assumes "w_db w' = d\<lparr>jobs := update_where (\<lambda>r. jb_id r = i) f (jobs (w_db w))\<rparr>"
    and "\<And>r. jb_id (f r) = jb_id r"
    and "find (\<lambda>r. jb_id r = i) (jobs (w_db w)) = Some r"
  shows "job_look w' = (job_look w)(i \<mapsto> (jb_status (f r), jb_attempts (f r), jb_max_attempts (f r)))"
  using assms by (auto simp: job_look_def find_job_update fun_eq_iff)

lemma Complete_Inr:
  "JobQueue_Complete X i res w = (Inr (), w') \<Longrightarrow>
    \<exists>v. w_db w' = (w_db w)\<lparr>jobs := update_where (\<lambda>r. jb_id r = i) (complete_job v (w_clock w)) (jobs (w_db w))\<rparr>"
  unfolding JobQueue_Complete_def
  by (drule system_exec_Inr)
    (auto simp: sql_complete_def Let_def split: option.splits dest!: sym [where t = "w_db w'"])

lemma Fail_Inr:
  "JobQueue_Fail i msg w = (Inr (), w') \<Longrightarrow>
    w_db w' = (w_db w)\<lparr>jobs := update_where (\<lambda>r. jb_id r = i) (fail_job msg (w_clock w)) (jobs (w_db w))\<rparr>"
  unfolding JobQueue_Fail_def by (drule system_exec_Inr) (auto simp: sql_fail_def)

lemma Cleanup_Inr:
  "JobQueue_Cleanup n w = (Inr k, w') \<Longrightarrow>
    (let old = finished_before (system_session w) (w_clock w - n * day) in
     k = length (filter old (jobs (w_db w))) \<and> w_db w' = (w_db w)\<lparr>jobs := filter (\<lambda>r. \<not> old r) (jobs (w_db w))\<rparr>)"
  unfolding JobQueue_Cleanup_def by (drule system_exec_Inr) (auto simp: sql_cleanup_jobs_def Let_def)

definition touches_job :: "uuid \<Rightarrow> db \<Rightarrow> db \<Rightarrow> bool" where
  "touches_job i d d' \<longleftrightarrow> (\<forall>k. k \<noteq> i \<longrightarrow> find (\<lambda>r. jb_id r = k) (jobs d') = find (\<lambda>r. jb_id r = k) (jobs d))"

lemma touches_job_update:
  "(\<And>r. P r \<Longrightarrow> jb_id r = i) \<Longrightarrow> (\<And>r. jb_id (g r) = jb_id r) \<Longrightarrow>
    touches_job i d (d\<lparr>jobs := update_where P g (jobs d)\<rparr>)"
  by (auto simp: touches_job_def find_job_update_where find_None_iff_ex
      intro!: option.map_ident_strong dest!: find_Some_in)

lemma job_look_other:
  assumes "withSystemTx (\<lambda>s. db_exec (f s)) w = (r, w')" "k \<noteq> i"
    and f: "\<And>s now d x d'. f s now d = Inr (x, d') \<Longrightarrow> touches_job i d d'"
  shows "job_look w' k = job_look w k"
  using assms(1) db_op_exec
proof (cases rule: withSystemTx_cases)
  case (committed w2 x w3)
  from f [OF db_exec_InrD [OF committed(3)]] committed(1,4) assms(2) show ?thesis
    by (simp add: job_look_def touches_job_def)
qed (simp add: job_look_def)

lemma Complete_other: "k \<noteq> i \<Longrightarrow> job_look (snd (JobQueue_Complete X i res w)) k = job_look w k"
  unfolding JobQueue_Complete_def
  by (rule job_look_other [where i = i], rule prod.collapse [symmetric])
    (auto simp: sql_complete_def Let_def complete_job_def intro: touches_job_update split: option.splits)

lemma Fail_other: "k \<noteq> i \<Longrightarrow> job_look (snd (JobQueue_Fail i msg w)) k = job_look w k"
  unfolding JobQueue_Fail_def
  by (rule job_look_other [where i = i], rule prod.collapse [symmetric])
    (auto simp: sql_fail_def fail_job_def intro: touches_job_update)

interpretation pg_jobs: job_queue "PostgresJobQueue X" ctx "\<lambda>w. job_inv (w_db w)" job_look
  for X ctx
proof (unfold_locales, unfold PostgresJobQueue_sel)
  fix w i st a m assume "job_inv (w_db w)" "job_look w i = Some (st, a, m)"
  then show "0 \<le> a \<and> a \<le> m \<and> (st = JobStatusPending \<longrightarrow> a < m)"
    by (auto simp: job_look_Some job_inv_def attempts_ok_def dest!: find_Some_in)
next
  fix w j w' assume inv: "job_inv (w_db w)" and "JobQueue_Dequeue w = (Inr (Some j), w')"
  from this(2) show "\<exists>m. job_look w (job_ID j) = Some (JobStatusPending, job_Attempts j - 1, m)
      \<and> job_look w' = (job_look w)(job_ID j \<mapsto> (JobStatusRunning, job_Attempts j, m))"
  proof (cases rule: Dequeue_SomeD)
    case (1 r err)
    have r: "r \<in> set (jobs (w_db w))" "jb_status r = JobStatusPending"
      using sql_next_job_SomeD [OF 1(1)] by (simp_all add: due_def)
    with inv have f: "find (\<lambda>q. jb_id q = jb_id r) (jobs (w_db w)) = Some r" by (simp add: find_job)
    from job_look_update [OF 1(4) _ this] show ?thesis
      using 1(3) f r by (auto simp: deliver_def start_job_def job_look_Some)
  qed
next
  fix w w' assume "JobQueue_Dequeue w = (Inr None, w')"
  then show "job_look w' = job_look w" using Dequeue_NoneD(1) by (fastforce simp: job_look_def)
next
  fix w i res w' st a m
  assume "JobQueue_Complete X i res w = (Inr (), w')" and l: "job_look w i = Some (st, a, m)"
  then obtain v where "w_db w' = (w_db w)\<lparr>jobs := update_where (\<lambda>r. jb_id r = i) (complete_job v (w_clock w)) (jobs (w_db w))\<rparr>"
    using Complete_Inr by blast
  from job_look_update [OF this] l show "job_look w' = (job_look w)(i \<mapsto> (JobStatusCompleted, a, m))"
    by (auto simp: complete_job_def job_look_Some)
next
  fix w i msg w' st a m
  assume "JobQueue_Fail i msg w = (Inr (), w')" and l: "job_look w i = Some (st, a, m)"
  then show "job_look w' = (job_look w)(i \<mapsto> (if a \<ge> m then JobStatusFailed else JobStatusPending, a, m))"
    using job_look_update [OF Fail_Inr] by (auto simp: fail_job_def job_look_Some)
qed (rule keeps_queue Complete_other Fail_other; assumption?)+

section \<open>Deliveries of one job\<close>

text \<open>Calls of the queue by its clients, and the time that passes between them.\<close>

datatype queue_call =
    QEnqueue Ctx string "string option"
  | QDequeue
  | QComplete uuid "string option"
  | QFail uuid string
  | QCleanup int
  | QWait nat

fun queue_step :: "Ext \<Rightarrow> queue_call \<Rightarrow> World \<Rightarrow> World" where
  "queue_step X (QEnqueue ctx ty p) w = snd (JobQueue_Enqueue X ctx ty p w)"
| "queue_step X QDequeue w = snd (JobQueue_Dequeue w)"
| "queue_step X (QComplete i res) w = snd (JobQueue_Complete X i res w)"
| "queue_step X (QFail i msg) w = snd (JobQueue_Fail i msg w)"
| "queue_step X (QCleanup n) w = snd (JobQueue_Cleanup n w)"
| "queue_step X (QWait n) w = w\<lparr>w_clock := w_clock w + int n\<rparr>"

definition delivers :: "uuid \<Rightarrow> queue_call \<Rightarrow> World \<Rightarrow> bool" where
  "delivers i c w \<longleftrightarrow> c = QDequeue \<and>
     (case fst (JobQueue_Dequeue w) of Inr (Some j) \<Rightarrow> job_ID j = i | _ \<Rightarrow> False)"

fun deliveries :: "Ext \<Rightarrow> uuid \<Rightarrow> queue_call list \<Rightarrow> World \<Rightarrow> nat" where
  "deliveries X i [] w = 0"
| "deliveries X i (c # cs) w = (if delivers i c w then 1 else 0) + deliveries X i cs (queue_step X c w)"

text \<open>The attempts a job has left.\<close>

definition budget :: "uuid \<Rightarrow> db \<Rightarrow> nat" where
  "budget i d = (case find (\<lambda>r. jb_id r = i) (jobs d) of
     None \<Rightarrow> 0 | Some r \<Rightarrow> nat (jb_max_attempts r - jb_attempts r))"

lemma budget_jobs: "jobs d' = jobs d \<Longrightarrow> budget i d' = budget i d"
  by (simp add: budget_def)

lemma budget_update:
  assumes "\<And>r. jb_id (f r) = jb_id r" "\<And>r. jb_max_attempts (f r) = jb_max_attempts r"
    "\<And>r. jb_attempts r \<le> jb_attempts (f r)"
  shows "budget i (d\<lparr>jobs := update_where P f (jobs d)\<rparr>) \<le> budget i d"
  using assms by (auto simp: budget_def find_job_update_where nat_mono split: option.splits)

lemma budget_filter: "distinct (map jb_id (jobs d)) \<Longrightarrow> budget i (d\<lparr>jobs := filter P (jobs d)\<rparr>) \<le> budget i d"
proof -
  assume d: "distinct (map jb_id (jobs d))"
  have "find (\<lambda>r. jb_id r = i) (filter P rs) = None \<or>
    find (\<lambda>r. jb_id r = i) (filter P rs) = find (\<lambda>r. jb_id r = i) rs" if "distinct (map jb_id rs)" for rs
    using that by (induction rs) (auto simp: find_None_iff_ex image_iff)
  from this [OF d] show ?thesis by (auto simp: budget_def)
qed

lemma budget_append: "jb_id r \<noteq> i \<Longrightarrow> budget i (d\<lparr>jobs := jobs d @ [r]\<rparr>) = budget i d"
  by (simp add: budget_def find_append split: option.splits)

lemma budget_keeps:
  "db_keeps (\<lambda>d. job_inv d \<and> budget i d \<le> n) JobQueue_Dequeue"
  "db_keeps (\<lambda>d. job_inv d \<and> budget i d \<le> n) (JobQueue_Complete X k res)"
  "db_keeps (\<lambda>d. job_inv d \<and> budget i d \<le> n) (JobQueue_Fail k msg)"
  "db_keeps (\<lambda>d. job_inv d \<and> budget i d \<le> n) (JobQueue_Cleanup m)"
proof -
  have start: "budget i d' \<le> budget i d" if "sql_dequeue s now d = Inr (x, d')" for s now d x d'
    using that by (auto simp: sql_dequeue_def start_job_def intro!: budget_update split: option.splits)
  have comp: "budget i d' \<le> budget i d" if "sql_complete X s k res now d = Inr (x, d')" for s now d x d'
    using that by (auto simp: sql_complete_def Let_def complete_job_def intro!: budget_update split: option.splits)
  have fl: "budget i d' \<le> budget i d" if "sql_fail s k msg now d = Inr (x, d')" for s now d x d'
    using that by (auto simp: sql_fail_def fail_job_def intro!: budget_update)
  have cl: "budget i d' \<le> budget i d" if "sql_cleanup_jobs s m now d = Inr (x, d')" "job_inv d" for s now d x d'
    using that db_inv_D(6) by (auto simp: sql_cleanup_jobs_def Let_def job_inv_def intro!: budget_filter)
  have scan: "db_keeps I (case row of None \<Rightarrow> ret None
      | Some r \<Rightarrow> (case scan_job r of Inl e \<Rightarrow> fail e | Inr job \<Rightarrow> ret (Some job)))" for I row
    by (intro preserves)
  show "db_keeps (\<lambda>d. job_inv d \<and> budget i d \<le> n) JobQueue_Dequeue"
    unfolding JobQueue_Dequeue_def
    by (intro db_keeps_withSystemTx frame, unfold Dequeue_tx_def, intro keeps_and_then scan db_keeps_exec)
      (auto intro: job_inv_dequeue order_trans [OF start])
  show "db_keeps (\<lambda>d. job_inv d \<and> budget i d \<le> n) (JobQueue_Complete X k res)"
    unfolding JobQueue_Complete_def
    by (intro preserves frame) (auto intro: job_inv_complete order_trans [OF comp])
  show "db_keeps (\<lambda>d. job_inv d \<and> budget i d \<le> n) (JobQueue_Fail k msg)"
    unfolding JobQueue_Fail_def
    by (intro preserves frame) (auto intro: job_inv_fail order_trans [OF fl])
  show "db_keeps (\<lambda>d. job_inv d \<and> budget i d \<le> n) (JobQueue_Cleanup m)"
    unfolding JobQueue_Cleanup_def
    by (intro preserves frame) (auto intro: job_inv_cleanup order_trans [OF cl])
qed

lemma budget_enqueue:
  assumes "\<And>n. w_drawn w \<le> n \<Longrightarrow> w_uuids w n \<noteq> i"
  shows "budget i (w_db (snd (JobQueue_Enqueue X ctx ty p w))) = budget i (w_db w)"
proof -
  let ?p = "case p of None \<Rightarrow> ''{}'' | Some p \<Rightarrow> p"
  let ?fn = "\<lambda>s tenantID. db_insert (sql_enqueue X s tenantID ty ?p)"
  obtain r w' where r: "withTenantTx ctx ?fn w = (r, w')" by fastforce
  from r db_op_insert have "budget i (w_db w') = budget i (w_db w)"
  proof (cases rule: withTenantTx_cases)
    case (committed t w2 x w3)
    then have c: "w_uuids w2 = w_uuids w" "w_drawn w \<le> w_drawn w2" by (simp_all add: db_only_iff)
    from db_insert_InrD [OF committed(4)] show ?thesis
    proof (cases rule: sql_enqueue_InrD)
      case (1 q)
      then have "jb_id q \<noteq> i" using assms c by auto
      then show ?thesis using 1(2) committed(2,5) by (simp add: budget_append)
    qed
  qed simp
  with r show ?thesis by (simp add: JobQueue_Enqueue_def Let_def)
qed

lemma budget_delivery:
  assumes inv: "job_inv (w_db w)" and dq: "JobQueue_Dequeue w = (Inr (Some j), w')"
  shows "Suc (budget (job_ID j) (w_db w')) = budget (job_ID j) (w_db w)"
proof -
  from dq inv have inv': "job_inv (w_db w')" using keepsD [OF keeps_queue(2)] by blast
  from pg_jobs.dequeue_Some [of w _ _ j w'] inv dq obtain m where
    l: "job_look w (job_ID j) = Some (JobStatusPending, job_Attempts j - 1, m)"
      "job_look w' (job_ID j) = Some (JobStatusRunning, job_Attempts j, m)" by auto
  from pg_jobs.look_bound [OF inv' l(2)] l show ?thesis by (auto simp: budget_def job_look_Some)
qed

lemma deliveries_budget:
  assumes "job_inv (w_db w)" "\<And>n. w_drawn w \<le> n \<Longrightarrow> w_uuids w n \<noteq> i"
  shows "deliveries X i cs w \<le> budget i (w_db w)"
  using assms
proof (induction cs arbitrary: w)
  case (Cons c cs)
  let ?w = "queue_step X c w"
  have uu: "w_uuids ?w = w_uuids w \<and> w_drawn w \<le> w_drawn ?w"
    using db_op_queue by (cases c) (auto simp: db_op_def db_only_iff)
  have inv: "job_inv (w_db ?w)"
    using Cons.prems(1) keeps_queue by (cases c) (auto simp: keeps_def)
  have IH: "deliveries X i cs ?w \<le> budget i (w_db ?w)"
    using Cons.IH [OF inv] Cons.prems(2) uu by auto
  show ?case
  proof (cases "delivers i c w")
    case True
    then obtain j where "fst (JobQueue_Dequeue w) = Inr (Some j)" "job_ID j = i" and c: "c = QDequeue"
      by (auto simp: delivers_def split: sum.splits option.splits)
    then have "JobQueue_Dequeue w = (Inr (Some j), ?w)" "job_ID j = i" by (simp_all add: prod_eq_iff)
    with budget_delivery [OF Cons.prems(1)] IH True show ?thesis by fastforce
  next
    case False
    have "budget i (w_db ?w) \<le> budget i (w_db w)"
      using budget_keeps [of i "budget i (w_db w)"] Cons.prems budget_enqueue
      by (cases c) (auto simp: keeps_def intro: order.refl)
    with IH False show ?thesis by simp
  qed
qed simp

section \<open>Retry and backoff\<close>

text \<open>After a failure: dead letter when the attempts are used up, else due after the backoff.\<close>

lemma Fail_look:
  assumes "job_inv (w_db w)" "r \<in> set (jobs (w_db w))" "JobQueue_Fail (jb_id r) msg w = (Inr (), w')"
  shows "find (\<lambda>q. jb_id q = jb_id r) (jobs (w_db w')) = Some (fail_job msg (w_clock w) r)"
  using Fail_Inr [OF assms(3)] find_job [OF assms(1,2)] by (simp add: find_job_update fail_job_def)

lemma fail_job_due:
  "1 \<le> jb_attempts r \<Longrightarrow> due s t (fail_job msg now r) \<longleftrightarrow>
     rls s (jb_tenant r) \<and> jb_attempts r < jb_max_attempts r \<and> now + 30000000 * 2 ^ nat (jb_attempts r - 1) \<le> t"
  by (auto simp: due_def fail_job_def backoff_def second_def)

lemma fail_job_dead:
  "jb_attempts r \<ge> jb_max_attempts r \<Longrightarrow>
     jb_status (fail_job msg now r) = JobStatusFailed \<and> jb_completed (fail_job msg now r) = Some now"
  by (simp add: fail_job_def)

text \<open>Clean-up never removes a job that is pending or running.\<close>

lemma Cleanup_keeps_open:
  assumes "JobQueue_Cleanup n w = (Inr k, w')" "r \<in> set (jobs (w_db w))" "r \<notin> set (jobs (w_db w'))"
  shows "(jb_status r = JobStatusCompleted \<or> jb_status r = JobStatusFailed)
    \<and> (\<exists>c. jb_completed r = Some c \<and> c < w_clock w - n * day)"
  using Cleanup_Inr [OF assms(1)] assms(2,3)
  by (auto simp: Let_def finished_before_def split: option.splits)

end
