(* ===== verification/Job_Concurrency.thy ===== *)
theory Job_Concurrency
  imports Job_Queue
begin

text \<open>
  Several workers on one queue: \<^verbatim>\<open>Dequeue\<close>'s statement broken into the steps at which
  PostgreSQL (READ COMMITTED, \<^verbatim>\<open>FOR UPDATE SKIP LOCKED\<close>) lets other sessions in.  The statement
  takes a snapshot of the due jobs in order, passes over those that are locked or no longer due,
  locks the first one left and rechecks it, and updates it when the transaction commits.  The
  invariant: a job that is being worked on is held by one worker.
\<close>

section \<open>Workers and their steps\<close>

text \<open>
  \<open>Scanning js\<close>: the sub-select has the ids \<open>js\<close> of its snapshot left to try.  \<open>Locked i\<close>: the row
  is locked and updated, the transaction is open.  \<open>Working i a\<close>: delivery number \<open>a\<close> of job \<open>i\<close> is
  in the hands of the worker.
\<close>

datatype phase = Idle | Scanning "uuid list" | Locked uuid | Working uuid int

record pool =
  p_jobs :: "job_row list"
  p_phase :: "nat \<Rightarrow> phase"
  p_now :: time

definition locked :: "pool \<Rightarrow> uuid \<Rightarrow> bool" where
  "locked p i \<longleftrightarrow> (\<exists>k. p_phase p k = Locked i)"

definition is_due :: "time \<Rightarrow> job_row \<Rightarrow> bool" where
  "is_due now r \<longleftrightarrow> jb_status r = JobStatusPending \<and> jb_scheduled r \<le> now"

definition snapshot :: "pool \<Rightarrow> uuid list" where
  "snapshot p = map jb_id (sort_key jb_scheduled (filter (is_due (p_now p)) (p_jobs p)))"

definition due_now :: "pool \<Rightarrow> uuid \<Rightarrow> bool" where
  "due_now p i \<longleftrightarrow> (\<exists>r \<in> set (p_jobs p). jb_id r = i \<and> is_due (p_now p) r)"

definition set_phase :: "nat \<Rightarrow> phase \<Rightarrow> pool \<Rightarrow> pool" where
  "set_phase k ph p = p\<lparr>p_phase := (p_phase p)(k := ph)\<rparr>"

definition on_job :: "uuid \<Rightarrow> (job_row \<Rightarrow> job_row) \<Rightarrow> pool \<Rightarrow> pool" where
  "on_job i f p = p\<lparr>p_jobs := update_where (\<lambda>r. jb_id r = i) f (p_jobs p)\<rparr>"

inductive pool_step :: "pool \<Rightarrow> nat option \<Rightarrow> pool \<Rightarrow> bool" where
  scan: "p_phase p k = Idle \<Longrightarrow> pool_step p (Some k) (set_phase k (Scanning (snapshot p)) p)"
| skip: "p_phase p k = Scanning (i # js) \<Longrightarrow> locked p i \<or> \<not> due_now p i \<Longrightarrow>
    pool_step p (Some k) (set_phase k (Scanning js) p)"
| lock: "p_phase p k = Scanning (i # js) \<Longrightarrow> \<not> locked p i \<Longrightarrow> due_now p i \<Longrightarrow>
    pool_step p (Some k) (set_phase k (Locked i) p)"
| no_job: "p_phase p k = Scanning [] \<Longrightarrow> pool_step p (Some k) (set_phase k Idle p)"
| commit: "p_phase p k = Locked i \<Longrightarrow> r \<in> set (p_jobs p) \<Longrightarrow> jb_id r = i \<Longrightarrow>
    pool_step p (Some k) (set_phase k (Working i (jb_attempts r + 1)) (on_job i (start_job (p_now p)) p))"
| rollback: "p_phase p k = Locked i \<Longrightarrow> pool_step p (Some k) (set_phase k Idle p)"
| complete: "p_phase p k = Working i a \<Longrightarrow>
    pool_step p (Some k) (set_phase k Idle (on_job i (complete_job res (p_now p)) p))"
| failed: "p_phase p k = Working i a \<Longrightarrow>
    pool_step p (Some k) (set_phase k Idle (on_job i (fail_job msg (p_now p)) p))"
| abandon: "p_phase p k = Working i a \<Longrightarrow> pool_step p (Some k) (set_phase k Idle p)"
| enqueue: "jb_id r \<notin> jb_id ` set (p_jobs p) \<Longrightarrow> jb_status r = JobStatusPending \<Longrightarrow>
    pool_step p None (p\<lparr>p_jobs := p_jobs p @ [r]\<rparr>)"
| cleanup: "\<forall>r \<in> set (p_jobs p). \<not> P r \<longrightarrow> jb_status r = JobStatusCompleted \<or> jb_status r = JobStatusFailed \<Longrightarrow>
    pool_step p None (p\<lparr>p_jobs := filter P (p_jobs p)\<rparr>)"
| pass: "pool_step p None (p\<lparr>p_now := p_now p + int n\<rparr>)"

inductive pool_reach :: "pool \<Rightarrow> pool \<Rightarrow> bool" for p where
  begin_at: "pool_reach p p"
| onward: "pool_reach p q \<Longrightarrow> pool_step q k q' \<Longrightarrow> pool_reach p q'"

definition initial_pool :: "job_row list \<Rightarrow> time \<Rightarrow> pool" where
  "initial_pool js now = \<lparr>p_jobs = js, p_phase = (\<lambda>_. Idle), p_now = now\<rparr>"

lemma pool_simps [simp]:
  "p_phase (set_phase k ph p) = (p_phase p)(k := ph)" "p_jobs (set_phase k ph p) = p_jobs p"
  "p_now (set_phase k ph p) = p_now p" "p_phase (on_job i f p) = p_phase p"
  "p_jobs (on_job i f p) = update_where (\<lambda>r. jb_id r = i) f (p_jobs p)" "p_now (on_job i f p) = p_now p"
  by (simp_all add: set_phase_def on_job_def)

section \<open>The invariant\<close>

text \<open>
  Ids are unique; a locked row is pending, and locked once; a job in someone's hands is running,
  with the attempt number of the delivery, and in no one else's.
\<close>

definition row_of :: "pool \<Rightarrow> uuid \<Rightarrow> job_row option" where
  "row_of p i = find (\<lambda>r. jb_id r = i) (p_jobs p)"

definition excl :: "pool \<Rightarrow> bool" where
  "excl p \<longleftrightarrow> (\<forall>k l. k \<noteq> l \<longrightarrow>
     (\<forall>i. p_phase p k = Locked i \<longrightarrow> p_phase p l \<noteq> Locked i) \<and>
     (\<forall>i a b. p_phase p k = Working i a \<longrightarrow> p_phase p l \<noteq> Working i b))"

definition held :: "pool \<Rightarrow> bool" where
  "held p \<longleftrightarrow> (\<forall>k i. p_phase p k = Locked i \<longrightarrow> (\<exists>r. row_of p i = Some r \<and> jb_status r = JobStatusPending)) \<and>
     (\<forall>k i a. p_phase p k = Working i a \<longrightarrow>
        (\<exists>r. row_of p i = Some r \<and> jb_status r = JobStatusRunning \<and> jb_attempts r = a))"

definition pool_inv :: "pool \<Rightarrow> bool" where
  "pool_inv p \<longleftrightarrow> distinct (map jb_id (p_jobs p)) \<and> excl p \<and> held p"

lemma row_of_mem:
  "distinct (map jb_id (p_jobs p)) \<Longrightarrow> row_of p i = Some r \<longleftrightarrow> r \<in> set (p_jobs p) \<and> jb_id r = i"
  unfolding row_of_def
  by (induction "p_jobs p" arbitrary: p rule: list.induct)
    (use find_Some_in distinct_map_unique find_None_iff_ex in \<open>metis (mono_tags, lifting) not_None_eq\<close>)+

lemma row_of_upd:
  "(\<And>r. jb_id (f r) = jb_id r) \<Longrightarrow> row_of (on_job k f p) i = (if i = k then map_option f (row_of p i) else row_of p i)"
  by (simp add: row_of_def find_job_update)

lemma row_of_phase [simp]: "row_of (set_phase k ph p) = row_of p"
  by (simp add: row_of_def fun_eq_iff)

text \<open>A worker puts its job down, with any outcome written to the row.\<close>

lemma pool_inv_finish:
  assumes inv: "pool_inv p" and k: "p_phase p k = Working i a" and f: "\<And>r. jb_id (f r) = jb_id r"
  shows "pool_inv (set_phase k Idle (on_job i f p))"
proof -
  have w: "l \<noteq> k \<Longrightarrow> p_phase p l \<noteq> Working i b" "p_phase p l \<noteq> Locked i" for l b
    using inv k by (fastforce simp: pool_inv_def excl_def held_def)+
  have "excl (set_phase k Idle (on_job i f p))" using inv by (auto simp: pool_inv_def excl_def)
  moreover have "held (set_phase k Idle (on_job i f p))"
    using inv w f by (auto simp: pool_inv_def held_def row_of_upd)
  ultimately show ?thesis using inv f by (simp add: pool_inv_def map_update_where_same)
qed

lemma pool_inv_step: "pool_step p k q \<Longrightarrow> pool_inv p \<Longrightarrow> pool_inv q"
proof (induction rule: pool_step.induct)
  case (lock p k i js)
  obtain r where "row_of p i = Some r" "jb_status r = JobStatusPending"
    using lock by (auto simp: pool_inv_def row_of_mem due_now_def is_due_def)
  with lock show ?case
    by (auto simp: pool_inv_def excl_def held_def locked_def)
next
  case (commit p k i r)
  then have r: "row_of p i = Some r" by (auto simp: pool_inv_def row_of_mem)
  have "jb_status r = JobStatusPending" using commit r by (fastforce simp: pool_inv_def held_def)
  then have w: "p_phase p l \<noteq> Working i a" for l a using commit.prems r by (fastforce simp: pool_inv_def held_def)
  have l: "l \<noteq> k \<Longrightarrow> p_phase p l \<noteq> Locked i" for l using commit by (auto simp: pool_inv_def excl_def)
  have "excl (set_phase k (Working i (jb_attempts r + 1)) (on_job i (start_job (p_now p)) p))"
    using commit w by (auto simp: pool_inv_def excl_def)
  moreover have "held (set_phase k (Working i (jb_attempts r + 1)) (on_job i (start_job (p_now p)) p))"
    using commit w l r by (auto simp: pool_inv_def held_def row_of_upd start_job_def)
  ultimately show ?case using commit
    by (simp add: pool_inv_def map_update_where_same start_job_def)
next
  case (complete p k i a res)
  then show ?case by (intro pool_inv_finish) (simp_all add: complete_job_def)
next
  case (failed p k i a msg)
  then show ?case by (intro pool_inv_finish) (simp_all add: fail_job_def)
next
  case (enqueue r p)
  have "row_of p i = Some q \<Longrightarrow> row_of (p\<lparr>p_jobs := p_jobs p @ [r]\<rparr>) i = Some q" for i q
    by (simp add: row_of_def find_append)
  then have "held (p\<lparr>p_jobs := p_jobs p @ [r]\<rparr>)"
    using enqueue unfolding pool_inv_def held_def by simp metis
  with enqueue show ?case by (simp add: pool_inv_def excl_def)
next
  case (cleanup p P)
  have d: "distinct (map jb_id (p_jobs p))" using cleanup by (simp add: pool_inv_def)
  have "row_of (p\<lparr>p_jobs := filter P (p_jobs p)\<rparr>) i = Some q"
    if "row_of p i = Some q" "jb_status q = JobStatusPending \<or> jb_status q = JobStatusRunning" for i q
    using that cleanup.hyps d by (auto simp: row_of_mem distinct_map_filter)
  then have "held (p\<lparr>p_jobs := filter P (p_jobs p)\<rparr>)"
    using cleanup.prems unfolding pool_inv_def held_def by simp metis
  with cleanup show ?case by (simp add: pool_inv_def excl_def distinct_map_filter)
next
  case (pass p n)
  then show ?case by (simp add: pool_inv_def excl_def held_def row_of_def)
qed (auto simp: pool_inv_def excl_def held_def)

lemma pool_inv_reach: "pool_reach p q \<Longrightarrow> pool_inv p \<Longrightarrow> pool_inv q"
  by (induction rule: pool_reach.induct) (auto intro: pool_inv_step)

lemma initial_pool_inv: "distinct (map jb_id js) \<Longrightarrow> pool_inv (initial_pool js now)"
  by (simp add: initial_pool_def pool_inv_def excl_def held_def)

section \<open>No two workers, no waiting\<close>

text \<open>A step is one worker's, or the queue's users', who never touch a worker.\<close>

inductive_cases worker_step: "pool_step p (Some k) q"
inductive_cases outside_step: "pool_step p None q"

lemma steps_framed:
  "pool_step p (Some k) q \<Longrightarrow> l \<noteq> k \<Longrightarrow> p_phase q l = p_phase p l" "pool_step p (Some k) q \<Longrightarrow> p_now q = p_now p"
  "pool_step p None q \<Longrightarrow> p_phase q = p_phase p"
  by (erule worker_step; simp)+ (erule outside_step; simp)

text \<open>A delivery starts from the worker's own lock, on a row whose attempt it counts.\<close>

lemma delivery_from_lock:
  "pool_step p (Some k) q \<Longrightarrow> p_phase q k = Working i a \<Longrightarrow>
     p_phase p k = Locked i \<and> (\<exists>r \<in> set (p_jobs p). jb_id r = i \<and> a = jb_attempts r + 1)"
  by (erule worker_step) auto

lemma one_worker_per_job:
  assumes "pool_reach (initial_pool js now) p" "distinct (map jb_id js)"
    and "p_phase p k = Working i a" "p_phase p l = Working i b"
  shows "k = l"
proof -
  have "excl p" using pool_inv_reach [OF assms(1) initial_pool_inv [OF assms(2)]] by (simp add: pool_inv_def)
  with assms(3,4) show ?thesis unfolding excl_def by metis
qed

text \<open>A worker inside the sub-select can always move, whatever the others hold.\<close>

lemma scanning_moves:
  "p_phase p k = Scanning js \<Longrightarrow> \<exists>q. pool_step p (Some k) q \<and>
     (p_phase q k = Idle \<or> (\<exists>i. p_phase q k = Locked i \<and> \<not> locked p i) \<or>
      (\<exists>js'. p_phase q k = Scanning js' \<and> length js' < length js))"
proof (cases js)
  case Nil
  assume "p_phase p k = Scanning js"
  with Nil have "pool_step p (Some k) (set_phase k Idle p)" by (simp add: no_job)
  then show ?thesis by fastforce
next
  case (Cons i js')
  assume ph: "p_phase p k = Scanning js"
  show ?thesis
  proof (cases "locked p i \<or> \<not> due_now p i")
    case True
    with ph Cons have "pool_step p (Some k) (set_phase k (Scanning js') p)" by (simp add: skip)
    then show ?thesis using Cons by fastforce
  next
    case False
    with ph Cons have "pool_step p (Some k) (set_phase k (Locked i) p)" by (simp add: lock)
    then show ?thesis using False by fastforce
  qed
qed

end
