(* ===== verification/Worker.thy ===== *)
theory Worker
  imports Job_Queue
begin

text \<open>
  \<^verbatim>\<open>service/worker.go\<close>, \<^verbatim>\<open>service/job_handlers.go\<close> and the SQS stub
  (\<^verbatim>\<open>sqs/sqs_queue.go\<close>): the poll loop over an arbitrary \<^verbatim>\<open>port.JobQueue\<close>, and what one
  iteration does to the queue, proved from the queue's contract.
\<close>

section \<open>The worker\<close>

record 'w Worker =
  wk_queue :: "'w JobQueue"
  wk_handlers :: "string \<rightharpoonup> 'w JobHandler"
  wk_poll :: time
  wk_concurrency :: int

definition NewWorker :: "'w JobQueue \<Rightarrow> (string \<rightharpoonup> 'w JobHandler) \<Rightarrow> time \<Rightarrow> int \<Rightarrow> 'w Worker" where
  "NewWorker q handlers pollInterval concurrency =
     \<lparr>wk_queue = q, wk_handlers = handlers, wk_poll = pollInterval,
      wk_concurrency = (if concurrency < 1 then 1 else concurrency)\<rparr>"

text \<open>
  \<^verbatim>\<open>jobs_processed_total\<close> by job type and outcome, and the number of observations of
  the duration histogram by job type.
\<close>

record workerMetrics =
  wm_processed :: "string \<times> string \<Rightarrow> nat"
  wm_durations :: "string \<Rightarrow> nat"

definition count_job :: "string \<Rightarrow> string \<Rightarrow> workerMetrics \<Rightarrow> workerMetrics" where
  "count_job ty outcome m =
     m\<lparr>wm_processed := (wm_processed m)((ty, outcome) := wm_processed m (ty, outcome) + 1)\<rparr>"

definition observe_job :: "string \<Rightarrow> workerMetrics \<Rightarrow> workerMetrics" where
  "observe_job ty m = m\<lparr>wm_durations := (wm_durations m)(ty := wm_durations m ty + 1)\<rparr>"

definition handler_ctx :: "Ctx \<Rightarrow> Job \<Rightarrow> Ctx" where
  "handler_ctx ctx job =
     WithIdentity ctx \<lparr>id_TenantID = job_TenantID job, id_KeyID = 0, id_Scopes = [''admin:*''], id_ExpiresAt = None\<rparr>"

definition processOne :: "'w Worker \<Rightarrow> Ctx \<Rightarrow> workerMetrics \<times> 'w \<Rightarrow> workerMetrics \<times> 'w" where
  "processOne wk ctx mw =
     (let m = fst mw; w = snd mw; q = wk_queue wk in
      case jq_Dequeue q ctx w of
        (Inl err, w1) \<Rightarrow> (m, w1)
      | (Inr None, w1) \<Rightarrow> (m, w1)
      | (Inr (Some job), w1) \<Rightarrow>
          (case wk_handlers wk (job_Type job) of
             None \<Rightarrow> (count_job (job_Type job) ''unknown_type'' m,
                      snd (jq_Fail q ctx (job_ID job) (''unknown job type: '' @ job_Type job) w1))
           | Some handler \<Rightarrow>
               (case handler (handler_ctx ctx job) (job_Payload job) w1 of
                  (Inl execErr, w2) \<Rightarrow>
                    (count_job (job_Type job) ''failed'' (observe_job (job_Type job) m),
                     snd (jq_Fail q ctx (job_ID job) (Error execErr) w2))
                | (Inr result, w2) \<Rightarrow>
                    (case jq_Complete q ctx (job_ID job) result w2 of
                       (Inl err, w3) \<Rightarrow> (observe_job (job_Type job) m, w3)
                     | (Inr _, w3) \<Rightarrow>
                         (count_job (job_Type job) ''completed'' (observe_job (job_Type job) m), w3)))))"

definition worker_loop :: "'w Worker \<Rightarrow> Ctx \<Rightarrow> loop_event list \<Rightarrow> workerMetrics \<times> 'w \<Rightarrow> workerMetrics \<times> 'w" where
  "worker_loop wk ctx = ticker_loop (processOne wk ctx)"

text \<open>
  \<^verbatim>\<open>Run\<close>: the goroutines 0 to \<open>concurrency - 1\<close>, each with its own ticker; the schedule says
  whose event comes next.  A goroutine that saw \<^verbatim>\<open>ctx.Done()\<close> is gone.
\<close>

fun worker_run :: "'w Worker \<Rightarrow> Ctx \<Rightarrow> nat list \<Rightarrow> (nat \<times> loop_event) list \<Rightarrow>
    workerMetrics \<times> 'w \<Rightarrow> workerMetrics \<times> 'w" where
  "worker_run wk ctx live [] mw = mw"
| "worker_run wk ctx live ((i, e) # es) mw =
     (if i \<notin> set live then worker_run wk ctx live es mw
      else case e of
        Done \<Rightarrow> worker_run wk ctx (removeAll i live) es mw
      | Tick \<Rightarrow> worker_run wk ctx live es (processOne wk ctx mw))"

definition Worker_Run :: "'w Worker \<Rightarrow> Ctx \<Rightarrow> (nat \<times> loop_event) list \<Rightarrow> workerMetrics \<times> 'w \<Rightarrow> workerMetrics \<times> 'w" where
  "Worker_Run wk ctx = worker_run wk ctx [0..<nat (wk_concurrency wk)]"

section \<open>Handlers (service/job_handlers.go)\<close>

definition JobTypeNoop :: string where "JobTypeNoop = ''noop''"

definition NoopJobHandler_Execute :: "'w JobHandler" where
  "NoopJobHandler_Execute ctx payload = (if length payload = 0 then ret (Some ''{}'') else ret (Some payload))"

text \<open>The registry of \<^verbatim>\<open>cmd/api/main.go\<close>.\<close>

definition default_handlers :: "string \<rightharpoonup> 'w JobHandler" where
  "default_handlers = [JobTypeNoop \<mapsto> NoopJobHandler_Execute]"

section \<open>The SQS stub\<close>

record SqsConfig =
  sqs_QueueURL :: string
  sqs_Region :: string

definition SqsJobQueue :: "SqsConfig \<Rightarrow> 'w JobQueue" where
  "SqsJobQueue cfg =
     \<lparr>jq_Enqueue = (\<lambda>_ _ _. fail (Opaque (''sqs.JobQueue.Enqueue: not implemented '' @ [CHR 0xE2, CHR 0x80, CHR 0x94]
        @ '' set JOB_QUEUE_BACKEND=postgres or implement SQS SendMessage''))),
      jq_Dequeue = (\<lambda>_. ret None),
      jq_Complete = (\<lambda>_ _ _. fail (Opaque ''sqs.JobQueue.Complete: not implemented'')),
      jq_Fail = (\<lambda>_ _ _. fail (Opaque ''sqs.JobQueue.Fail: not implemented'')),
      jq_Cleanup = (\<lambda>_ _. ret 0)\<rparr>"

interpretation sqs_jobs: job_queue "SqsJobQueue cfg" ctx "\<lambda>_. True" "\<lambda>_ _. None" for cfg ctx
  by unfold_locales (auto simp: SqsJobQueue_def keeps_def)

section \<open>One iteration, from the contract of the queue\<close>

text \<open>Handlers that do not reach into the queue.\<close>

locale worker_queue = job_queue +
  fixes handlers :: "string \<rightharpoonup> 'a JobHandler"
  assumes handler_keeps: "handlers ty = Some h \<Longrightarrow> keeps inv (h c p)"
    and handler_look: "handlers ty = Some h \<Longrightarrow> look (snd (h c p w)) = look w"
begin

lemma process_keeps:
  assumes "inv w" "wk_queue wk = q" "wk_handlers wk = handlers"
  shows "inv (snd (processOne wk ctx (m, w)))"
proof -
  obtain r w1 where 1: "jq_Dequeue q ctx w = (r, w1)" by fastforce
  have i1: "inv w1" using keepsD [OF dequeue_keeps assms(1) 1] .
  have f: "inv v \<Longrightarrow> inv (snd (jq_Fail q ctx i msg v))" for v i msg using fail_keeps by (simp add: keeps_def)
  have c: "inv v \<Longrightarrow> jq_Complete q ctx i res v = (u, v') \<Longrightarrow> inv v'" for v i res u v'
    using keepsD [OF complete_keeps] by blast
  show ?thesis
  proof (cases "\<exists>j. r = Inr (Some j)")
    case True
    then obtain j where r: "r = Inr (Some j)" by blast
    show ?thesis
    proof (cases "handlers (job_Type j)")
      case (Some h)
      obtain res w2 where 2: "h (handler_ctx ctx j) (job_Payload j) w1 = (res, w2)" by fastforce
      have "inv w2" using keepsD [OF handler_keeps [OF Some] i1 2] .
      with 1 2 r Some assms show ?thesis
        by (cases res) (auto simp: processOne_def Let_def f split: prod.splits sum.splits dest: c)
    qed (use 1 r i1 assms in \<open>simp add: processOne_def Let_def f\<close>)
  qed (use 1 i1 assms in \<open>auto simp: processOne_def Let_def split: sum.splits option.splits\<close>)
qed

text \<open>
  The job delivered in this iteration ends completed, pending or failed when the closing call of
  the queue succeeds; every other job is left alone; the counter of completed jobs counts a job
  whose completion the queue confirmed.
\<close>

lemma process_others:
  assumes w: "inv w" "wk_queue wk = q" "wk_handlers wk = handlers"
    and dq: "jq_Dequeue q ctx w = (Inr (Some j), w1)" and k: "k \<noteq> job_ID j"
  shows "look (snd (processOne wk ctx (m, w))) k = look w k"
proof -
  have w1: "look w1 k = look w k" using dequeue_Some [OF w(1) dq] k by auto
  have h: "look v k = look w k" if "h c p w1 = (r, v)" "handlers ty = Some h" for ty h c p r v
    using handler_look [of ty h c p w1] that w1 by simp
  have c: "look v' k = look w k" if "jq_Complete q ctx (job_ID j) res v = (r, v')" "look v k = look w k" for res v r v'
    using complete_other [OF k, of res v] that by simp
  show ?thesis unfolding processOne_def w(2,3) Let_def fst_conv snd_conv dq
    using w1 by (auto simp: fail_other [OF k] split: option.splits prod.splits sum.splits intro: h c)
qed

lemma process_completed:
  assumes w: "inv w" "wk_queue wk = q" "wk_handlers wk = handlers"
    and dq: "jq_Dequeue q ctx w = (Inr (Some j), w1)"
    and cnt: "wm_processed (fst (processOne wk ctx (m, w))) (job_Type j, ''completed'')
      \<noteq> wm_processed m (job_Type j, ''completed'')"
  shows "\<exists>a mx. look (snd (processOne wk ctx (m, w))) (job_ID j) = Some (JobStatusCompleted, a, mx)"
proof -
  obtain h where h: "handlers (job_Type j) = Some h"
    using cnt dq w by (cases "handlers (job_Type j)")
      (simp_all add: processOne_def Let_def count_job_def)
  obtain res w2 where r: "h (handler_ctx ctx j) (job_Payload j) w1 = (res, w2)" by fastforce
  from cnt dq w h r obtain x where x: "res = Inr x"
    by (cases res) (simp_all add: processOne_def Let_def count_job_def observe_job_def)
  obtain cr w3 where c: "jq_Complete q ctx (job_ID j) x w2 = (cr, w3)" by fastforce
  from cnt dq w h r x c have u: "cr = Inr ()"
    by (cases cr) (simp_all add: processOne_def Let_def count_job_def observe_job_def)
  have "inv w1" using keepsD [OF dequeue_keeps w(1) dq] .
  with h r have "inv w2" using keepsD [OF handler_keeps] by blast
  have "look w2 = look w1" using handler_look [OF h] r by (metis snd_conv)
  with dequeue_Some [OF w(1) dq] obtain mx where "look w2 (job_ID j) = Some (JobStatusRunning, job_Attempts j, mx)"
    by auto
  from complete_Inr [OF \<open>inv w2\<close> _ this] c u have
    "look w3 = (look w2)(job_ID j \<mapsto> (JobStatusCompleted, job_Attempts j, mx))" by simp
  moreover have "snd (processOne wk ctx (m, w)) = w3"
    using dq w h r x c u by (simp add: processOne_def Let_def)
  ultimately show ?thesis by simp
qed

end

interpretation pg_worker: worker_queue "PostgresJobQueue X" ctx "\<lambda>w. job_inv (w_db w)" job_look default_handlers
  for X ctx
  by unfold_locales (auto simp: default_handlers_def NoopJobHandler_Execute_def ret_def keeps_def split: if_splits)

lemma handler_ctx_tenant [simp]: "TenantIDFromContext (handler_ctx ctx job) = Inr (job_TenantID job)"
  by (simp add: handler_ctx_def)

end
