(* ===== verification/Job_Properties.thy ===== *)
theory Job_Properties
  imports Demo Job_Concurrency Worker
begin

text \<open>
  The properties of the job queue, of several workers on it, and of the worker's iteration, with
  witnesses on a queue of one or two jobs.
\<close>

definition demo_job :: "uuid \<Rightarrow> int \<Rightarrow> string option \<Rightarrow> time \<Rightarrow> job_row" where
  "demo_job i a err t =
     \<lparr>jb_id = i, jb_tenant = 1, jb_type = ''noop'', jb_payload = ''{}'', jb_status = JobStatusPending,
      jb_result = None, jb_error = err, jb_attempts = a, jb_max_attempts = 3, jb_scheduled = t,
      jb_started = None, jb_completed = None, jb_created = 0\<rparr>"

definition job_world :: "job_row list \<Rightarrow> World" where
  "job_world js = demo_world\<lparr>w_db := demo_db\<lparr>jobs := js\<rparr>\<rparr>"

lemma demo_job_sel [simp]:
  "jb_id (demo_job i a e t) = i" "jb_tenant (demo_job i a e t) = 1" "jb_type (demo_job i a e t) = ''noop''"
  "jb_status (demo_job i a e t) = JobStatusPending" "jb_attempts (demo_job i a e t) = a"
  "jb_error (demo_job i a e t) = e" "jb_max_attempts (demo_job i a e t) = 3"
  "jb_scheduled (demo_job i a e t) = t" "jb_payload (demo_job i a e t) = ''{}''"
  by (simp_all add: demo_job_def)

lemma job_world_sel [simp]:
  "w_db (job_world js) = demo_db\<lparr>jobs := js\<rparr>" "w_clock (job_world js) = 50" "no_faults (job_world js)"
  "w_uuids (job_world js) n = 100" "w_drawn (job_world js) = 0"
  by (simp_all add: job_world_def)

lemma job_world_inv: "0 \<le> a \<Longrightarrow> a < 3 \<Longrightarrow> job_inv (w_db (job_world [demo_job i a e t]))"
  unfolding job_inv_def job_world_sel
  by (intro conjI db_inv_jobs) (simp_all add: is_tenant_def demo_db_sel attempts_ok_def)

lemma job_world_next:
  "t \<le> 50 \<Longrightarrow> sql_next_job (system_session (job_world js)) 50 (demo_db\<lparr>jobs := [demo_job i a e t]\<rparr>)
    = Some (demo_job i a e t)"
  by (simp add: sql_next_job_def due_def)

text \<open>C35: Dequeue delivers the oldest due job of the queue, marked running, with one attempt more;
  no other row changes.\<close>

theorem dequeue_oldest:
  assumes "JobQueue_Dequeue w = (Inr (Some j), w')"
  shows "\<exists>r \<in> set (jobs (w_db w)). job_ID j = jb_id r \<and> jb_status r = JobStatusPending
    \<and> jb_scheduled r \<le> w_clock w
    \<and> (\<forall>q \<in> set (jobs (w_db w)). jb_status q = JobStatusPending \<and> jb_scheduled q \<le> w_clock w
          \<longrightarrow> jb_scheduled r \<le> jb_scheduled q)
    \<and> job_Status j = JobStatusRunning \<and> job_Attempts j = jb_attempts r + 1
    \<and> jobs (w_db w') = map (\<lambda>q. if jb_id q = jb_id r then start_job (w_clock w) q else q) (jobs (w_db w))"
  using assms
proof (cases rule: Dequeue_SomeD)
  case (1 r err)
  have "due (system_session w) (w_clock w) q \<longleftrightarrow> jb_status q = JobStatusPending \<and> jb_scheduled q \<le> w_clock w" for q
    by (simp add: due_def)
  with 1 sql_next_job_SomeD [OF 1(1)] sql_next_job_oldest [OF 1(1)] show ?thesis
    by (intro bexI [of _ r]) (simp_all add: deliver_def start_job_def update_where_def)
qed

theorem dequeue_oldest_witness:
  "\<exists>j w'. JobQueue_Dequeue (job_world [demo_job 30 1 (Some ''e'') 40]) = (Inr (Some j), w')
    \<and> job_ID j = 30 \<and> job_Attempts j = 2"
proof -
  let ?w = "job_world [demo_job 30 1 (Some ''e'') 40]"
  obtain j w' where r: "JobQueue_Dequeue ?w = (Inr (Some j), w')"
    using Dequeue_no_faults_Some [of ?w "demo_job 30 1 (Some ''e'') 40" "''e''"] job_world_next by fastforce
  from dequeue_oldest [OF r] r show ?thesis by auto
qed

text \<open>C36: a job that was just enqueued on an idle queue cannot be delivered: its error column is
  NULL, which the scan into a Go string rejects, so Dequeue returns an error and rolls back.\<close>

theorem fresh_job_blocks:
  assumes "no_faults w" and "sql_next_job (system_session w) (w_clock w) (w_db w) = None"
    and "JobQueue_Enqueue X ctx ty p w = (Inr i, w1)"
  shows "\<exists>msg w2. JobQueue_Dequeue w1 = (Inl (Opaque msg), w2) \<and> w_db w2 = w_db w1"
  using assms by (rule fresh_job_undeliverable)

theorem fresh_job_blocks_witness:
  "\<exists>i w1 msg w2. JobQueue_Enqueue demo_ext (demo_ctx 1) ''noop'' None demo_world = (Inr i, w1)
    \<and> JobQueue_Dequeue w1 = (Inl (Opaque msg), w2)"
proof -
  obtain w3 where run: "db_insert (sql_enqueue demo_ext (tenant_session demo_world 1) 1 ''noop'' ''{}'') (in_tx demo_world)
      = (Inr 100, w3)"
    by (simp add: db_insert_no_faults sql_enqueue_def demo_ext_def is_tenant_def demo_db_sel)
  obtain w1 where "JobQueue_Enqueue demo_ext (demo_ctx 1) ''noop'' None demo_world = (Inr 100, w1)"
    using withTenantTx_no_faults [where fn = "\<lambda>s t. db_insert (sql_enqueue demo_ext s t ''noop'' ''{}'')",
        OF demo_no_faults db_op_insert demo_ctx_tenant run]
    by (auto simp: JobQueue_Enqueue_def)
  moreover from fresh_job_blocks [OF demo_no_faults _ this] obtain msg w2
    where "JobQueue_Dequeue w1 = (Inl (Opaque msg), w2)"
    by (auto simp: sql_next_job_def demo_db_sel)
  ultimately show ?thesis by blast
qed

text \<open>C10: whatever the clients of the queue do and in whatever order, a job is delivered at most
  as often as it has attempts left.\<close>

theorem deliveries_bounded:
  assumes "job_inv (w_db w)" and "r \<in> set (jobs (w_db w))" and "\<And>n. w_drawn w \<le> n \<Longrightarrow> w_uuids w n \<noteq> jb_id r"
  shows "int (deliveries X (jb_id r) cs w) \<le> jb_max_attempts r - jb_attempts r"
proof -
  have "budget (jb_id r) (w_db w) = nat (jb_max_attempts r - jb_attempts r)"
    using find_job [OF assms(1,2)] by (simp add: budget_def)
  moreover have "jb_attempts r \<le> jb_max_attempts r" using assms(1,2) by (simp add: job_inv_def attempts_ok_def)
  ultimately show ?thesis using deliveries_budget [OF assms(1,3), of X cs] by linarith
qed

theorem deliveries_bounded_witness:
  "deliveries demo_ext 30 [QDequeue, QFail 30 ''x'', QWait 100000000, QDequeue]
     (job_world [demo_job 30 1 (Some ''e'') 40]) \<le> 2"
  using deliveries_bounded [of "job_world [demo_job 30 1 (Some ''e'') 40]" "demo_job 30 1 (Some ''e'') 40"
      demo_ext "[QDequeue, QFail 30 ''x'', QWait 100000000, QDequeue]"] job_world_inv [of 1]
  by simp

text \<open>C39: a failed job is dead-lettered when its attempts are used up; otherwise it becomes due
  again exactly 30 seconds times two to the number of earlier attempts after the failure.\<close>

theorem retry_backoff:
  assumes "job_inv (w_db w)" and "r \<in> set (jobs (w_db w))" and "1 \<le> jb_attempts r"
    and "JobQueue_Fail (jb_id r) msg w = (Inr (), w')"
  shows "\<exists>q. find (\<lambda>q. jb_id q = jb_id r) (jobs (w_db w')) = Some q \<and> jb_error q = Some msg \<and>
    (if jb_attempts r \<ge> jb_max_attempts r
     then jb_status q = JobStatusFailed \<and> jb_completed q = Some (w_clock w)
     else \<forall>s t. due s t q \<longleftrightarrow> rls s (jb_tenant r) \<and> w_clock w + 30000000 * 2 ^ nat (jb_attempts r - 1) \<le> t)"
proof -
  have "jb_error (fail_job msg (w_clock w) r) = Some msg" by (simp add: fail_job_def)
  with Fail_look [OF assms(1,2,4)] fail_job_due [OF assms(3)] fail_job_dead [of r] show ?thesis by auto
qed

theorem retry_backoff_witness:
  "\<exists>w' q. JobQueue_Fail 30 ''x'' (job_world [demo_job 30 1 None 40]) = (Inr (), w')
    \<and> find (\<lambda>q. jb_id q = 30) (jobs (w_db w')) = Some q
    \<and> due (system_session w') 30000050 q \<and> \<not> due (system_session w') 30000049 q"
proof -
  let ?w = "job_world [demo_job 30 1 None 40]"
  obtain w' where r: "JobQueue_Fail 30 ''x'' ?w = (Inr (), w')"
    using system_exec_no_faults [of ?w "\<lambda>s. sql_fail s 30 ''x''"]
    by (auto simp: JobQueue_Fail_def sql_fail_def)
  from retry_backoff [of ?w "demo_job 30 1 None 40" "''x''" w'] r job_world_inv [of 1 30 None 40]
  show ?thesis by auto
qed

text \<open>Clean-up deletes only completed or failed jobs that finished before the retention
  period began.\<close>

lemma cleanup_only_old:
  assumes "JobQueue_Cleanup days w = (Inr k, w')" and "r \<in> set (jobs (w_db w))" and "r \<notin> set (jobs (w_db w'))"
  shows "(jb_status r = JobStatusCompleted \<or> jb_status r = JobStatusFailed)
    \<and> (\<exists>c. jb_completed r = Some c \<and> c < w_clock w - days * day)"
  using assms by (rule Cleanup_keeps_open)

lemma cleanup_only_old_witness:
  "\<exists>w' q. q = complete_job None 0 (demo_job 30 1 None 40)
    \<and> JobQueue_Cleanup 0 (job_world [q]) = (Inr 1, w') \<and> (\<exists>c. jb_completed q = Some c \<and> c < 50)"
proof -
  let ?q = "complete_job None 0 (demo_job 30 1 None 40)"
  obtain w' where r: "JobQueue_Cleanup 0 (job_world [?q]) = (Inr 1, w')" "jobs (w_db w') = []"
    using system_exec_no_faults [of "job_world [?q]" "\<lambda>s. sql_cleanup_jobs s 0"]
    by (auto simp: JobQueue_Cleanup_def sql_cleanup_jobs_def finished_before_def complete_job_def Let_def)
  from cleanup_only_old [OF r(1), of ?q] r show ?thesis by auto
qed

text \<open>C15: with any number of workers stepping in any order, two workers never hold the same job.\<close>

theorem workers_exclusive:
  assumes "pool_reach (initial_pool js now) p" and "distinct (map jb_id js)"
    and "p_phase p k = Working i a" and "p_phase p l = Working i b"
  shows "k = l"
  using assms by (rule one_worker_per_job)

theorem workers_exclusive_witness:
  "\<exists>p. pool_reach (initial_pool [demo_job 30 1 None 40] 50) p \<and> p_phase p 0 = Working 30 2
    \<and> (\<forall>l b. p_phase p l = Working 30 b \<longrightarrow> l = 0)"
proof -
  let ?r = "demo_job 30 1 None 40" and ?p0 = "initial_pool [demo_job 30 1 None 40] 50"
  define p1 where "p1 = set_phase 0 (Scanning [30]) ?p0"
  define p2 where "p2 = set_phase 0 (Locked 30) p1"
  define p3 where "p3 = set_phase 0 (Working 30 2) (on_job 30 (start_job 50) p2)"
  have "snapshot ?p0 = [30]" by (simp add: snapshot_def initial_pool_def is_due_def)
  then have 1: "pool_step ?p0 (Some 0) p1"
    using scan [of ?p0 0] by (simp add: p1_def initial_pool_def)
  have 2: "pool_step p1 (Some 0) p2" unfolding p2_def
    by (rule lock [of _ _ _ "[]"])
      (simp_all add: p1_def locked_def due_now_def is_due_def initial_pool_def)
  have 3: "pool_step p2 (Some 0) p3"
    using commit [of p2 0 30 ?r] by (simp add: p3_def p2_def p1_def initial_pool_def)
  have reach: "pool_reach ?p0 p3" using pool_reach.begin_at pool_reach.onward 1 2 3 by metis
  moreover have "p_phase p3 0 = Working 30 2" by (simp add: p3_def)
  ultimately show ?thesis using workers_exclusive [OF reach] by fastforce
qed

text \<open>C26: one iteration of the worker touches at most the job it was given, and counts a job as
  completed only when the queue has recorded its completion.\<close>

theorem worker_iteration:
  assumes "job_inv (w_db w)" and "JobQueue_Dequeue w = (Inr (Some j), w1)"
    and "processOne (NewWorker (PostgresJobQueue X) default_handlers poll n) ctx (m, w) = (m', w')"
  shows "job_inv (w_db w') \<and> (\<forall>k. k \<noteq> job_ID j \<longrightarrow> job_look w' k = job_look w k) \<and>
    (wm_processed m' (job_Type j, ''completed'') \<noteq> wm_processed m (job_Type j, ''completed'') \<longrightarrow>
      (\<exists>a mx. job_look w' (job_ID j) = Some (JobStatusCompleted, a, mx)))"
proof -
  let ?wk = "NewWorker (PostgresJobQueue X) default_handlers poll n"
  have wk: "wk_queue ?wk = PostgresJobQueue X" "wk_handlers ?wk = default_handlers"
    by (simp_all add: NewWorker_def)
  have dq: "jq_Dequeue (PostgresJobQueue X) ctx w = (Inr (Some j), w1)" using assms(2) by simp
  have eq: "m' = fst (processOne ?wk ctx (m, w))" "w' = snd (processOne ?wk ctx (m, w))"
    using assms(3) by simp_all
  show ?thesis unfolding eq
    using pg_worker.process_keeps [OF assms(1) wk] pg_worker.process_others [OF assms(1) wk dq]
      pg_worker.process_completed [OF assms(1) wk dq] by blast
qed

lemma demo_dequeue:
  "\<exists>w1. JobQueue_Dequeue (job_world [demo_job 30 1 (Some ''e'') 40])
    = (Inr (Some (deliver (start_job 50 (demo_job 30 1 (Some ''e'') 40)) ''e'')), w1)"
  using Dequeue_no_faults_Some [of "job_world [demo_job 30 1 (Some ''e'') 40]" "demo_job 30 1 (Some ''e'') 40" "''e''"]
    job_world_next by fastforce

theorem worker_iteration_witness:
  "\<exists>m' w'. processOne (NewWorker (PostgresJobQueue demo_ext) default_handlers 1 1) background
      (\<lparr>wm_processed = \<lambda>_. 0, wm_durations = \<lambda>_. 0\<rparr>, job_world [demo_job 30 1 (Some ''e'') 40]) = (m', w')
    \<and> job_inv (w_db w')"
proof -
  obtain m' w' where r: "processOne (NewWorker (PostgresJobQueue demo_ext) default_handlers 1 1) background
      (\<lparr>wm_processed = \<lambda>_. 0, wm_durations = \<lambda>_. 0\<rparr>, job_world [demo_job 30 1 (Some ''e'') 40]) = (m', w')"
    by fastforce
  obtain w1 where "JobQueue_Dequeue (job_world [demo_job 30 1 (Some ''e'') 40])
    = (Inr (Some (deliver (start_job 50 (demo_job 30 1 (Some ''e'') 40)) ''e'')), w1)"
    using demo_dequeue by blast
  from worker_iteration [OF job_world_inv this r] r show ?thesis by auto
qed

text \<open>A due noop job at the head of the queue is completed by one iteration when no call fails:
  its payload is stored as its result and one completion is counted.\<close>

lemma worker_noop_job:
  assumes "no_faults w" and "job_inv (w_db w)"
    and "sql_next_job (system_session w) (w_clock w) (w_db w) = Some r"
    and "jb_error r = Some err" and "jb_type r = JobTypeNoop" and "jb_payload r \<noteq> []"
    and "x_jsonb X (jb_payload r) = Some v"
  shows "\<exists>m' w'. processOne (NewWorker (PostgresJobQueue X) default_handlers poll n) ctx (m, w) = (m', w')
    \<and> wm_processed m' (JobTypeNoop, ''completed'') = wm_processed m (JobTypeNoop, ''completed'') + 1
    \<and> find (\<lambda>q. jb_id q = jb_id r) (jobs (w_db w'))
        = Some (complete_job (Some v) (w_clock w) (start_job (w_clock w) r))"
proof -
  let ?j = "deliver (start_job (w_clock w) r) err"
  obtain w1 where 1: "JobQueue_Dequeue w = (Inr (Some ?j), w1)" "db_only w w1"
    "w_db w1 = (w_db w)\<lparr>jobs := update_where (\<lambda>q. jb_id q = jb_id r) (start_job (w_clock w)) (jobs (w_db w))\<rparr>"
    using Dequeue_no_faults_Some [OF assms(1,3,4)] by blast
  have "no_faults w1" "w_clock w1 = w_clock w" using no_faults_db_only [OF 1(2) assms(1)] 1(2) by (simp_all add: db_only_iff)
  then obtain w2 where 2: "JobQueue_Complete X (jb_id r) (Some (jb_payload r)) w1 = (Inr (), w2)"
    "w_db w2 = (w_db w1)\<lparr>jobs := update_where (\<lambda>q. jb_id q = jb_id r) (complete_job (Some v) (w_clock w)) (jobs (w_db w1))\<rparr>"
    using system_exec_no_faults [of w1 "\<lambda>s. sql_complete X s (jb_id r) (Some (jb_payload r))"] assms(7)
    by (auto simp: JobQueue_Complete_def sql_complete_def Let_def)
  have "find (\<lambda>q. jb_id q = jb_id r) (jobs (w_db w)) = Some r"
    using find_job [OF assms(2)] sql_next_job_SomeD [OF assms(3)] by simp
  with 1 2 have "find (\<lambda>q. jb_id q = jb_id r) (jobs (w_db w2))
      = Some (complete_job (Some v) (w_clock w) (start_job (w_clock w) r))"
    by (simp add: find_job_update start_job_def complete_job_def)
  moreover have "job_ID ?j = jb_id r" "job_Type ?j = JobTypeNoop" "job_Payload ?j = jb_payload r"
    using assms(5) by (simp_all add: deliver_def start_job_def)
  ultimately show ?thesis using 1(1) 2(1) assms(6)
    by (simp add: processOne_def NewWorker_def Let_def default_handlers_def NoopJobHandler_Execute_def
        ret_def count_job_def observe_job_def)
qed

lemma worker_noop_job_witness:
  "\<exists>m' w' q. processOne (NewWorker (PostgresJobQueue demo_ext) default_handlers 1 1) background
      (\<lparr>wm_processed = \<lambda>_. 0, wm_durations = \<lambda>_. 0\<rparr>, job_world [demo_job 30 1 (Some ''e'') 40]) = (m', w')
    \<and> wm_processed m' (''noop'', ''completed'') = 1
    \<and> find (\<lambda>q. jb_id q = 30) (jobs (w_db w')) = Some q \<and> jb_status q = JobStatusCompleted \<and> jb_result q = Some ''{}''"
  using worker_noop_job [of "job_world [demo_job 30 1 (Some ''e'') 40]" "demo_job 30 1 (Some ''e'') 40" "''e''"
      demo_ext "''{}''" 1 1 background "\<lparr>wm_processed = \<lambda>_. 0, wm_durations = \<lambda>_. 0\<rparr>"]
    job_world_inv [of 1] job_world_next
  by (auto simp: JobTypeNoop_def demo_ext_def complete_job_def)

end
