(* ===== verification/Go_Json.thy ===== *)
theory Go_Json
  imports Go_Lib
begin

text \<open>
  \<^verbatim>\<open>encoding/json\<close> and \<^verbatim>\<open>encoding/base64\<close> as the program uses them, over bytes as
  natural numbers: the encoder's strings with HTML escaping, a parser for JSON texts, the
  decoding of an object into named fields, and the URL alphabet without padding.  A parsed
  string keeps its escapes (\<open>JStr\<close> holds what is between the quotes); \<open>unquote\<close> resolves them.
\<close>

type_synonym bytes = "nat list"

definition bytes_of :: "string \<Rightarrow> bytes" where
  "bytes_of s = map of_char s"

definition string_of :: "bytes \<Rightarrow> string" where
  "string_of bs = map char_of bs"

section \<open>Strings\<close>

definition hex_lower :: "nat \<Rightarrow> nat" where
  "hex_lower n = (if n < 10 then 48 + n else 87 + n)"

definition hex_val :: "nat \<Rightarrow> nat option" where
  "hex_val b =
     (if 48 \<le> b \<and> b \<le> 57 then Some (b - 48)
      else if 97 \<le> b \<and> b \<le> 102 then Some (b - 87)
      else if 65 \<le> b \<and> b \<le> 70 then Some (b - 55)
      else None)"

text \<open>One byte below 0x80: quote, backslash, the short escapes, the HTML characters, controls.\<close>

definition quote_ascii :: "nat \<Rightarrow> bytes" where
  "quote_ascii b =
     (if b = 34 \<or> b = 92 then [92, b]
      else if b = 8 then [92, 98]
      else if b = 12 then [92, 102]
      else if b = 10 then [92, 110]
      else if b = 13 then [92, 114]
      else if b = 9 then [92, 116]
      else if b < 32 \<or> b = 60 \<or> b = 62 \<or> b = 38
        then [92, 117, 48, 48, hex_lower (b div 16), hex_lower (b mod 16)]
      else [b])"

function quote :: "bytes \<Rightarrow> bytes" where
  "quote [] = []"
| "quote (b # bs) =
     (if b < 0x80 then quote_ascii b @ quote bs
      else case decode_rune (b # bs) of
        None \<Rightarrow> [92, 117, 102, 102, 102, 100] @ quote bs
      | Some (r, rest) \<Rightarrow>
          (if r = 0x2028 \<or> r = 0x2029
           then [92, 117, 50, 48, 50, hex_lower (r mod 16)]
           else encode_rune r) @ quote rest)"
  by pat_completeness auto
termination
  by (relation "measure length") (auto dest: decode_rune_shorter)

definition hex4 :: "bytes \<Rightarrow> nat option" where
  "hex4 bs =
     (case bs of a # b # c # d # _ \<Rightarrow>
        (case (hex_val a, hex_val b, hex_val c, hex_val d) of
           (Some w, Some x, Some y, Some z) \<Rightarrow> Some (4096 * w + 256 * x + 16 * y + z)
         | _ \<Rightarrow> None)
      | _ \<Rightarrow> None)"

text \<open>The extent of a string literal after its opening quote, as the scanner accepts it.\<close>

fun scan_string :: "bytes \<Rightarrow> (bytes \<times> bytes) option" where
  "scan_string [] = None"
| "scan_string (b # bs) =
     (if b = 34 then Some ([], bs)
      else if b = 92 then
        (case bs of
           [] \<Rightarrow> None
         | e # rest \<Rightarrow>
             if e = 117 then
               (case rest of
                  w # x # y # z # rest' \<Rightarrow>
                    if hex4 [w, x, y, z] = None then None
                    else map_option (\<lambda>(s, r). ([b, e, w, x, y, z] @ s, r)) (scan_string rest')
                | _ \<Rightarrow> None)
             else if e \<in> {34, 92, 47, 98, 102, 110, 114, 116}
             then map_option (\<lambda>(s, r). ([b, e] @ s, r)) (scan_string rest)
             else None)
      else if b < 32 then None
      else map_option (\<lambda>(s, r). (b # s, r)) (scan_string bs))"

definition unescape :: "nat \<Rightarrow> nat" where
  "unescape e =
     (if e = 98 then 8 else if e = 102 then 12 else if e = 110 then 10
      else if e = 114 then 13 else if e = 116 then 9 else e)"

text \<open>The value of a \<^verbatim>\<open>\uXXXX\<close> at the front.\<close>

definition next_escape :: "bytes \<Rightarrow> nat option" where
  "next_escape bs = (if take 2 bs = [92, 117] then hex4 (drop 2 bs) else None)"

text \<open>
  The text of a literal: surrogate pairs are combined, lone surrogates and bytes that are not
  UTF-8 become U+FFFD.
\<close>

function unquote :: "bytes \<Rightarrow> bytes" where
  "unquote [] = []"
| "unquote (b # bs) =
     (if b = 92 then
        (case next_escape (b # bs) of
           Some r \<Rightarrow>
             if 0xD800 \<le> r \<and> r < 0xE000 then
               (case next_escape (drop 5 bs) of
                  Some r2 \<Rightarrow>
                    if r < 0xDC00 \<and> 0xDC00 \<le> r2 \<and> r2 < 0xE000
                    then encode_rune (0x10000 + (r - 0xD800) * 1024 + (r2 - 0xDC00)) @ unquote (drop 11 bs)
                    else encode_rune 0xFFFD @ unquote (drop 5 bs)
                | None \<Rightarrow> encode_rune 0xFFFD @ unquote (drop 5 bs))
             else encode_rune r @ unquote (drop 5 bs)
         | None \<Rightarrow> (case bs of [] \<Rightarrow> [] | e # rest \<Rightarrow> unescape e # unquote rest))
      else if b < 0x80 then b # unquote bs
      else case decode_rune (b # bs) of
        None \<Rightarrow> encode_rune 0xFFFD @ unquote bs
      | Some (r, rest) \<Rightarrow> encode_rune r @ unquote rest)"
  by pat_completeness auto
termination
  by (relation "measure length") (auto dest: decode_rune_shorter)

section \<open>Values\<close>

datatype json =
    JNull
  | JBool bool
  | JNum bytes
  | JStr bytes
  | JArr "json list"
  | JObj "(bytes \<times> json) list"

definition JText :: "string \<Rightarrow> json" where
  "JText s = JStr (quote (bytes_of s))"

text \<open>The compact text of a value, keys in the order given.\<close>

fun commas :: "bytes list \<Rightarrow> bytes" where
  "commas [] = []"
| "commas [x] = x"
| "commas (x # xs) = x @ [44] @ commas xs"

fun json_text :: "json \<Rightarrow> bytes" where
  "json_text JNull = [110, 117, 108, 108]"
| "json_text (JBool b) = (if b then [116, 114, 117, 101] else [102, 97, 108, 115, 101])"
| "json_text (JNum n) = n"
| "json_text (JStr s) = [34] @ s @ [34]"
| "json_text (JArr vs) = [91] @ commas (map json_text vs) @ [93]"
| "json_text (JObj ms) = [123] @ commas (map (\<lambda>(k, v). [34] @ k @ [34, 58] @ json_text v) ms) @ [125]"

section \<open>Parsing\<close>

definition is_ws :: "nat \<Rightarrow> bool" where
  "is_ws b \<longleftrightarrow> b = 32 \<or> b = 9 \<or> b = 10 \<or> b = 13"

definition skip_ws :: "bytes \<Rightarrow> bytes" where
  "skip_ws bs = dropWhile is_ws bs"

definition is_digit :: "nat \<Rightarrow> bool" where
  "is_digit b \<longleftrightarrow> 48 \<le> b \<and> b \<le> 57"

text \<open>A run of digits, at least one.\<close>

definition scan_digits :: "bytes \<Rightarrow> (bytes \<times> bytes) option" where
  "scan_digits bs = (let ds = takeWhile is_digit bs in if ds = [] then None else Some (ds, dropWhile is_digit bs))"

definition scan_int :: "bytes \<Rightarrow> (bytes \<times> bytes) option" where
  "scan_int bs = (if take 1 bs = [48] then Some ([48], drop 1 bs) else scan_digits bs)"

definition scan_frac :: "bytes \<Rightarrow> (bytes \<times> bytes) option" where
  "scan_frac bs =
     (if take 1 bs = [46] then map_option (\<lambda>(d, r). (46 # d, r)) (scan_digits (drop 1 bs)) else Some ([], bs))"

definition scan_exp :: "bytes \<Rightarrow> (bytes \<times> bytes) option" where
  "scan_exp bs =
     (if take 1 bs = [101] \<or> take 1 bs = [69] then
        (let sign = (if take 1 (drop 1 bs) = [43] \<or> take 1 (drop 1 bs) = [45] then 1 else 0) in
         map_option (\<lambda>(d, r). (take (1 + sign) bs @ d, r)) (scan_digits (drop (1 + sign) bs)))
      else Some ([], bs))"

definition scan_number :: "bytes \<Rightarrow> (bytes \<times> bytes) option" where
  "scan_number bs =
     (let sign = (if take 1 bs = [45] then [45] else []) in
      case scan_int (drop (length sign) bs) of None \<Rightarrow> None
      | Some (i, r1) \<Rightarrow>
        (case scan_frac r1 of None \<Rightarrow> None
         | Some (f, r2) \<Rightarrow>
           (case scan_exp r2 of None \<Rightarrow> None
            | Some (e, r3) \<Rightarrow> Some (sign @ i @ f @ e, r3))))"

definition scan_word :: "bytes \<Rightarrow> json \<Rightarrow> bytes \<Rightarrow> (json \<times> bytes) option" where
  "scan_word w v bs = (if take (length w) bs = w then Some (v, drop (length w) bs) else None)"

text \<open>
  A value after white space, with fuel for the recursion and the nesting that is still allowed
  (the scanner's limit is 10000).
\<close>

fun parse_value :: "nat \<Rightarrow> nat \<Rightarrow> bytes \<Rightarrow> (json \<times> bytes) option"
  and parse_elems :: "nat \<Rightarrow> nat \<Rightarrow> bytes \<Rightarrow> (json list \<times> bytes) option"
  and parse_members :: "nat \<Rightarrow> nat \<Rightarrow> bytes \<Rightarrow> ((bytes \<times> json) list \<times> bytes) option" where
  "parse_value 0 depth s = None"
| "parse_value (Suc n) depth s =
     (case skip_ws s of
        [] \<Rightarrow> None
      | b # r \<Rightarrow>
          if b = 34 then map_option (\<lambda>(t, r'). (JStr t, r')) (scan_string r)
          else if b = 123 then
            (if depth = 0 then None
             else if take 1 (skip_ws r) = [125] then Some (JObj [], drop 1 (skip_ws r))
             else map_option (\<lambda>(ms, r'). (JObj ms, r')) (parse_members n (depth - 1) r))
          else if b = 91 then
            (if depth = 0 then None
             else if take 1 (skip_ws r) = [93] then Some (JArr [], drop 1 (skip_ws r))
             else map_option (\<lambda>(vs, r'). (JArr vs, r')) (parse_elems n (depth - 1) r))
          else if b = 110 then scan_word [110, 117, 108, 108] JNull (b # r)
          else if b = 116 then scan_word [116, 114, 117, 101] (JBool True) (b # r)
          else if b = 102 then scan_word [102, 97, 108, 115, 101] (JBool False) (b # r)
          else map_option (\<lambda>(d, r'). (JNum d, r')) (scan_number (b # r)))"
| "parse_elems 0 depth s = None"
| "parse_elems (Suc n) depth s =
     (case parse_value n depth s of
        None \<Rightarrow> None
      | Some (v, r) \<Rightarrow>
          if take 1 (skip_ws r) = [93] then Some ([v], drop 1 (skip_ws r))
          else if take 1 (skip_ws r) = [44]
          then map_option (\<lambda>(vs, r'). (v # vs, r')) (parse_elems n depth (drop 1 (skip_ws r)))
          else None)"
| "parse_members 0 depth s = None"
| "parse_members (Suc n) depth s =
     (if take 1 (skip_ws s) \<noteq> [34] then None
      else case scan_string (drop 1 (skip_ws s)) of
        None \<Rightarrow> None
      | Some (k, r0) \<Rightarrow>
          if take 1 (skip_ws r0) \<noteq> [58] then None
          else case parse_value n depth (drop 1 (skip_ws r0)) of
            None \<Rightarrow> None
          | Some (v, r) \<Rightarrow>
              if take 1 (skip_ws r) = [125] then Some ([(k, v)], drop 1 (skip_ws r))
              else if take 1 (skip_ws r) = [44]
              then map_option (\<lambda>(ms, r'). ((k, v) # ms, r')) (parse_members n depth (drop 1 (skip_ws r)))
              else None)"

text \<open>\<^verbatim>\<open>json.Unmarshal\<close>'s first step: the whole text is one value.\<close>

definition json_parse :: "bytes \<Rightarrow> json option" where
  "json_parse s =
     (case parse_value (2 * length s + 2) 10000 s of
        None \<Rightarrow> None
      | Some (v, r) \<Rightarrow> if skip_ws r = [] then Some v else None)"

section \<open>Objects into fields\<close>

text \<open>
  A key names the ASCII field \<open>f\<close> up to case folding; besides the two cases of a letter, U+017F
  folds to s and U+212A to k.
\<close>

fun fold_bytes :: "bytes \<Rightarrow> bytes" where
  "fold_bytes [] = []"
| "fold_bytes (b # bs) =
     (if 65 \<le> b \<and> b \<le> 90 then (b + 32) # fold_bytes bs
      else if b = 0xC5 \<and> take 1 bs = [0xBF] then 115 # fold_bytes (drop 1 bs)
      else if b = 0xE2 \<and> take 2 bs = [0x84, 0xAA] then 107 # fold_bytes (drop 2 bs)
      else b # fold_bytes bs)"

definition names_field :: "string \<Rightarrow> bytes \<Rightarrow> bool" where
  "names_field f key \<longleftrightarrow> fold_bytes (unquote key) = fold_bytes (bytes_of f)"

text \<open>
  A field of Go type \<^verbatim>\<open>string\<close> receives a JSON string; null leaves it alone; anything else is a
  type error.  The last member with the field's name counts, an error anywhere is kept.
\<close>

fun string_field :: "string \<Rightarrow> string \<Rightarrow> (bytes \<times> json) list \<Rightarrow> string option" where
  "string_field f old [] = Some old"
| "string_field f old ((k, v) # ms) =
     (if names_field f k then
        (case v of
           JStr t \<Rightarrow> string_field f (string_of (unquote t)) ms
         | JNull \<Rightarrow> string_field f old ms
         | _ \<Rightarrow> None)
      else string_field f old ms)"

text \<open>A field whose type reads JSON strings by a text parser (\<^verbatim>\<open>UnmarshalText\<close>).\<close>

fun text_field :: "(string \<Rightarrow> 'a option) \<Rightarrow> string \<Rightarrow> 'a \<Rightarrow> (bytes \<times> json) list \<Rightarrow> 'a option" where
  "text_field p f old [] = Some old"
| "text_field p f old ((k, v) # ms) =
     (if names_field f k then
        (case v of
           JStr t \<Rightarrow> (case p (string_of (unquote t)) of None \<Rightarrow> None | Some x \<Rightarrow> text_field p f x ms)
         | JNull \<Rightarrow> text_field p f old ms
         | _ \<Rightarrow> None)
      else text_field p f old ms)"

section \<open>base64.RawURLEncoding\<close>

definition b64_char :: "nat \<Rightarrow> nat" where
  "b64_char n =
     (if n < 26 then 65 + n else if n < 52 then 71 + n else if n < 62 then n - 4 else if n = 62 then 45 else 95)"

definition b64_val :: "nat \<Rightarrow> nat option" where
  "b64_val c =
     (if 65 \<le> c \<and> c \<le> 90 then Some (c - 65)
      else if 97 \<le> c \<and> c \<le> 122 then Some (c - 71)
      else if 48 \<le> c \<and> c \<le> 57 then Some (c + 4)
      else if c = 45 then Some 62 else if c = 95 then Some 63 else None)"

fun b64_encode :: "bytes \<Rightarrow> bytes" where
  "b64_encode [] = []"
| "b64_encode [a] = [b64_char (a div 4), b64_char (a mod 4 * 16)]"
| "b64_encode [a, b] = [b64_char (a div 4), b64_char (a mod 4 * 16 + b div 16), b64_char (b mod 16 * 4)]"
| "b64_encode (a # b # c # bs) =
     [b64_char (a div 4), b64_char (a mod 4 * 16 + b div 16), b64_char (b mod 16 * 4 + c div 64), b64_char (c mod 64)]
     @ b64_encode bs"

text \<open>Line breaks are skipped; unused trailing bits are not checked; one character alone is an error.\<close>

fun b64_groups :: "nat list \<Rightarrow> bytes option" where
  "b64_groups [] = Some []"
| "b64_groups [x] = None"
| "b64_groups [x, y] = Some [x * 4 + y div 16]"
| "b64_groups [x, y, z] = Some [x * 4 + y div 16, y mod 16 * 16 + z div 4]"
| "b64_groups (x # y # z # u # r) =
     map_option (\<lambda>bs. [x * 4 + y div 16, y mod 16 * 16 + z div 4, z mod 4 * 64 + u] @ bs) (b64_groups r)"

fun all_some :: "'a option list \<Rightarrow> 'a list option" where
  "all_some [] = Some []"
| "all_some (x # xs) = (case x of None \<Rightarrow> None | Some y \<Rightarrow> map_option (Cons y) (all_some xs))"

definition b64_decode :: "bytes \<Rightarrow> bytes option" where
  "b64_decode s =
     (case all_some (map b64_val (filter (\<lambda>c. c \<noteq> 10 \<and> c \<noteq> 13) s)) of
        None \<Rightarrow> None
      | Some vs \<Rightarrow> b64_groups vs)"

section \<open>Quoting and unquoting\<close>

lemma hex_val_lower: "n < 16 \<Longrightarrow> hex_val (hex_lower n) = Some n"
  by (auto simp: hex_val_def hex_lower_def)

lemma hex_val_consts [simp]: "hex_val 48 = Some 0" "hex_val 50 = Some 2" "hex_val 102 = Some 15" "hex_val 100 = Some 13"
  by (simp_all add: hex_val_def)

lemma hex4_lower:
  "a < 16 \<Longrightarrow> b < 16 \<Longrightarrow> hex4 (48 # 48 # hex_lower a # hex_lower b # r) = Some (16 * a + b)"
  by (simp add: hex4_def hex_val_lower)

lemma scan_quote_ascii:
  assumes "b < 128"
  shows "scan_string (quote_ascii b @ s) = map_option (\<lambda>(t, r). (quote_ascii b @ t, r)) (scan_string s)"
proof -
  have "hex4 [48, 48, hex_lower (b div 16), hex_lower (b mod 16)] \<noteq> None"
    using assms by (subst hex4_lower) auto
  then show ?thesis by (auto simp: quote_ascii_def option.map_comp comp_def split_def)
qed

lemma scan_high:
  "(\<And>b. b \<in> set bs \<Longrightarrow> 128 \<le> b) \<Longrightarrow>
    scan_string (bs @ s) = map_option (\<lambda>(t, r). (bs @ t, r)) (scan_string s)"
proof (induction bs)
  case (Cons b bs)
  then have "b \<noteq> 34" "b \<noteq> 92" "\<not> b < 32" by fastforce+
  with Cons show ?case by (simp add: option.map_comp comp_def split_def)
qed (simp add: option.map_ident split_def)

lemma encode_rune_high: "128 \<le> r \<Longrightarrow> b \<in> set (encode_rune r) \<Longrightarrow> 128 \<le> b"
  by (auto simp: encode_rune.simps split: if_splits)

lemma decode_rune_high: "decode_rune (b # bs) = Some (r, rest) \<Longrightarrow> 128 \<le> b \<Longrightarrow> 128 \<le> r"
  by (cases rule: decode_rune_cases) auto

lemma scan_u:
  "hex4 [w, x, y, z] \<noteq> None \<Longrightarrow> scan_string (92 # 117 # w # x # y # z # s)
    = map_option (\<lambda>(t, r). ([92, 117, w, x, y, z] @ t, r)) (scan_string s)"
  by (simp del: not_None_eq)

lemma hex4_line_sep:
  "r = 0x2028 \<or> r = 0x2029 \<Longrightarrow> hex4 (50 # 48 # 50 # hex_lower (r mod 16) # s) = Some r"
  by (auto simp: hex4_def hex_lower_def hex_val_def)

lemma scan_quote: "scan_string (quote bs @ 34 # rest) = Some (quote bs, rest)"
proof (induction bs rule: quote.induct)
  case (2 b bs)
  show ?case
  proof (cases "b < 128")
    case True
    with 2(1) show ?thesis by (simp add: scan_quote_ascii)
  next
    case False
    show ?thesis
    proof (cases "decode_rune (b # bs)")
      case None
      with False 2(2) show ?thesis by (simp add: hex4_def)
    next
      case (Some p)
      obtain r bs' where p: "p = (r, bs')" by fastforce
      have IH: "scan_string (quote bs' @ 34 # rest) = Some (quote bs', rest)"
        using 2(3) False Some p by simp
      have r: "128 \<le> r" using decode_rune_high Some p False by fastforce
      show ?thesis
      proof (cases "r = 0x2028 \<or> r = 0x2029")
        case True
        then have "hex4 [50, 48, 50, hex_lower (r mod 16)] \<noteq> None" using hex4_line_sep [of r "[]"] by simp
        from scan_u [OF this] True False Some p IH show ?thesis by simp
      next
        case no_sep: False
        with False Some p IH scan_high [OF encode_rune_high [OF r]] show ?thesis by simp
      qed
    qed
  qed
qed simp

lemma unquote_ascii: "b < 128 \<Longrightarrow> unquote (quote_ascii b @ s) = b # unquote s"
proof -
  assume b: "b < 128"
  have h: "hex4 (48 # 48 # hex_lower (b div 16) # hex_lower (b mod 16) # s) = Some b"
    using b by (subst hex4_lower) auto
  from b show ?thesis
    by (auto simp: quote_ascii_def next_escape_def unescape_def h encode_rune.simps)
qed

lemma unquote_rune:
  assumes "valid_rune r" "128 \<le> r"
  shows "unquote (encode_rune r @ s) = encode_rune r @ unquote s"
proof -
  obtain b bs where e: "encode_rune r = b # bs" using encode_rune_nonempty by (cases "encode_rune r") auto
  then have b: "128 \<le> b" using encode_rune_high [OF assms(2)] by simp
  have "decode_rune (b # bs @ s) = Some (r, s)" using decode_encode_rune [OF assms(1), of s] e by simp
  with e b show ?thesis by simp
qed

lemma unquote_line_sep:
  "r = 0x2028 \<or> r = 0x2029 \<Longrightarrow>
    unquote (92 # 117 # 50 # 48 # 50 # hex_lower (r mod 16) # s) = encode_rune r @ unquote s"
  using hex4_line_sep [of r s] by (auto simp: next_escape_def)

lemma unquote_quote: "decode_bytes bs = Some rs \<Longrightarrow> unquote (quote bs) = bs"
proof (induction rule: decode_bytes_Some_induct)
  case (Rune bs r rest rs)
  then obtain b bs' where bs: "bs = b # bs'" by (cases bs) (auto simp: decode_rune_def)
  have eq: "bs = encode_rune r @ rest" using decode_rune_encode [OF Rune(1)] .
  show ?case
  proof (cases "b < 128")
    case True
    with Rune(1) bs have "r = b" "rest = bs'" by (auto simp: decode_rune_def)
    with True Rune(2) bs show ?thesis by (simp add: unquote_ascii)
  next
    case False
    have r: "128 \<le> r" using decode_rune_high Rune(1) bs False by fastforce
    have "quote bs = (if r = 0x2028 \<or> r = 0x2029
           then [92, 117, 50, 48, 50, hex_lower (r mod 16)] else encode_rune r) @ quote rest"
      using False Rune(1) bs by simp
    then have "unquote (quote bs) = encode_rune r @ unquote (quote rest)"
      using unquote_line_sep [of r "quote rest"] unquote_rune [OF decode_rune_valid [OF Rune(1)] r] by auto
    with Rune(2) eq show ?thesis by simp
  qed
qed simp

lemma string_of_bytes [simp]: "string_of (bytes_of s) = s"
  by (simp add: string_of_def bytes_of_def comp_def)

lemma unquote_text: "utf8_decode s = Some rs \<Longrightarrow> string_of (unquote (quote (bytes_of s))) = s"
  using unquote_quote [of "bytes_of s" rs] by (simp add: utf8_decode_def bytes_of_def [symmetric])

section \<open>Printed values parse\<close>

text \<open>
  Values the program prints: literals the scanner accepts, numbers that are decimal naturals,
  nesting within the limit.
\<close>

definition good_literal :: "bytes \<Rightarrow> bool" where
  "good_literal s \<longleftrightarrow> (\<forall>rest. scan_string (s @ 34 # rest) = Some (s, rest))"

definition good_number :: "bytes \<Rightarrow> bool" where
  "good_number n \<longleftrightarrow> n \<noteq> [] \<and> list_all is_digit n \<and> (hd n = 48 \<longrightarrow> n = [48])"

fun good_json :: "nat \<Rightarrow> json \<Rightarrow> bool" where
  "good_json d (JNum n) = good_number n"
| "good_json d (JStr s) = good_literal s"
| "good_json d (JArr vs) = (0 < d \<and> (\<forall>v \<in> set vs. good_json (d - 1) v))"
| "good_json d (JObj ms) = (0 < d \<and> (\<forall>(k, v) \<in> set ms. good_literal k \<and> good_json (d - 1) v))"
| "good_json d v = True"

lemma good_literal_quote [simp]: "good_literal (quote bs)"
  by (simp add: good_literal_def scan_quote)

lemma good_json_JText [simp]: "good_json d (JText s)"
  by (simp add: JText_def)

definition ends :: "bytes \<Rightarrow> bool" where
  "ends rest \<longleftrightarrow> rest = [] \<or> hd rest \<in> {44, 93, 125}"

lemma ends_simps [simp]: "ends []" "ends (44 # r)" "ends (93 # r)" "ends (125 # r)"
  by (simp_all add: ends_def)

lemma skip_ws_hd: "s \<noteq> [] \<Longrightarrow> \<not> is_ws (hd s) \<Longrightarrow> skip_ws s = s"
  by (cases s) (simp_all add: skip_ws_def)

lemma ends_hd: "ends rest \<Longrightarrow> rest \<noteq> [] \<Longrightarrow> \<not> is_digit (hd rest) \<and> hd rest \<noteq> 46 \<and> hd rest \<noteq> 101 \<and> hd rest \<noteq> 69"
  by (auto simp: ends_def is_digit_def)

lemma takeWhile_digits:
  "list_all is_digit n \<Longrightarrow> ends rest \<Longrightarrow> takeWhile is_digit (n @ rest) = n \<and> dropWhile is_digit (n @ rest) = rest"
  using ends_hd [of rest] by (cases rest) (auto simp: list_all_iff takeWhile_append dropWhile_append)

lemma scan_number_good:
  assumes "good_number n" and "ends rest"
  shows "scan_number (n @ rest) = Some (n, rest)"
proof -
  have d: "n \<noteq> []" "list_all is_digit n" "is_digit (hd n)" using assms(1) by (auto simp: good_number_def list_all_iff)
  have t1: "take 1 rest \<noteq> [46]" "take 1 rest \<noteq> [101]" "take 1 rest \<noteq> [69]"
    using assms(2) by (cases rest; auto simp: ends_def)+
  then have fe: "scan_frac rest = Some ([], rest)" "scan_exp rest = Some ([], rest)"
    by (simp_all add: scan_frac_def scan_exp_def)
  have i: "scan_int (n @ rest) = Some (n, rest)"
  proof (cases "hd n = 48")
    case True
    then have "n = [48]" using assms(1) by (simp add: good_number_def)
    then show ?thesis by (simp add: scan_int_def)
  next
    case False
    with d(1) have "take 1 (n @ rest) \<noteq> [48]" by (cases n) auto
    with d takeWhile_digits [OF d(2) assms(2)] show ?thesis by (simp add: scan_int_def scan_digits_def)
  qed
  have "take 1 (n @ rest) \<noteq> [45]" using d by (cases n) (auto simp: is_digit_def)
  with i fe show ?thesis by (simp add: scan_number_def)
qed

lemma json_text_hd: "good_json d v \<Longrightarrow> json_text v \<noteq> [] \<and> \<not> is_ws (hd (json_text v)) \<and> hd (json_text v) \<noteq> 93 \<and> hd (json_text v) \<noteq> 125"
  by (cases v) (auto simp: is_ws_def good_number_def is_digit_def list_all_iff dest!: hd_in_set split: if_splits)

lemma parse_num:
  assumes "good_number n" "ends rest"
  shows "parse_value (Suc k) d (n @ rest) = Some (JNum n, rest)"
proof -
  have n: "n \<noteq> []" "is_digit (hd n)" using assms(1) by (auto simp: good_number_def list_all_iff)
  then have ws: "skip_ws (n @ rest) = n @ rest" by (intro skip_ws_hd) (auto simp: is_ws_def is_digit_def)
  obtain b bs where b: "n = b # bs" "is_digit b" using n by (cases n) auto
  then show ?thesis using ws scan_number_good [OF assms]
    by (auto simp: is_digit_def)
qed

lemma parse_elems_text:
  assumes IH: "\<And>v n rest. v \<in> set vs \<Longrightarrow> ends rest \<Longrightarrow> length (json_text v) < n \<Longrightarrow>
      parse_value n d (json_text v @ rest) = Some (v, rest)"
    and "vs \<noteq> []" "length (commas (map json_text vs)) + 1 < n"
  shows "parse_elems n d (commas (map json_text vs) @ 93 # rest) = Some (vs, rest)"
  using assms
proof (induction vs arbitrary: n)
  case (Cons v vs)
  obtain m where n: "n = Suc m" using Cons.prems(3) by (cases n) auto
  show ?case
  proof (cases vs)
    case Nil
    have "parse_value m d (json_text v @ 93 # rest) = Some (v, 93 # rest)"
      using Cons.prems n Nil by (intro Cons.prems(1)) auto
    then show ?thesis using n Nil by (simp add: skip_ws_hd is_ws_def)
  next
    case (Cons v' vs')
    have c: "commas (map json_text (v # vs)) = json_text v @ 44 # commas (map json_text vs)"
      using Cons by simp
    have l: "length (json_text v) < m" "length (commas (map json_text vs)) + 1 < m"
      using Cons.prems(3) n c by simp_all
    have "parse_value m d (json_text v @ 44 # commas (map json_text vs) @ 93 # rest)
        = Some (v, 44 # commas (map json_text vs) @ 93 # rest)"
      using l by (intro Cons.prems(1)) auto
    moreover have "parse_elems m d (commas (map json_text vs) @ 93 # rest) = Some (vs, rest)"
      using Cons.IH Cons.prems(1) l Cons by simp
    ultimately show ?thesis using n c by (simp add: skip_ws_hd is_ws_def)
  qed
qed simp

definition member_text :: "bytes \<times> json \<Rightarrow> bytes" where
  "member_text m = [34] @ fst m @ [34, 58] @ json_text (snd m)"

lemma parse_members_text:
  assumes IH: "\<And>k v n rest. (k, v) \<in> set ms \<Longrightarrow> ends rest \<Longrightarrow> length (json_text v) < n \<Longrightarrow>
      parse_value n d (json_text v @ rest) = Some (v, rest)"
    and "\<forall>m \<in> set ms. good_literal (fst m)"
    and "ms \<noteq> []" "length (commas (map member_text ms)) + 1 < n"
  shows "parse_members n d (commas (map member_text ms) @ 125 # rest) = Some (ms, rest)"
  using assms
proof (induction ms arbitrary: n)
  case (Cons m ms)
  obtain k v where m: "m = (k, v)" by fastforce
  obtain f where n: "n = Suc f" using Cons.prems(4) by (cases n) auto
  have k: "scan_string (k @ 34 # r) = Some (k, r)" for r
    using Cons.prems(2) m by (simp add: good_literal_def)
  show ?case
  proof (cases ms)
    case Nil
    have "parse_value f d (json_text v @ 125 # rest) = Some (v, 125 # rest)"
      using Cons.prems n Nil m by (intro Cons.prems(1) [of k]) (auto simp: member_text_def)
    then show ?thesis using n Nil m k by (simp add: member_text_def skip_ws_hd is_ws_def)
  next
    case (Cons m' ms')
    have c: "commas (map member_text (m # ms)) = member_text m @ 44 # commas (map member_text ms)"
      using Cons by simp
    have l: "length (json_text v) < f" "length (commas (map member_text ms)) + 1 < f"
    proof -
      have "length (commas (map member_text (m # ms))) = length (member_text m) + 1 + length (commas (map member_text ms))"
        unfolding c by simp
      moreover have "length (json_text v) < length (member_text m)" by (simp add: m member_text_def)
      ultimately show "length (json_text v) < f" "length (commas (map member_text ms)) + 1 < f"
        using Cons.prems(4) n by linarith+
    qed
    have "parse_value f d (json_text v @ 44 # commas (map member_text ms) @ 125 # rest)
        = Some (v, 44 # commas (map member_text ms) @ 125 # rest)"
      using l m by (intro Cons.prems(1) [of k]) auto
    moreover have "parse_members f d (commas (map member_text ms) @ 125 # rest) = Some (ms, rest)"
      using Cons.prems(1,2) l Cons by (intro Cons.IH) auto
    moreover have "commas (map member_text (m # ms)) @ 125 # rest
        = 34 # k @ 34 # 58 # json_text v @ 44 # commas (map member_text ms) @ 125 # rest"
      unfolding c by (simp add: m member_text_def)
    ultimately show ?thesis unfolding n by (simp add: m k skip_ws_hd is_ws_def del: list.map)
  qed
qed simp

lemma commas_hd: "xs \<noteq> [] \<Longrightarrow> hd xs \<noteq> [] \<Longrightarrow> hd (commas xs) = hd (hd xs) \<and> commas xs \<noteq> []"
  by (induction xs rule: commas.induct) auto

lemma parse_text:
  "good_json d v \<Longrightarrow> ends rest \<Longrightarrow> length (json_text v) < n \<Longrightarrow> parse_value n d (json_text v @ rest) = Some (v, rest)"
proof (induction v arbitrary: n d rest)
  case (JNum x)
  then show ?case using parse_num by (cases n) simp_all
next
  case (JStr x)
  then show ?case by (cases n) (simp_all add: skip_ws_hd is_ws_def good_literal_def)
next
  case (JArr vs)
  obtain m where n: "n = Suc m" using JArr.prems(3) by (cases n) auto
  show ?case
  proof (cases "vs = []")
    case True
    then show ?thesis using JArr.prems n by (simp add: skip_ws_hd is_ws_def)
  next
    case False
    let ?c = "commas (map json_text vs)"
    have hd: "?c \<noteq> []" "\<not> is_ws (hd ?c)" "hd ?c \<noteq> 93"
      using commas_hd [of "map json_text vs"] json_text_hd [of "d - 1" "hd vs"] False JArr.prems(1)
      by (auto simp: hd_map)
    have "parse_elems m (d - 1) (?c @ 93 # rest) = Some (vs, rest)"
      using JArr.prems n False by (intro parse_elems_text JArr.IH) auto
    moreover have "skip_ws (?c @ 93 # rest) = ?c @ 93 # rest" using hd by (intro skip_ws_hd) auto
    moreover have "take 1 (?c @ 93 # rest) \<noteq> [93]" using hd by (cases ?c) auto
    ultimately show ?thesis using JArr.prems n by (simp add: skip_ws_hd is_ws_def)
  qed
next
  case (JObj ms)
  obtain m where n: "n = Suc m" using JObj.prems(3) by (cases n) auto
  have printed: "json_text (JObj ms) = 123 # commas (map member_text ms) @ [125]"
    by (simp add: member_text_def [abs_def] split_def)
  show ?case
  proof (cases "ms = []")
    case True
    then show ?thesis using JObj.prems n by (simp add: skip_ws_hd is_ws_def)
  next
    case False
    let ?c = "commas (map member_text ms)"
    have hd: "?c \<noteq> []" "hd ?c = 34"
      using commas_hd [of "map member_text ms"] False by (auto simp: hd_map member_text_def)
    have "parse_members m (d - 1) (?c @ 125 # rest) = Some (ms, rest)"
    proof (rule parse_members_text)
      fix k v f r assume kv: "(k, v) \<in> set ms" and r: "ends r" "length (json_text v) < f"
      show "parse_value f (d - 1) (json_text v @ r) = Some (v, r)"
        using JObj.prems(1) kv r by (intro JObj.IH) auto
    qed (use JObj.prems(1,3) n printed False in auto)
    moreover have "skip_ws (?c @ 125 # rest) = ?c @ 125 # rest" using hd by (intro skip_ws_hd) (auto simp: is_ws_def)
    moreover have "take 1 (?c @ 125 # rest) \<noteq> [125]" using hd by (cases ?c) auto
    ultimately show ?thesis using JObj.prems n by (simp add: printed skip_ws_hd is_ws_def del: json_text.simps)
  qed
next
  case JNull
  then show ?case by (cases n) (simp_all add: skip_ws_hd is_ws_def scan_word_def)
next
  case (JBool b)
  then show ?case by (cases n; cases b) (simp_all add: skip_ws_hd is_ws_def scan_word_def)
qed

lemma json_roundtrip: "good_json 10000 v \<Longrightarrow> json_parse (json_text v) = Some v"
  using parse_text [of 10000 v "[]" "2 * length (json_text v) + 2"] by (simp add: json_parse_def skip_ws_def)

section \<open>Base64 round trip\<close>

lemma b64_val_char: "n < 64 \<Longrightarrow> b64_val (b64_char n) = Some n \<and> b64_char n \<noteq> 10 \<and> b64_char n \<noteq> 13"
  by (auto simp: b64_val_def b64_char_def)

lemma all_some_map: "(\<And>x. x \<in> set xs \<Longrightarrow> f x = Some (g x)) \<Longrightarrow> all_some (map f xs) = Some (map g xs)"
  by (induction xs) auto

text \<open>The six-bit groups of a byte string.\<close>

fun b64_split :: "bytes \<Rightarrow> nat list" where
  "b64_split [] = []"
| "b64_split [a] = [a div 4, a mod 4 * 16]"
| "b64_split [a, b] = [a div 4, a mod 4 * 16 + b div 16, b mod 16 * 4]"
| "b64_split (a # b # c # bs) =
     [a div 4, a mod 4 * 16 + b div 16, b mod 16 * 4 + c div 64, c mod 64] @ b64_split bs"

lemma b64_encode_split: "b64_encode bs = map b64_char (b64_split bs)"
  by (induction bs rule: b64_split.induct) simp_all

lemma six_bits:
  assumes "(a::nat) < 256" "(b::nat) < 256"
  shows "a div 4 < 64" "a mod 4 * 16 + b div 16 < 64" "a mod 16 * 4 + b div 64 < 64" "a mod 64 < 64"
    "a mod 4 * 16 < 64" "a mod 16 * 4 < 64"
    "a div 4 * 4 + (a mod 4 * 16 + b div 16) div 16 = a"
    "(b mod 4 * 16 + a div 16) mod 16 * 16 + (a mod 16 * 4) div 4 = a"
proof -
  have m: "a mod 4 < 4" "a mod 16 < 16" "b div 16 < 16" "b div 64 < 4" "a div 16 < 16" "b mod 4 < 4"
    using assms by auto
  show "a div 4 < 64" "a mod 64 < 64" using assms by auto
  show "a mod 4 * 16 + b div 16 < 64" "a mod 16 * 4 + b div 64 < 64" "a mod 4 * 16 < 64" "a mod 16 * 4 < 64"
    using m by linarith+
  have "(a mod 4 * 16 + b div 16) div 16 = a mod 4" using m by auto
  then show "a div 4 * 4 + (a mod 4 * 16 + b div 16) div 16 = a" by simp
  have "(b mod 4 * 16 + a div 16) mod 16 = a div 16" using m by simp
  then show "(b mod 4 * 16 + a div 16) mod 16 * 16 + (a mod 16 * 4) div 4 = a" by simp
qed

lemma six_bits_mid:
  assumes "(b::nat) < 256" "(c::nat) < 256"
  shows "(a mod 4 * 16 + b div 16) mod 16 * 16 + (b mod 16 * 4 + c div 64) div 4 = b"
    "(b mod 16 * 4 + c div 64) mod 4 * 64 + c mod 64 = c"
proof -
  have m: "b div 16 < 16" "c div 64 < 4" using assms by auto
  have "(a mod 4 * 16 + b div 16) mod 16 = b div 16" "(b mod 16 * 4 + c div 64) div 4 = b mod 16"
    "(b mod 16 * 4 + c div 64) mod 4 = c div 64" using m by auto
  then show "(a mod 4 * 16 + b div 16) mod 16 * 16 + (b mod 16 * 4 + c div 64) div 4 = b"
    "(b mod 16 * 4 + c div 64) mod 4 * 64 + c mod 64 = c" by simp_all
qed

lemma b64_split_range: "list_all (\<lambda>b. b < 256) bs \<Longrightarrow> n \<in> set (b64_split bs) \<Longrightarrow> n < 64"
  by (induction bs rule: b64_split.induct) (auto dest: six_bits)

lemma b64_groups_split: "list_all (\<lambda>b. b < 256) bs \<Longrightarrow> b64_groups (b64_split bs) = Some bs"
proof (induction bs rule: b64_split.induct)
  case (2 a)
  then show ?case using six_bits(7) [of a 0] by simp
next
  case (3 a b)
  then show ?case using six_bits(7) [of a b] six_bits(8) [of b a] by simp
next
  case (4 a b c bs)
  then show ?case using six_bits(7) [of a b] six_bits_mid(1) [of b c a] six_bits_mid(2) [of b c] by simp
qed simp

lemma b64_roundtrip:
  assumes "list_all (\<lambda>b. b < 256) bs"
  shows "b64_decode (b64_encode bs) = Some bs"
proof -
  have r: "n < 64" if "n \<in> set (b64_split bs)" for n using b64_split_range assms that by blast
  then have "filter (\<lambda>c. c \<noteq> 10 \<and> c \<noteq> 13) (b64_encode bs) = b64_encode bs"
    using b64_val_char by (auto simp: b64_encode_split intro!: filter_id)
  moreover have "all_some (map b64_val (b64_encode bs)) = Some (b64_split bs)"
    using all_some_map [of "b64_split bs" "\<lambda>n. b64_val (b64_char n)" id] r b64_val_char
    by (simp add: b64_encode_split comp_def)
  ultimately show ?thesis using b64_groups_split [OF assms] by (simp add: b64_decode_def)
qed

lemma bytes_of_string: "list_all (\<lambda>b. b < 256) bs \<Longrightarrow> bytes_of (string_of bs) = bs"
  by (auto simp: bytes_of_def string_of_def comp_def take_bit_eq_mod list_all_iff intro!: map_idI)

lemma bytes_of_range: "list_all (\<lambda>b. b < 256) (bytes_of s)"
  by (auto simp: bytes_of_def list_all_iff of_char_def)

lemma quote_range: "list_all (\<lambda>b. b < 256) bs \<Longrightarrow> list_all (\<lambda>b. b < 256) (quote bs)"
proof (induction bs rule: quote.induct)
  case (2 b bs)
  show ?case
  proof (cases "b < 128")
    case True
    then have "list_all (\<lambda>x. x < 256) (quote_ascii b)"
      by (auto simp: quote_ascii_def hex_lower_def)
    with 2 True show ?thesis by simp
  next
    case False
    show ?thesis
    proof (cases "decode_rune (b # bs)")
      case None
      with 2 False show ?thesis by simp
    next
      case (Some p)
      obtain r rest where p: "p = (r, rest)" by fastforce
      have "list_all (\<lambda>x. x < 256) (encode_rune r @ rest)"
        using decode_rune_encode [of "b # bs" r rest] Some p 2(4) by metis
      with 2(3) False Some p show ?thesis by (auto simp: hex_lower_def)
    qed
  qed
qed simp

end
