(* ===== verification/Cursor.thy ===== *)
theory Cursor
  imports World Go_Json
begin

text \<open>
  \<^verbatim>\<open>service/cursor.go\<close>: page cursors as URL-safe base64 over a JSON object, and their
  round trip.
\<close>

section \<open>Encoding and decoding\<close>

definition tagCursorPayload :: "Ext \<Rightarrow> TagCursor \<Rightarrow> json" where
  "tagCursorPayload X c =
     JObj [(bytes_of ''n'', JText (tc_Name c)), (bytes_of ''i'', JText (x_uuid_string X (tc_ID c)))]"

definition mediaCursorPayload :: "Ext \<Rightarrow> MediaCursor \<Rightarrow> json" where
  "mediaCursorPayload X c =
     JObj [(bytes_of ''t'', JText (x_time_text X (mc_CreatedAt c))), (bytes_of ''i'', JText (x_uuid_string X (mc_ID c)))]"

definition EncodeTagCursor :: "Ext \<Rightarrow> TagCursor option \<Rightarrow> string" where
  "EncodeTagCursor X c = (case c of None \<Rightarrow> [] | Some c \<Rightarrow> string_of (b64_encode (json_text (tagCursorPayload X c))))"

text \<open>
  \<^verbatim>\<open>json.Marshal\<close> refuses a time whose year is not in 0 to 9999; the encoder ignores that error
  and encodes no bytes at all.
\<close>

definition json_time :: "time \<Rightarrow> bool" where
  "json_time t \<longleftrightarrow> - 62167219200000000 \<le> t \<and> t < 253402300800000000"

definition EncodeMediaCursor :: "Ext \<Rightarrow> MediaCursor option \<Rightarrow> string" where
  "EncodeMediaCursor X c =
     (case c of
        None \<Rightarrow> []
      | Some c \<Rightarrow> if json_time (mc_CreatedAt c) then string_of (b64_encode (json_text (mediaCursorPayload X c)))
                  else [])"

text \<open>\<^verbatim>\<open>time.Time\<close> reads the literal itself, without resolving escapes.\<close>

fun time_field :: "(string \<Rightarrow> time option) \<Rightarrow> string \<Rightarrow> time \<Rightarrow> (bytes \<times> json) list \<Rightarrow> time option" where
  "time_field p f old [] = Some old"
| "time_field p f old ((k, v) # ms) =
     (if names_field f k then
        (case v of
           JStr t \<Rightarrow> (case p (string_of t) of None \<Rightarrow> None | Some x \<Rightarrow> time_field p f x ms)
         | JNull \<Rightarrow> time_field p f old ms
         | _ \<Rightarrow> None)
      else time_field p f old ms)"

text \<open>The zero \<^verbatim>\<open>time.Time\<close>, 1 January of year 1, in microseconds since 1970.\<close>

definition zero_time :: time where "zero_time = - 62135596800000000"

definition decode_tag_payload :: "Ext \<Rightarrow> json \<Rightarrow> TagCursor option" where
  "decode_tag_payload X v =
     (case v of
        JObj ms \<Rightarrow>
          (case (string_field ''n'' [] ms, text_field (x_uuid_parse X) ''i'' 0 ms) of
             (Some n, Some i) \<Rightarrow> Some \<lparr>tc_Name = n, tc_ID = i\<rparr>
           | _ \<Rightarrow> None)
      | JNull \<Rightarrow> Some \<lparr>tc_Name = [], tc_ID = 0\<rparr>
      | _ \<Rightarrow> None)"

definition decode_media_payload :: "Ext \<Rightarrow> json \<Rightarrow> MediaCursor option" where
  "decode_media_payload X v =
     (case v of
        JObj ms \<Rightarrow>
          (case (time_field (x_time_parse X) ''t'' zero_time ms, text_field (x_uuid_parse X) ''i'' 0 ms) of
             (Some t, Some i) \<Rightarrow> Some \<lparr>mc_CreatedAt = t, mc_ID = i\<rparr>
           | _ \<Rightarrow> None)
      | JNull \<Rightarrow> Some \<lparr>mc_CreatedAt = zero_time, mc_ID = 0\<rparr>
      | _ \<Rightarrow> None)"

definition DecodeTagCursor :: "Ext \<Rightarrow> string \<Rightarrow> goerr + TagCursor option" where
  "DecodeTagCursor X s =
     (if s = [] then Inr None
      else case b64_decode (bytes_of s) of
        None \<Rightarrow> Inl (Errorf '''' ErrValidation '': invalid cursor encoding'')
      | Some b \<Rightarrow>
          (case json_parse b of
             None \<Rightarrow> Inl (Errorf '''' ErrValidation '': invalid cursor payload'')
           | Some v \<Rightarrow>
               (case decode_tag_payload X v of
                  None \<Rightarrow> Inl (Errorf '''' ErrValidation '': invalid cursor payload'')
                | Some c \<Rightarrow> Inr (Some c))))"

definition DecodeMediaCursor :: "Ext \<Rightarrow> string \<Rightarrow> goerr + MediaCursor option" where
  "DecodeMediaCursor X s =
     (if s = [] then Inr None
      else case b64_decode (bytes_of s) of
        None \<Rightarrow> Inl (Errorf '''' ErrValidation '': invalid cursor encoding'')
      | Some b \<Rightarrow>
          (case json_parse b of
             None \<Rightarrow> Inl (Errorf '''' ErrValidation '': invalid cursor payload'')
           | Some v \<Rightarrow>
               (case decode_media_payload X v of
                  None \<Rightarrow> Inl (Errorf '''' ErrValidation '': invalid cursor payload'')
                | Some c \<Rightarrow> Inr (Some c))))"

section \<open>Round trip\<close>

text \<open>Texts that JSON leaves as they are: printable ASCII without quote, backslash and HTML characters.\<close>

definition plain_char :: "char \<Rightarrow> bool" where
  "plain_char c = (let n = (of_char c :: nat) in 32 \<le> n \<and> n < 127 \<and> n \<notin> {34, 92, 60, 62, 38})"

text \<open>
  Documented behaviour of \<^verbatim>\<open>uuid.Parse\<close> and of the RFC 3339 form: they read back what was
  written, which is plain text.
\<close>

definition uuid_text_spec :: "Ext \<Rightarrow> bool" where
  "uuid_text_spec X \<longleftrightarrow> (\<forall>u. x_uuid_parse X (x_uuid_string X u) = Some u \<and> list_all plain_char (x_uuid_string X u))"

definition time_text_spec :: "Ext \<Rightarrow> bool" where
  "time_text_spec X \<longleftrightarrow>
     (\<forall>t. json_time t \<longrightarrow> x_time_parse X (x_time_text X t) = Some t \<and> list_all plain_char (x_time_text X t))"

lemma quote_plain: "list_all plain_char s \<Longrightarrow> quote (bytes_of s) = bytes_of s"
proof (induction s)
  case (Cons c s)
  then have "of_char c < (128::nat)" "quote_ascii (of_char c) = [of_char c]"
    by (auto simp: plain_char_def quote_ascii_def Let_def)
  with Cons show ?case by (simp add: bytes_of_def)
qed (simp add: bytes_of_def)

lemma unquote_plain: "list_all plain_char s \<Longrightarrow> unquote (bytes_of s) = bytes_of s"
proof (induction s)
  case (Cons c s)
  then have "of_char c < (128::nat)" "of_char c \<noteq> (92::nat)"
    by (auto simp: plain_char_def Let_def)
  with Cons show ?case by (simp add: bytes_of_def)
qed (simp add: bytes_of_def)

lemma commas_range: "(\<And>x. x \<in> set xs \<Longrightarrow> list_all (\<lambda>b. b < 256) x) \<Longrightarrow> list_all (\<lambda>b. b < 256) (commas xs)"
  by (induction xs rule: commas.induct) auto

lemma payload_range:
  "list_all (\<lambda>b. b < 256) (json_text (JObj [(bytes_of a, JText s), (bytes_of b, JText t)]))"
  using bytes_of_range quote_range by (simp add: JText_def)

lemma letter_literal: "list_all plain_char k \<Longrightarrow> good_literal (bytes_of k)"
  using good_literal_quote [of "bytes_of k"] by (simp add: quote_plain)

lemma payload_parses:
  assumes "list_all plain_char a" "list_all plain_char b"
  shows "b64_decode (bytes_of (string_of (b64_encode (json_text (JObj [(bytes_of a, JText s), (bytes_of b, JText t)])))))
      = Some (json_text (JObj [(bytes_of a, JText s), (bytes_of b, JText t)]))" (is ?A)
    and "json_parse (json_text (JObj [(bytes_of a, JText s), (bytes_of b, JText t)]))
      = Some (JObj [(bytes_of a, JText s), (bytes_of b, JText t)])" (is ?B)
proof -
  let ?v = "JObj [(bytes_of a, JText s), (bytes_of b, JText t)]"
  have "list_all (\<lambda>x. x < 256) (b64_encode (json_text ?v))"
    using b64_split_range [OF payload_range] by (auto simp: b64_encode_split list_all_iff b64_char_def)
  then show ?A using b64_roundtrip [OF payload_range] by (simp add: bytes_of_string)
  show ?B using assms by (intro json_roundtrip) (simp add: letter_literal)
qed

lemma plain_letters [simp]: "plain_char (CHR ''n'')" "plain_char (CHR ''i'')" "plain_char (CHR ''t'')"
  by (simp_all add: plain_char_def)

lemma names_letters [simp]:
  "names_field ''n'' (bytes_of ''n'')" "names_field ''i'' (bytes_of ''i'')" "names_field ''t'' (bytes_of ''t'')"
  "\<not> names_field ''n'' (bytes_of ''i'')" "\<not> names_field ''i'' (bytes_of ''n'')"
  "\<not> names_field ''t'' (bytes_of ''i'')" "\<not> names_field ''i'' (bytes_of ''t'')"
  by (simp_all add: names_field_def unquote_plain) (simp_all add: bytes_of_def)

lemma encoded_nonempty: "string_of (b64_encode (json_text (JObj ms))) \<noteq> []"
proof -
  have "b64_encode (x # xs) \<noteq> []" for x xs by (cases xs rule: b64_encode.cases) auto
  then show ?thesis by (simp add: string_of_def)
qed

lemma tag_cursor_roundtrip:
  assumes X: "uuid_text_spec X" and n: "\<And>c'. c = Some c' \<Longrightarrow> utf8_decode (tc_Name c') \<noteq> None"
  shows "DecodeTagCursor X (EncodeTagCursor X c) = Inr c"
proof (cases c)
  case None
  then show ?thesis by (simp add: EncodeTagCursor_def DecodeTagCursor_def)
next
  case (Some d)
  have u: "string_of (unquote (quote (bytes_of (x_uuid_string X (tc_ID d))))) = x_uuid_string X (tc_ID d)"
    using X by (simp add: uuid_text_spec_def quote_plain unquote_plain)
  obtain rs where rs: "utf8_decode (tc_Name d) = Some rs" using n Some by blast
  show ?thesis
    using X Some u unquote_text [OF rs]
    by (simp add: EncodeTagCursor_def DecodeTagCursor_def encoded_nonempty tagCursorPayload_def payload_parses
        decode_tag_payload_def JText_def [symmetric] del: json_text.simps)
      (simp add: JText_def uuid_text_spec_def)
qed

lemma media_cursor_roundtrip:
  assumes X: "uuid_text_spec X" and T: "time_text_spec X" and n: "\<And>c'. c = Some c' \<Longrightarrow> json_time (mc_CreatedAt c')"
  shows "DecodeMediaCursor X (EncodeMediaCursor X c) = Inr c"
proof (cases c)
  case None
  then show ?thesis by (simp add: EncodeMediaCursor_def DecodeMediaCursor_def)
next
  case (Some d)
  have u: "string_of (unquote (quote (bytes_of (x_uuid_string X (mc_ID d))))) = x_uuid_string X (mc_ID d)"
    using X by (simp add: uuid_text_spec_def quote_plain unquote_plain)
  have t: "string_of (quote (bytes_of (x_time_text X (mc_CreatedAt d)))) = x_time_text X (mc_CreatedAt d)"
    using T n Some by (simp add: time_text_spec_def quote_plain)
  have "json_time (mc_CreatedAt d)" using n Some by blast
  then show ?thesis
    using X T Some u t
    by (simp add: EncodeMediaCursor_def DecodeMediaCursor_def encoded_nonempty mediaCursorPayload_def payload_parses
        decode_media_payload_def JText_def [symmetric] del: json_text.simps)
      (simp add: JText_def uuid_text_spec_def time_text_spec_def)
qed

lemma encode_tag_eq_Nil [simp]: "EncodeTagCursor X c = [] \<longleftrightarrow> c = None"
  by (simp add: EncodeTagCursor_def tagCursorPayload_def encoded_nonempty del: json_text.simps split: option.split)

lemma encode_media_eq_Nil:
  "(\<And>c'. c = Some c' \<Longrightarrow> json_time (mc_CreatedAt c')) \<Longrightarrow> EncodeMediaCursor X c = [] \<longleftrightarrow> c = None"
  by (auto simp: EncodeMediaCursor_def mediaCursorPayload_def encoded_nonempty simp del: json_text.simps split: option.split)

lemma decode_cursor_error:
  "DecodeTagCursor X s = Inl e \<Longrightarrow> errors_is e ErrValidation"
  "DecodeMediaCursor X s = Inl e \<Longrightarrow> errors_is e ErrValidation"
  by (auto simp: DecodeTagCursor_def DecodeMediaCursor_def split: if_splits option.splits)

end
