(* ===== verification/Text_Paging.thy ===== *)
theory Text_Paging
  imports Keyset
begin

text \<open>
  Keyset pages behind an opaque text cursor, as the services offer them: the contract between
  a paged query, a cursor codec and a client that passes the texts back.
\<close>

section \<open>The client's loop\<close>

text \<open>The empty text asks for the first page and says that there is no other page.\<close>

fun follow_text ::
  "nat \<Rightarrow> (string \<Rightarrow> ('w, 'e, 'r list \<times> string) op) \<Rightarrow> string \<Rightarrow> ('w, 'e, 'r list option) op" where
  "follow_text 0 fetch s = ret None"
| "follow_text (Suc n) fetch s =
     and_then (fetch s) (\<lambda>(rows, next).
       if next = [] then ret (Some rows)
       else and_then (follow_text n fetch next) (\<lambda>rest. ret (map_option ((@) rows) rest)))"

text \<open>One page: decode, query, encode.\<close>

definition text_page ::
  "(string \<Rightarrow> 'e + 'c option) \<Rightarrow> ('c option \<Rightarrow> string) \<Rightarrow> ('c option \<Rightarrow> ('w, 'e, 'r list \<times> 'c option) op) \<Rightarrow>
    string \<Rightarrow> ('w, 'e, 'r list \<times> string) op" where
  "text_page dec enc fetch s =
     and_then (of_result (dec s)) (\<lambda>c. and_then (fetch c) (\<lambda>(rows, next). ret (rows, enc next)))"

section \<open>The contract\<close>

text \<open>The codec reads back the cursors of the rows, and only the absent cursor is the empty text.\<close>

locale text_keyset = keyset good all key cursor_of ckey limit fetch
  for good :: "'w \<Rightarrow> bool"
    and all :: "'w \<Rightarrow> 'r list"
    and key :: "'r \<Rightarrow> 'k::linorder"
    and cursor_of :: "'r \<Rightarrow> 'c"
    and ckey :: "'c \<Rightarrow> 'k"
    and limit :: nat
    and fetch :: "'c option \<Rightarrow> ('w, 'e, 'r list \<times> 'c option) op" +
  fixes enc :: "'c option \<Rightarrow> string"
    and dec :: "string \<Rightarrow> 'e + 'c option"
  assumes dec_first: "dec (enc None) = Inr None"
    and enc_first: "enc None = []"
    and dec_enc: "good w \<Longrightarrow> r \<in> set (all w) \<Longrightarrow> dec (enc (Some (cursor_of r))) = Inr (Some (cursor_of r))"
    and enc_next: "good w \<Longrightarrow> r \<in> set (all w) \<Longrightarrow> enc (Some (cursor_of r)) \<noteq> []"
begin

definition row_cursor :: "'w \<Rightarrow> 'c option \<Rightarrow> bool" where
  "row_cursor w c \<longleftrightarrow> (case c of None \<Rightarrow> True | Some x \<Rightarrow> \<exists>r \<in> set (all w). x = cursor_of r)"

lemma row_cursor_dec: "good w \<Longrightarrow> row_cursor w c \<Longrightarrow> dec (enc c) = Inr c"
  by (auto simp: row_cursor_def dec_first dec_enc split: option.splits)

lemma row_cursor_Nil: "good w \<Longrightarrow> row_cursor w c \<Longrightarrow> enc c = [] \<longleftrightarrow> c = None"
  by (auto simp: row_cursor_def enc_first enc_next split: option.splits)

lemma page_row_cursor:
  assumes "good w" and "fetch c w = (Inr (rows, next), w')"
  shows "good w' \<and> row_cursor w' next"
proof -
  let ?rest = "after key ckey c (all w)"
  have pos: "0 < limit" by (rule pos [OF assms(1)])
  obtain w1 where w1: "fetch c w = (Inr (page limit cursor_of (take (Suc limit) ?rest)), w1)" "good w1" "all w1 = all w"
    using fetch_page [OF assms(1)] by blast
  have "?rest ! (limit - 1) \<in> set (all w)" if "limit < length ?rest"
  proof -
    have "?rest ! (limit - 1) \<in> set ?rest" using that by (intro nth_mem) simp
    then show ?thesis by (auto simp: after_def split: option.splits)
  qed
  with w1 assms(2) pos show ?thesis by (auto simp: page_def row_cursor_def split: if_splits)
qed

text \<open>The client that passes the texts back sees what the loop over the cursors sees.\<close>

lemma follow_text_eq:
  "good w \<Longrightarrow> row_cursor w c \<Longrightarrow>
    follow_text n (text_page dec enc fetch) (enc c) w = follow n fetch c w"
proof (induction n arbitrary: c w)
  case (Suc n)
  obtain w1 where w1: "fetch c w = (Inr (page limit cursor_of (take (Suc limit) (after key ckey c (all w)))), w1)"
    using fetch_page [OF Suc.prems(1)] by blast
  obtain rows nxt where p: "page limit cursor_of (take (Suc limit) (after key ckey c (all w))) = (rows, nxt)"
    by fastforce
  with w1 have f: "fetch c w = (Inr (rows, nxt), w1)" by simp
  have g: "good w1" "row_cursor w1 nxt" using page_row_cursor [OF Suc.prems(1) f] by simp_all
  have t: "text_page dec enc fetch (enc c) w = (Inr (rows, enc nxt), w1)"
    by (simp add: text_page_def row_cursor_dec [OF Suc.prems] f of_result_def ret_def)
  show ?case
  proof (cases nxt)
    case None
    with f t show ?thesis by (simp add: enc_first)
  next
    case (Some x)
    with row_cursor_Nil [OF g] have "enc (Some x) \<noteq> []" by simp
    moreover have "and_then (follow_text n (text_page dec enc fetch) (enc (Some x))) h w1
        = and_then (follow n fetch (Some x)) h w1" for h :: "'r list option \<Rightarrow> ('w, 'e, 'r list option) op"
      using Suc.IH [OF g] Some by (simp add: and_then_def)
    ultimately show ?thesis using f t Some by simp
  qed
qed simp

theorem follow_text_all:
  "good w \<Longrightarrow> length (all w) < n \<Longrightarrow>
    \<exists>w'. follow_text n (text_page dec enc fetch) [] w = (Inr (Some (all w)), w') \<and> good w'"
  using follow_all [of w n] follow_text_eq [of w None n] by (simp add: row_cursor_def enc_first)

end

end
