(* ===== verification/Tag_Service.thy ===== *)
theory Tag_Service
  imports Cursor Text_Paging Sanitize Tag_Repo
begin

text \<open>
  \<^verbatim>\<open>service/tag_service.go\<close>, over an arbitrary \<open>TagRepository\<close>.
\<close>

section \<open>Operations\<close>

record 'w TagService =
  ts_repo :: "'w TagRepository"

definition NewTagService :: "'w TagRepository \<Rightarrow> 'w TagService" where
  "NewTagService repo = \<lparr>ts_repo = repo\<rparr>"

definition TagService_Create :: "Ext \<Rightarrow> 'w TagService \<Rightarrow> Ctx \<Rightarrow> string \<Rightarrow> ('w, goerr, Tag \<times> bool) op" where
  "TagService_Create X s ctx name =
     and_then (of_result (SanitizeName (x_nfc X) name)) (\<lambda>name.
       map_err (\<lambda>e. Errorf ''create or get tag: '' e '''') (tr_CreateOrGet (ts_repo s) ctx name))"

text \<open>The bounds of a page: 50 rows when no positive number is asked for, at most 100.\<close>

definition clamp_limit :: "int \<Rightarrow> nat" where
  "clamp_limit limit =
     (let limit = (if limit \<le> 0 then 50 else limit);
          limit = (if limit > 100 then 100 else limit) in nat limit)"

definition TagService_List ::
  "Ext \<Rightarrow> 'w TagService \<Rightarrow> Ctx \<Rightarrow> int \<Rightarrow> string \<Rightarrow> ('w, goerr, Tag list \<times> string) op" where
  "TagService_List X s ctx limit cursor =
     and_then (of_result (DecodeTagCursor X cursor)) (\<lambda>c.
     and_then (tr_List (ts_repo s) ctx (clamp_limit limit) c) (\<lambda>(tags, next).
       ret (tags, EncodeTagCursor X next)))"

definition TagService_Rename :: "Ext \<Rightarrow> 'w TagService \<Rightarrow> Ctx \<Rightarrow> uuid \<Rightarrow> string \<Rightarrow> ('w, goerr, Tag) op" where
  "TagService_Rename X s ctx i name =
     and_then (of_result (SanitizeName (x_nfc X) name)) (\<lambda>sanitized. tr_Rename (ts_repo s) ctx i sanitized)"

definition TagService_Delete :: "'w TagService \<Rightarrow> Ctx \<Rightarrow> uuid \<Rightarrow> ('w, goerr, unit) op" where
  "TagService_Delete s ctx i = tr_Delete (ts_repo s) ctx i"

section \<open>Validation\<close>

lemma clamp_limit_bounds: "1 \<le> clamp_limit l \<and> clamp_limit l \<le> 100"
  by (auto simp: clamp_limit_def Let_def)

lemma clamp_limit_id: "1 \<le> l \<Longrightarrow> l \<le> 100 \<Longrightarrow> clamp_limit l = nat l"
  by (simp add: clamp_limit_def)

text \<open>A rejected name never reaches the repository, and the error is a validation error.\<close>

lemma TagService_rejects:
  assumes "SanitizeName (x_nfc X) name = Inl e"
  shows "TagService_Create X s ctx name w = (Inl e, w)" "TagService_Rename X s ctx i name w = (Inl e, w)"
  using assms by (simp_all add: TagService_Create_def TagService_Rename_def of_result_def and_then_def)

lemma TagService_accepts:
  assumes "SanitizeName (x_nfc X) name = Inr n"
  shows "TagService_Create X s ctx name w
      = map_err (\<lambda>e. Errorf ''create or get tag: '' e '''') (tr_CreateOrGet (ts_repo s) ctx n) w"
    "TagService_Rename X s ctx i name w = tr_Rename (ts_repo s) ctx i n w"
  using assms by (simp_all add: TagService_Create_def TagService_Rename_def of_result_def and_then_def)

section \<open>Over any repository that keeps its contract\<close>

context tag_repository
begin

lemma service_keeps:
  "ts_repo s = repo \<Longrightarrow> keeps inv (TagService_Create X s ctx name)"
  "ts_repo s = repo \<Longrightarrow> keeps inv (TagService_Rename X s ctx i name)"
  "ts_repo s = repo \<Longrightarrow> keeps inv (TagService_Delete s ctx i)"
  unfolding TagService_Create_def TagService_Rename_def TagService_Delete_def
  by (simp_all add: preserves create_keeps rename_keeps delete_keeps)

text \<open>Two spellings with one canonical form are one tag.\<close>

lemma service_create_same:
  assumes s: "ts_repo s = repo" and "inv w"
    and n: "SanitizeName (x_nfc X) a = Inr n" "SanitizeName (x_nfc X) b = Inr n"
    and 1: "TagService_Create X s ctx a w = (Inr (t, c), w1)"
    and 2: "TagService_Create X s ctx b w1 = (Inr (t', c'), w2)"
  shows "t' = t \<and> \<not> c' \<and> dir w2 = dir w1 \<and> tag_Name t = n"
proof -
  have r: "tr_CreateOrGet repo ctx n w = (Inr (t, c), w1)" "tr_CreateOrGet repo ctx n w1 = (Inr (t', c'), w2)"
    using 1 2 by (simp_all add: TagService_accepts n s)
  have "inv w1" using keepsD [OF create_keeps] \<open>inv w\<close> r(1) by blast
  moreover have "dir w1 n = Some t" using create_Inr [OF \<open>inv w\<close> r(1)] by simp
  ultimately have "tag_Name t = n" using dir_name by blast
  with create_twice [OF \<open>inv w\<close> r] show ?thesis by simp
qed

text \<open>What was created under any spelling is found under its canonical name.\<close>

lemma service_create_canonical:
  assumes "ts_repo s = repo" "inv w" "TagService_Create X s ctx a w = (Inr (t, c), w1)"
  shows "SanitizeName (x_nfc X) a = Inr (tag_Name t) \<and> dir w1 (tag_Name t) = Some t"
proof (cases "SanitizeName (x_nfc X) a")
  case (Inl e)
  with assms show ?thesis by (simp add: TagService_rejects)
next
  case (Inr n)
  with assms have r: "tr_CreateOrGet repo ctx n w = (Inr (t, c), w1)" by (simp add: TagService_accepts)
  have "inv w1" using keepsD [OF create_keeps] \<open>inv w\<close> r by blast
  moreover have "dir w1 n = Some t" using create_Inr [OF \<open>inv w\<close> r] by simp
  ultimately show ?thesis using dir_name Inr by force
qed

end

section \<open>Listing over PostgreSQL\<close>

definition tag_text_ready :: "Ext \<Rightarrow> uuid \<Rightarrow> db \<Rightarrow> Ctx \<Rightarrow> nat \<Rightarrow> World \<Rightarrow> bool" where
  "tag_text_ready X t d ctx limit w \<longleftrightarrow>
     tag_list_ready t d ctx limit w \<and> uuid_text_spec X \<and> (\<forall>r \<in> set (tags d). utf8_decode (tg_name r) \<noteq> None)"

interpretation tag_texts: text_keyset "tag_text_ready X t d ctx limit" "\<lambda>w. all_tags X t (w_db w)" "tag_key X"
  tag_cursor_of "tag_cursor_key X" limit "TagRepo_List X ctx limit" "EncodeTagCursor X" "DecodeTagCursor X"
  for X t d ctx limit
proof
  fix w r c assume g: "tag_text_ready X t d ctx limit w"
  then have ready: "tag_list_ready t d ctx limit w" and X: "uuid_text_spec X" by (simp_all add: tag_text_ready_def)
  show "0 < limit" by (rule tag_pages.pos [OF ready])
  show "sorted_wrt (<) (map (tag_key X) (all_tags X t (w_db w)))" by (rule tag_pages.strict [OF ready])
  show "\<exists>w'. TagRepo_List X ctx limit c w =
      (Inr (page limit tag_cursor_of
         (take (Suc limit) (after (tag_key X) (tag_cursor_key X) c (all_tags X t (w_db w))))), w')
    \<and> tag_text_ready X t d ctx limit w' \<and> all_tags X t (w_db w') = all_tags X t (w_db w)"
    using tag_pages.fetch_page [OF ready, of X c] g by (auto simp: tag_text_ready_def)
  assume r: "r \<in> set (all_tags X t (w_db w))"
  have "w_db w = d" using ready by (simp add: tag_list_ready_def)
  with r g have "utf8_decode (tc_Name (tag_cursor_of r)) \<noteq> None"
    by (auto simp: all_tags_def tag_rows_def tag_text_ready_def tag_cursor_of_def tag_of_row_def)
  then show "DecodeTagCursor X (EncodeTagCursor X (Some (tag_cursor_of r))) = Inr (Some (tag_cursor_of r))"
    using X by (intro tag_cursor_roundtrip) auto
qed (simp_all add: EncodeTagCursor_def DecodeTagCursor_def tagCursorPayload_def encoded_nonempty tag_pages.cursor_key
       del: json_text.simps)

lemma TagService_List_page:
  "TagService_List X (NewTagService (PostgresTagRepo X)) ctx l
     = text_page (DecodeTagCursor X) (EncodeTagCursor X) (TagRepo_List X ctx (clamp_limit l))"
  by (simp add: fun_eq_iff TagService_List_def text_page_def NewTagService_def PostgresTagRepo_def)

lemma tag_service_listing:
  assumes "db_inv (w_db w)" "no_faults w" "TenantIDFromContext ctx = Inr t" "uuid_text_spec X"
    and "\<forall>r \<in> set (tags (w_db w)). utf8_decode (tg_name r) \<noteq> None"
    and "length (tag_rows t (w_db w)) < fuel"
  shows "\<exists>w'. follow_text fuel (TagService_List X (NewTagService (PostgresTagRepo X)) ctx l) [] w
      = (Inr (Some (all_tags X t (w_db w))), w')"
proof -
  have "tag_text_ready X t (w_db w) ctx (clamp_limit l) w"
    using assms clamp_limit_bounds [of l] by (simp add: tag_text_ready_def tag_list_ready_def)
  from tag_texts.follow_text_all [OF this, of fuel] assms(6) show ?thesis
    by (auto simp: TagService_List_page all_tags_def)
qed

end
