(* ===== verification/Media_Service.thy ===== *)
theory Media_Service
  imports Tag_Service Media_Contract
begin

text \<open>
  \<^verbatim>\<open>service/media_service.go\<close>, over arbitrary repositories and an arbitrary storage: the
  operations, and the facts about their helpers.
\<close>

section \<open>Content types\<close>

definition allowedMIMETypes :: "string \<rightharpoonup> string" where
  "allowedMIMETypes = map_of
     [(''image/jpeg'', ''.jpg''), (''image/png'', ''.png''), (''image/gif'', ''.gif''), (''image/webp'', ''.webp''),
      (''video/mp4'', ''.mp4''), (''video/webm'', ''.webm'')]"

definition knownVideoExtensions :: "string list" where
  "knownVideoExtensions = [''.mp4'', ''.webm'', ''.mov'', ''.avi'', ''.mkv'']"

definition classifyContentType :: "string \<Rightarrow> string \<Rightarrow> goerr + MediaType \<times> string" where
  "classifyContentType contentType fileName =
     (case allowedMIMETypes contentType of
        Some ext \<Rightarrow>
          if has_prefix contentType ''image/'' then Inr (MediaTypeImage, ext) else Inr (MediaTypeVideo, ext)
      | None \<Rightarrow>
          let ext = to_lower (filepath_ext fileName) in
          if contentType = ''application/octet-stream'' \<and> ext \<in> set knownVideoExtensions
          then Inr (MediaTypeVideo, ext)
          else Inl (Errorf '''' ErrUnsupportedMediaType ('': '' @ contentType)))"

section \<open>Lists of ids and names\<close>

fun dedup_loop :: "uuid set \<Rightarrow> uuid list \<Rightarrow> uuid list" where
  "dedup_loop seen [] = []"
| "dedup_loop seen (i # ids) = (if i \<in> seen then dedup_loop seen ids else i # dedup_loop (insert i seen) ids)"

definition deduplicateUUIDs :: "uuid list \<Rightarrow> uuid list" where
  "deduplicateUUIDs ids = (if ids = [] then ids else dedup_loop {} ids)"

text \<open>The loop of \<^verbatim>\<open>List\<close> over the names of the filter.\<close>

fun normalize_names :: "Ext \<Rightarrow> string set \<Rightarrow> string list \<Rightarrow> goerr + string list" where
  "normalize_names X seen [] = Inr []"
| "normalize_names X seen (name # names) =
     (case SanitizeName (x_nfc X) name of
        Inl e \<Rightarrow> Inl e
      | Inr n \<Rightarrow>
          if n \<in> seen then normalize_names X seen names
          else (case normalize_names X (insert n seen) names of
                  Inl e \<Rightarrow> Inl e
                | Inr ns \<Rightarrow> Inr (n # ns)))"

definition sanitizeFilename :: "string \<Rightarrow> string" where
  "sanitizeFilename name = filepath_base (replace_byte (CHR 0x5C) (CHR ''/'') name)"

section \<open>Operations\<close>

record 'w MediaService =
  ms_repo :: "'w MediaRepository"
  ms_tagRepo :: "'w TagRepository"
  ms_storage :: "'w FileStorage"
  ms_baseURL :: string

definition NewMediaService ::
  "'w MediaRepository \<Rightarrow> 'w TagRepository \<Rightarrow> 'w FileStorage \<Rightarrow> string \<Rightarrow> 'w MediaService" where
  "NewMediaService repo tagRepo storage baseURL =
     \<lparr>ms_repo = repo, ms_tagRepo = tagRepo, ms_storage = storage, ms_baseURL = baseURL\<rparr>"

text \<open>\<open>ci_File\<close>: what the reader yields.\<close>

record CreateInput =
  ci_Name :: string
  ci_File :: string
  ci_FileName :: string
  ci_FileSize :: int
  ci_TagIDs :: "uuid list"
  ci_TagNames :: "string list"
  ci_ContentType :: string

fun resolve_names :: "Ext \<Rightarrow> 'w TagRepository \<Rightarrow> Ctx \<Rightarrow> string list \<Rightarrow> ('w, goerr, uuid list) op" where
  "resolve_names X repo ctx [] = ret []"
| "resolve_names X repo ctx (n # names) =
     and_then (of_result (SanitizeName (x_nfc X) n)) (\<lambda>sanitized.
     and_then (map_err (\<lambda>e. Errorf (''resolve tag '' @ x_quote X sanitized @ '': '') e '''')
                (tr_CreateOrGet repo ctx sanitized)) (\<lambda>(tag, _).
     and_then (resolve_names X repo ctx names) (\<lambda>ids. ret (tag_ID tag # ids))))"

definition too_many_tags :: goerr where
  "too_many_tags = Errorf '''' ErrValidation '': too many tags (max 50)''"

definition new_media :: "string \<Rightarrow> MediaType \<Rightarrow> string \<Rightarrow> CreateInput \<Rightarrow> Media" where
  "new_media name typ storedPath input =
     \<lparr>media_ID = 0, media_Name = name, media_Type = typ, media_FilePath = storedPath,
      media_OriginalName = sanitizeFilename (ci_FileName input), media_FileSize = ci_FileSize input,
      media_Tags = [], media_CreatedAt = zero_time\<rparr>"

text \<open>Steps 7 and 8: the insert, and when it fails the compensating delete, whose error is only logged.\<close>

definition insert_or_undo ::
  "'w MediaService \<Rightarrow> Ctx \<Rightarrow> Media \<Rightarrow> uuid list \<Rightarrow> ('w, goerr, Media) op" where
  "insert_or_undo s ctx m tagIDs =
     handle (mr_Create (ms_repo s) ctx m tagIDs)
       ret
       (\<lambda>err. handle (fs_Delete (ms_storage s) ctx (media_FilePath m))
          (\<lambda>_. fail (Errorf ''create media record: '' err ''''))
          (\<lambda>_. fail (Errorf ''create media record: '' err '''')))"

definition MediaService_Create :: "Ext \<Rightarrow> 'w MediaService \<Rightarrow> Ctx \<Rightarrow> CreateInput \<Rightarrow> ('w, goerr, Media) op" where
  "MediaService_Create X s ctx input =
     and_then (of_result (SanitizeName (x_nfc X) (ci_Name input))) (\<lambda>name.
       if length (ci_TagIDs input) + length (ci_TagNames input) > maxTagsPerMedia then fail too_many_tags
       else
         and_then (resolve_names X (ms_tagRepo s) ctx (ci_TagNames input)) (\<lambda>resolvedFromNames.
           let tagIDs = deduplicateUUIDs (ci_TagIDs input @ resolvedFromNames) in
           and_then (of_result (classifyContentType (ci_ContentType input) (ci_FileName input))) (\<lambda>(mediaType, ext).
           and_then (map_err (\<lambda>e. Errorf ''save file to storage: '' e '''')
                      (fs_Save (ms_storage s) ctx (ci_File input) ext)) (\<lambda>storedPath.
           insert_or_undo s ctx (new_media name mediaType storedPath input) tagIDs))))"

definition MediaService_GetByID :: "'w MediaService \<Rightarrow> Ctx \<Rightarrow> uuid \<Rightarrow> ('w, goerr, Media) op" where
  "MediaService_GetByID s ctx i = mr_GetByID (ms_repo s) ctx i"

definition maxFilterTags :: nat where "maxFilterTags = 50"

definition MediaService_List ::
  "Ext \<Rightarrow> 'w MediaService \<Rightarrow> Ctx \<Rightarrow> int \<Rightarrow> string \<Rightarrow> MediaFilter \<Rightarrow> ('w, goerr, Media list \<times> string) op" where
  "MediaService_List X s ctx limit cursor f =
     and_then (of_result (DecodeMediaCursor X cursor)) (\<lambda>c.
       if length (mf_TagIDs f) > maxFilterTags \<or> length (mf_TagNames f) > maxFilterTags
       then fail (Errorf '''' ErrValidation '': too many tag filters (max 50)'')
       else
         and_then (of_result (normalize_names X {} (mf_TagNames f))) (\<lambda>names.
         and_then (mr_List (ms_repo s) ctx (clamp_limit limit) c
                    \<lparr>mf_TagIDs = deduplicateUUIDs (mf_TagIDs f), mf_TagNames = names\<rparr>) (\<lambda>(media, next).
         ret (media, EncodeMediaCursor X next))))"

text \<open>The row first; the outcome of removing the file is only logged.\<close>

definition MediaService_Delete :: "'w MediaService \<Rightarrow> Ctx \<Rightarrow> uuid \<Rightarrow> ('w, goerr, unit) op" where
  "MediaService_Delete s ctx i =
     and_then (mr_Delete (ms_repo s) ctx i) (\<lambda>filePath.
       handle (fs_Delete (ms_storage s) ctx filePath) (\<lambda>_. ret ()) (\<lambda>_. ret ()))"

definition MediaService_FileURL :: "'w MediaService \<Rightarrow> string \<Rightarrow> string" where
  "MediaService_FileURL s filePath = fs_URL (ms_storage s) (ms_baseURL s) filePath"

definition MediaService_AttachTags ::
  "Ext \<Rightarrow> 'w MediaService \<Rightarrow> Ctx \<Rightarrow> uuid \<Rightarrow> uuid list \<Rightarrow> string list \<Rightarrow> ('w, goerr, Media) op" where
  "MediaService_AttachTags X s ctx mediaID tagIDs tagNames =
     (if length tagIDs + length tagNames > maxTagsPerMedia then fail too_many_tags
      else
        and_then (resolve_names X (ms_tagRepo s) ctx tagNames) (\<lambda>resolvedFromNames.
        and_then (mr_AttachTags (ms_repo s) ctx mediaID (deduplicateUUIDs (tagIDs @ resolvedFromNames)))
          (\<lambda>_. mr_GetByID (ms_repo s) ctx mediaID)))"

definition MediaService_DetachTag :: "'w MediaService \<Rightarrow> Ctx \<Rightarrow> uuid \<Rightarrow> uuid \<Rightarrow> ('w, goerr, unit) op" where
  "MediaService_DetachTag s ctx mediaID tagID = mr_DetachTag (ms_repo s) ctx mediaID tagID"

section \<open>The helpers\<close>

lemma dedup_loop_eq: "dedup_loop seen ids = rev (remdups (rev (filter (\<lambda>i. i \<notin> seen) ids)))"
proof (induction ids arbitrary: seen)
  case (Cons i ids)
  have "rev (remdups (xs @ [i])) = i # rev (remdups (filter (\<lambda>j. j \<noteq> i) xs))" for xs :: "uuid list"
    by (induction xs) auto
  moreover have "rev (filter (\<lambda>j. j \<notin> insert i seen) ids) = filter (\<lambda>j. j \<noteq> i) (rev (filter (\<lambda>j. j \<notin> seen) ids))"
    by (simp add: rev_filter conj_commute)
  ultimately show ?case using Cons by (simp add: filter_empty_conv)
qed simp

text \<open>First occurrences, in order.\<close>

lemma deduplicateUUIDs_eq: "deduplicateUUIDs ids = rev (remdups (rev ids))"
  by (simp add: deduplicateUUIDs_def dedup_loop_eq)

lemma deduplicateUUIDs_simps [simp]:
  "set (deduplicateUUIDs ids) = set ids" "distinct (deduplicateUUIDs ids)"
  by (simp_all add: deduplicateUUIDs_eq)

lemma deduplicateUUIDs_length: "length (deduplicateUUIDs ids) \<le> length ids"
  by (metis deduplicateUUIDs_eq length_remdups_leq length_rev)

lemma normalize_names_Inr:
  "normalize_names X seen names = Inr ns \<Longrightarrow>
    distinct ns \<and> set ns \<inter> seen = {} \<and> length ns \<le> length names
    \<and> set ns = {n. \<exists>name \<in> set names. SanitizeName (x_nfc X) name = Inr n} - seen
    \<and> (\<forall>name \<in> set names. \<exists>n. SanitizeName (x_nfc X) name = Inr n)"
proof (induction names arbitrary: seen ns)
  case (Cons name names)
  then obtain n where n: "SanitizeName (x_nfc X) name = Inr n" by (auto split: sum.splits)
  show ?case
  proof (cases "n \<in> seen")
    case True
    with Cons.prems n have "normalize_names X seen names = Inr ns" by simp
    from Cons.IH [OF this] True n show ?thesis by auto
  next
    case False
    with Cons.prems n obtain ms where ms: "normalize_names X (insert n seen) names = Inr ms" "ns = n # ms"
      by (auto split: sum.splits)
    from Cons.IH [OF ms(1)] ms(2) False n show ?thesis by auto
  qed
qed simp

lemma normalize_names_Inl: "normalize_names X seen names = Inl e \<Longrightarrow> errors_is e ErrValidation"
  by (induction names arbitrary: seen) (auto split: sum.splits if_splits intro: SanitizeName_error)

text \<open>A stored display name is one path element.\<close>

lemma sanitizeFilename_plain:
  "CHR 0x5C \<notin> set (sanitizeFilename n) \<and> (CHR ''/'' \<in> set (sanitizeFilename n) \<longrightarrow> sanitizeFilename n = ''/'')"
proof
  let ?r = "replace_byte (CHR 0x5C) (CHR ''/'') n"
  have "set (filepath_base ?r) \<subseteq> insert (CHR ''.'') (insert (CHR ''/'') (set ?r))"
    by (auto simp: filepath_base_def trim_right_def Let_def dest!: set_takeWhileD set_dropWhileD)
  moreover have "CHR 0x5C \<notin> set ?r" by (auto simp: replace_byte_def split: if_splits)
  ultimately show "CHR 0x5C \<notin> set (sanitizeFilename n)" unfolding sanitizeFilename_def by auto
  show "CHR ''/'' \<in> set (sanitizeFilename n) \<longrightarrow> sanitizeFilename n = ''/''"
    unfolding sanitizeFilename_def using filepath_base_no_slash by blast
qed

text \<open>The extensions are a fixed list, whatever the client sends.\<close>

lemma classify_Inr:
  assumes "classifyContentType ct fn = Inr (typ, ext)"
  shows "(typ = MediaTypeImage \<and> ext \<in> {''.jpg'', ''.png'', ''.gif'', ''.webp''})
    \<or> (typ = MediaTypeVideo \<and> ext \<in> {''.mp4'', ''.webm'', ''.mov'', ''.avi'', ''.mkv''})"
  using assms
  by (auto simp: classifyContentType_def allowedMIMETypes_def knownVideoExtensions_def has_prefix_def Let_def
      split: if_splits option.splits)

lemma classify_Inl: "classifyContentType ct fn = Inl e \<Longrightarrow> errors_is e ErrUnsupportedMediaType"
  by (auto simp: classifyContentType_def Let_def split: if_splits option.splits)

lemma resolve_names_keeps:
  "(\<And>n. keeps J (tr_CreateOrGet repo ctx n)) \<Longrightarrow> keeps J (resolve_names X repo ctx names)"
  by (induction names) (auto intro!: preserves)

end
