(* ===== verification/Go_Path.thy ===== *)
theory Go_Path
  imports Go_Lib
begin

text \<open>
  \<^verbatim>\<open>filepath.Clean\<close>, \<^verbatim>\<open>filepath.Join\<close> and \<^verbatim>\<open>filepath.Abs\<close> on Unix, and the
  paths on which they are the identity: non-empty segments other than one or two dots.
\<close>

fun strings_join :: "string \<Rightarrow> string list \<Rightarrow> string" where
  "strings_join sep [] = []"
| "strings_join sep [s] = s"
| "strings_join sep (s # ss) = s @ sep @ strings_join sep ss"

text \<open>One path element of \<^verbatim>\<open>Clean\<close>, on the elements kept so far.\<close>

definition clean_step :: "bool \<Rightarrow> string list \<Rightarrow> string \<Rightarrow> string list" where
  "clean_step rooted out s =
     (if s = [] \<or> s = ''.'' then out
      else if s = ''..'' then
        (if out \<noteq> [] \<and> last out \<noteq> ''..'' then butlast out
         else if rooted then out else out @ [''..''])
      else out @ [s])"

definition filepath_clean :: "string \<Rightarrow> string" where
  "filepath_clean p =
     (if p = [] then ''.''
      else let rooted = (hd p = CHR ''/'');
               out = foldl (clean_step rooted) [] (split_on (CHR ''/'') p);
               r = (if rooted then ''/'' else []) @ strings_join ''/'' out
           in if r = [] then ''.'' else r)"

definition filepath_join :: "string list \<Rightarrow> string" where
  "filepath_join elems =
     (case dropWhile (\<lambda>e. e = []) elems of
        [] \<Rightarrow> []
      | es \<Rightarrow> filepath_clean (strings_join ''/'' es))"

text \<open>\<^verbatim>\<open>filepath.Abs\<close>, given the working directory.\<close>

definition filepath_abs :: "string \<Rightarrow> string \<Rightarrow> string" where
  "filepath_abs cwd p =
     (if p \<noteq> [] \<and> hd p = CHR ''/'' then filepath_clean p else filepath_join [cwd, p])"

section \<open>Clean paths\<close>

definition good_seg :: "string \<Rightarrow> bool" where
  "good_seg s \<longleftrightarrow> s \<noteq> [] \<and> s \<noteq> ''.'' \<and> s \<noteq> ''..'' \<and> CHR ''/'' \<notin> set s"

lemma split_on_nonempty [simp]: "split_on c s \<noteq> []"
  by (induction s) (auto split: list.splits)

lemma split_on_no_sep: "c \<notin> set s \<Longrightarrow> split_on c s = [s]"
  by (induction s) auto

lemma split_on_append: "c \<notin> set s \<Longrightarrow> split_on c (s @ c # t) = s # split_on c t"
  by (induction s) auto

lemma split_on_join:
  "segs \<noteq> [] \<Longrightarrow> (\<And>s. s \<in> set segs \<Longrightarrow> c \<notin> set s) \<Longrightarrow> split_on c (strings_join [c] segs) = segs"
  by (induction "[c]" segs rule: strings_join.induct) (auto simp: split_on_no_sep split_on_append)

lemma join_inj:
  "strings_join [c] a = strings_join [c] b \<Longrightarrow> a \<noteq> [] \<Longrightarrow> b \<noteq> [] \<Longrightarrow>
    (\<And>s. s \<in> set a \<union> set b \<Longrightarrow> c \<notin> set s) \<Longrightarrow> a = b"
  by (metis UnCI split_on_join)

lemma join_append:
  "a \<noteq> [] \<Longrightarrow> b \<noteq> [] \<Longrightarrow> strings_join sep (a @ b) = strings_join sep a @ sep @ strings_join sep b"
  by (induction sep a rule: strings_join.induct) (auto simp: neq_Nil_conv)

lemma clean_step_good: "good_seg s \<Longrightarrow> clean_step rooted out s = out @ [s]"
  by (simp add: clean_step_def good_seg_def)

lemma foldl_clean_good: "list_all good_seg segs \<Longrightarrow> foldl (clean_step rooted) out segs = out @ segs"
  by (induction segs arbitrary: out) (simp_all add: clean_step_good)

lemma good_no_slash: "list_all good_seg segs \<Longrightarrow> s \<in> set segs \<Longrightarrow> CHR ''/'' \<notin> set s"
  by (auto simp: list_all_iff good_seg_def)

lemma join_nonempty: "list_all good_seg segs \<Longrightarrow> segs \<noteq> [] \<Longrightarrow> strings_join sep segs \<noteq> []"
  by (induction sep segs rule: strings_join.induct) (auto simp: good_seg_def)

lemma join_hd: "list_all good_seg segs \<Longrightarrow> segs \<noteq> [] \<Longrightarrow> hd (strings_join sep segs) \<noteq> CHR ''/''"
  by (induction sep segs rule: strings_join.induct) (auto simp: good_seg_def neq_Nil_conv hd_append)

text \<open>An absolute clean path, by its segments.\<close>

definition abs_path :: "string list \<Rightarrow> string" where
  "abs_path segs = CHR ''/'' # strings_join ''/'' segs"

lemma clean_rooted:
  "list_all good_seg segs \<Longrightarrow> filepath_clean (CHR ''/'' # strings_join ''/'' segs) = abs_path segs"
proof (cases "segs = []")
  case True
  then show ?thesis by (simp add: filepath_clean_def abs_path_def clean_step_def)
next
  case False
  assume g: "list_all good_seg segs"
  have "split_on (CHR ''/'') (CHR ''/'' # strings_join ''/'' segs) = [] # segs"
    using False g good_no_slash by (simp add: split_on_join)
  then show ?thesis using g
    by (simp add: filepath_clean_def abs_path_def foldl_clean_good clean_step_def)
qed

lemma clean_relative:
  assumes g: "list_all good_seg segs" and "segs \<noteq> []"
  shows "filepath_clean (strings_join ''/'' segs) = strings_join ''/'' segs"
proof -
  have "split_on (CHR ''/'') (strings_join ''/'' segs) = segs"
    using assms good_no_slash by (simp add: split_on_join)
  then show ?thesis using assms join_nonempty [OF assms] join_hd [OF assms]
    by (simp add: filepath_clean_def foldl_clean_good)
qed

lemma join_relative:
  assumes "list_all good_seg segs" "segs \<noteq> []"
  shows "filepath_join segs = strings_join ''/'' segs"
proof -
  have "hd segs \<noteq> []" using assms by (cases segs) (auto simp: good_seg_def)
  then have "dropWhile (\<lambda>e. e = []) segs = segs" using assms(2) by (cases segs) auto
  with assms show ?thesis by (cases segs) (simp_all add: filepath_join_def clean_relative)
qed

text \<open>A clean relative path below an absolute one.\<close>

lemma join_abs:
  assumes "list_all good_seg base" "list_all good_seg segs" "segs \<noteq> []"
  shows "filepath_join [abs_path base, strings_join ''/'' segs] = abs_path (base @ segs)"
proof (cases "base = []")
  case True
  have "foldl (clean_step True) [] (split_on (CHR ''/'') (''//'' @ strings_join ''/'' segs)) = segs"
    using assms good_no_slash by (simp add: split_on_join foldl_clean_good clean_step_def)
  then show ?thesis using True by (simp add: filepath_join_def abs_path_def filepath_clean_def)
next
  case False
  have "strings_join ''/'' [abs_path base, strings_join ''/'' segs] = CHR ''/'' # strings_join ''/'' (base @ segs)"
    using False assms(3) by (simp add: abs_path_def join_append)
  then show ?thesis using assms clean_rooted [of "base @ segs"]
    by (simp add: filepath_join_def abs_path_def)
qed

lemma abs_path_inj:
  "list_all good_seg a \<Longrightarrow> list_all good_seg b \<Longrightarrow> abs_path a = abs_path b \<Longrightarrow> a = b"
proof -
  assume a: "list_all good_seg a" and b: "list_all good_seg b" and "abs_path a = abs_path b"
  then have eq: "strings_join ''/'' a = strings_join ''/'' b" by (simp add: abs_path_def)
  then have "a = [] \<longleftrightarrow> b = []" using join_nonempty [OF a, of "''/''"] join_nonempty [OF b, of "''/''"] by (cases a; cases b) auto
  moreover have "a = b" if "a \<noteq> []" "b \<noteq> []"
    using join_inj [OF eq that] good_no_slash [OF a] good_no_slash [OF b] by blast
  ultimately show ?thesis by blast
qed

end
