(* ===== verification/Storage.thy ===== *)
theory Storage
  imports World Go_Path
begin

text \<open>
  The two file stores: \<^verbatim>\<open>storage/local/local_storage.go\<close>, files below a base directory in a
  tree of directories named by the tenant and three characters of a random id, and
  \<^verbatim>\<open>storage/s3/s3_storage.go\<close>, objects of a bucket.  Directories are not part of the model:
  creating one is a call that may fail.
\<close>

section \<open>System calls\<close>

text \<open>A call with an effect on the world, which may fail before or after it took effect.\<close>

definition os_call :: "(World \<Rightarrow> World) \<Rightarrow> (World, goerr, unit) op" where
  "os_call eff w =
     (case next_call OtherCall w of
        (NoFault, w') \<Rightarrow> (Inr (), eff w')
      | (Fault msg, w') \<Rightarrow> (Inl (Opaque msg), w')
      | (FaultAfter msg, w') \<Rightarrow> (Inl (Opaque msg), eff w'))"

definition write_file :: "string \<Rightarrow> string \<Rightarrow> World \<Rightarrow> World" where
  "write_file p content w = w\<lparr>w_disk := (w_disk w)(p \<mapsto> content)\<rparr>"

definition remove_file :: "string \<Rightarrow> World \<Rightarrow> World" where
  "remove_file p w = w\<lparr>w_disk := (w_disk w)(p := None)\<rparr>"

definition byte_at :: "string \<Rightarrow> nat \<Rightarrow> string" where
  "byte_at s i = (if i < length s then [s ! i] else [])"

section \<open>Local files\<close>

record LocalStorage =
  ls_basePath :: string

definition Local_NewStorage :: "string \<Rightarrow> string \<Rightarrow> (World, goerr, LocalStorage) op" where
  "Local_NewStorage cwd basePath =
     (let absPath = filepath_abs cwd basePath in
      and_then (map_err (\<lambda>e. Errorf ''create upload directory: '' e '''') (os_call id))
        (\<lambda>_. ret \<lparr>ls_basePath = absPath\<rparr>))"

definition shard_dir :: "Ext \<Rightarrow> uuid \<Rightarrow> string \<Rightarrow> string" where
  "shard_dir X tenantID i = filepath_join [x_uuid_string X tenantID, byte_at i 0, byte_at i 1, byte_at i 2]"

text \<open>
  After \<^verbatim>\<open>os.Create\<close> the deferred function runs: it removes the file when the copy or the
  sync failed, and ignores the outcome of that.
\<close>

definition cleanup_on_error :: "string \<Rightarrow> (World, goerr, 'a) op \<Rightarrow> (World, goerr, 'a) op" where
  "cleanup_on_error fullPath f w =
     (case f w of
        (Inl e, w') \<Rightarrow> (Inl e, snd (os_call (remove_file fullPath) w'))
      | (Inr x, w') \<Rightarrow> (Inr x, w'))"

definition Local_Save :: "Ext \<Rightarrow> LocalStorage \<Rightarrow> Ctx \<Rightarrow> string \<Rightarrow> string \<Rightarrow> (World, goerr, string) op" where
  "Local_Save X s ctx content ext =
     and_then (of_result (TenantIDFromContext ctx)) (\<lambda>tenantID.
     and_then uuid_New (\<lambda>u.
       let i = x_uuid_string X u;
           dirPath = shard_dir X tenantID i;
           fileName = i @ ext;
           relativePath = filepath_join [dirPath, fileName];
           fullPath = filepath_join [ls_basePath s, relativePath]
       in
       and_then (map_err (\<lambda>e. Errorf (''create shard directory '' @ dirPath @ '': '') e '''') (os_call id)) (\<lambda>_.
       and_then (map_err (\<lambda>e. Errorf (''create file '' @ relativePath @ '': '') e '''')
                  (os_call (write_file fullPath ''''))) (\<lambda>_.
       cleanup_on_error fullPath (
         and_then (map_err (\<lambda>e. Errorf (''write file '' @ relativePath @ '': '') e '''')
                    (os_call (write_file fullPath content))) (\<lambda>_.
         and_then (map_err (\<lambda>e. Errorf (''sync file '' @ relativePath @ '': '') e '''') (os_call id)) (\<lambda>_.
         ret relativePath)))))))"

text \<open>\<^verbatim>\<open>os.Remove\<close>; that there is no such file is not an error of \<^verbatim>\<open>Delete\<close>.\<close>

definition Local_Delete :: "LocalStorage \<Rightarrow> Ctx \<Rightarrow> string \<Rightarrow> (World, goerr, unit) op" where
  "Local_Delete s ctx path =
     (let fullPath = filepath_join [ls_basePath s, path] in
      map_err (\<lambda>e. Errorf (''delete file '' @ path @ '': '') e '''') (os_call (remove_file fullPath)))"

definition Local_URL :: "string \<Rightarrow> string \<Rightarrow> string" where
  "Local_URL baseURL path = baseURL @ ''/uploads/'' @ path"

definition Local_URLWithExpiry :: "Ctx \<Rightarrow> string \<Rightarrow> string \<Rightarrow> time \<Rightarrow> (World, goerr, string) op" where
  "Local_URLWithExpiry ctx baseURL path ttl = ret (Local_URL baseURL path)"

definition LocalFileStorage :: "Ext \<Rightarrow> LocalStorage \<Rightarrow> World FileStorage" where
  "LocalFileStorage X s =
     \<lparr>fs_Save = Local_Save X s, fs_Delete = Local_Delete s, fs_URL = Local_URL,
      fs_URLWithExpiry = Local_URLWithExpiry\<rparr>"

section \<open>S3 objects\<close>

record S3Config =
  s3_Bucket :: string
  s3_Region :: string
  s3_Endpoint :: string
  s3_AccessKey :: string
  s3_SecretKey :: string
  s3_Prefix :: string
  s3_CDNURL :: string

text \<open>The settings of the SDK's client that the constructor decides.\<close>

record S3Client =
  cl_region :: string
  cl_static :: "(string \<times> string) option"
  cl_endpoint :: "string option"
  cl_pathStyle :: bool

record S3Storage =
  st_client :: S3Client
  st_bucket :: string
  st_prefix :: string
  st_cdnURL :: string

definition S3_NewStorage :: "S3Config \<Rightarrow> (World, goerr, S3Storage) op" where
  "S3_NewStorage cfg =
     (if s3_Bucket cfg = [] then fail (Opaque ''S3 bucket name is required'')
      else if s3_Region cfg = [] then fail (Opaque ''S3 region is required'')
      else and_then (map_err (\<lambda>e. Errorf ''load AWS config: '' e '''') (os_call id))
        (\<lambda>_. ret \<lparr>st_client = \<lparr>cl_region = s3_Region cfg,
                   cl_static = (if s3_AccessKey cfg \<noteq> [] \<and> s3_SecretKey cfg \<noteq> []
                                then Some (s3_AccessKey cfg, s3_SecretKey cfg) else None),
                   cl_endpoint = (if s3_Endpoint cfg \<noteq> [] then Some (s3_Endpoint cfg) else None),
                   cl_pathStyle = (s3_Endpoint cfg \<noteq> [])\<rparr>,
                 st_bucket = s3_Bucket cfg, st_prefix = s3_Prefix cfg, st_cdnURL = s3_CDNURL cfg\<rparr>))"

definition put_object :: "string \<Rightarrow> string \<Rightarrow> World \<Rightarrow> World" where
  "put_object k content w = w\<lparr>w_objects := (w_objects w)(k \<mapsto> content)\<rparr>"

definition delete_object :: "string \<Rightarrow> World \<Rightarrow> World" where
  "delete_object k w = w\<lparr>w_objects := (w_objects w)(k := None)\<rparr>"

definition S3_Save :: "Ext \<Rightarrow> S3Storage \<Rightarrow> Ctx \<Rightarrow> string \<Rightarrow> string \<Rightarrow> (World, goerr, string) op" where
  "S3_Save X s ctx content ext =
     and_then (of_result (TenantIDFromContext ctx)) (\<lambda>tenantID.
     and_then uuid_New (\<lambda>u.
       let key = st_prefix s @ x_uuid_string X tenantID @ ''/'' @ x_uuid_string X u @ ext in
       and_then (map_err (\<lambda>e. Errorf (''upload to S3 (key='' @ key @ ''): '') e '''')
                  (os_call (put_object key content))) (\<lambda>_. ret key)))"

definition S3_Delete :: "S3Storage \<Rightarrow> Ctx \<Rightarrow> string \<Rightarrow> (World, goerr, unit) op" where
  "S3_Delete s ctx path =
     map_err (\<lambda>e. Errorf (''delete from S3 (key='' @ path @ ''): '') e '''') (os_call (delete_object path))"

definition S3_URL :: "S3Storage \<Rightarrow> string \<Rightarrow> string \<Rightarrow> string" where
  "S3_URL s baseURL path =
     (if st_cdnURL s \<noteq> [] then st_cdnURL s @ ''/'' @ path
      else ''https://'' @ st_bucket s @ ''.s3.amazonaws.com/'' @ path)"

text \<open>\<open>presign\<close>: the SDK's signature of a GET request for a bucket, a key and a time to live.\<close>

definition S3_URLWithExpiry ::
  "(string \<Rightarrow> string \<Rightarrow> time \<Rightarrow> goerr + string) \<Rightarrow> S3Storage \<Rightarrow> Ctx \<Rightarrow> string \<Rightarrow> string \<Rightarrow> time \<Rightarrow>
    (World, goerr, string) op" where
  "S3_URLWithExpiry presign s ctx baseURL path ttl =
     map_err (\<lambda>e. Errorf (''presign GetObject (key='' @ path @ ''): '') e '''')
       (of_result (presign (st_bucket s) path ttl))"

definition S3FileStorage ::
  "Ext \<Rightarrow> (string \<Rightarrow> string \<Rightarrow> time \<Rightarrow> goerr + string) \<Rightarrow> S3Storage \<Rightarrow> World FileStorage" where
  "S3FileStorage X presign s =
     \<lparr>fs_Save = S3_Save X s, fs_Delete = S3_Delete s, fs_URL = S3_URL s,
      fs_URLWithExpiry = S3_URLWithExpiry presign s\<rparr>"

section \<open>What the calls touch\<close>

text \<open>\<open>file_only p w w'\<close>: nothing but the file \<open>p\<close> and the counter of calls differs.\<close>

definition file_only :: "string \<Rightarrow> World \<Rightarrow> World \<Rightarrow> bool" where
  "file_only p w w' \<longleftrightarrow> w' = w\<lparr>w_disk := w_disk w', w_calls := w_calls w'\<rparr> \<and> (\<forall>q. q \<noteq> p \<longrightarrow> w_disk w' q = w_disk w q)"

definition file_op :: "string \<Rightarrow> (World, goerr, 'a) op \<Rightarrow> bool" where
  "file_op p f \<longleftrightarrow> (\<forall>w. file_only p w (snd (f w)))"

lemma file_only_iff:
  "file_only p w w' \<longleftrightarrow>
     w_db w' = w_db w \<and> w_objects w' = w_objects w \<and> w_clock w' = w_clock w \<and> w_uuids w' = w_uuids w
   \<and> w_drawn w' = w_drawn w \<and> w_faults w' = w_faults w \<and> w_bypass_rls w' = w_bypass_rls w
   \<and> (\<forall>q. q \<noteq> p \<longrightarrow> w_disk w' q = w_disk w q)"
  by (cases w; cases w') (auto simp: file_only_def)

lemma file_only_refl [simp]: "file_only p w w"
  by (simp add: file_only_iff)

lemma file_only_trans: "file_only p w w' \<Longrightarrow> file_only p w' w'' \<Longrightarrow> file_only p w w''"
  by (simp add: file_only_iff)

lemma file_opD: "file_op p f \<Longrightarrow> f w = (r, w') \<Longrightarrow> file_only p w w'"
  by (metis file_op_def snd_conv)

lemma file_op_write [frame]: "file_op p (os_call (write_file p c))"
  by (auto simp: file_op_def os_call_def next_call_def write_file_def file_only_iff split: fault.splits)

lemma file_op_remove [frame]: "file_op p (os_call (remove_file p))"
  by (auto simp: file_op_def os_call_def next_call_def remove_file_def file_only_iff split: fault.splits)

lemma file_op_id [frame]: "file_op p (os_call id)"
  by (auto simp: file_op_def os_call_def next_call_def file_only_iff split: fault.splits)

lemma file_op_ret [frame]: "file_op p (ret x)"
  by (simp add: file_op_def ret_def)

lemma file_op_map_err [frame]: "file_op p f \<Longrightarrow> file_op p (map_err h f)"
proof -
  have "snd (map_err h f w) = snd (f w)" for w by (simp add: map_err_def split: prod.splits sum.splits)
  then show "file_op p f \<Longrightarrow> file_op p (map_err h f)" by (simp add: file_op_def)
qed

lemma file_op_and_then [frame]: "file_op p f \<Longrightarrow> (\<And>x. file_op p (g x)) \<Longrightarrow> file_op p (and_then f g)"
  unfolding file_op_def and_then_def by (force intro: file_only_trans split: prod.splits sum.splits)

lemma file_op_cleanup [frame]: "file_op p f \<Longrightarrow> file_op p (cleanup_on_error p f)"
  unfolding file_op_def cleanup_on_error_def
  using file_op_remove [of p, unfolded file_op_def] by (force intro: file_only_trans split: prod.splits sum.splits)

lemma cleanup_Inr: "cleanup_on_error p f w = (Inr x, w') \<longleftrightarrow> f w = (Inr x, w')"
  by (auto simp: cleanup_on_error_def split: prod.splits sum.splits)

lemma os_call_Inr: "os_call eff w = (Inr (), w') \<Longrightarrow> w' = eff (w\<lparr>w_calls := Suc (w_calls w)\<rparr>)"
  by (auto simp: os_call_def next_call_def split: fault.splits)

section \<open>The paths of local files\<close>

definition local_segs :: "Ext \<Rightarrow> uuid \<Rightarrow> uuid \<Rightarrow> string \<Rightarrow> string list" where
  "local_segs X t u e =
     (let i = x_uuid_string X u in [x_uuid_string X t, [i ! 0], [i ! 1], [i ! 2], i @ e])"

definition local_path :: "Ext \<Rightarrow> uuid \<Rightarrow> uuid \<Rightarrow> string \<Rightarrow> string" where
  "local_path X t u e = strings_join ''/'' (local_segs X t u e)"

definition plain_ext :: "string \<Rightarrow> bool" where
  "plain_ext e \<longleftrightarrow> CHR ''/'' \<notin> set e"

lemma uuid_char:
  "uuid_string_spec f \<Longrightarrow> n < 36 \<Longrightarrow> f u ! n \<noteq> CHR ''/'' \<and> f u ! n \<noteq> CHR ''.''"
  unfolding uuid_string_spec_def by (metis nth_mem)

lemma good_long: "36 \<le> length s \<Longrightarrow> CHR ''/'' \<notin> set s \<Longrightarrow> good_seg s"
proof -
  assume l: "36 \<le> length s" and "CHR ''/'' \<notin> set s"
  moreover have "s \<noteq> r" if "length r < 36" for r using l that by auto
  ultimately show ?thesis by (simp add: good_seg_def)
qed

lemma good_uuid: "uuid_string_spec f \<Longrightarrow> good_seg (f u)"
  by (rule good_long) (simp_all add: uuid_string_spec_def)

lemma good_local_segs:
  assumes "uuid_string_spec (x_uuid_string X)" "plain_ext e"
  shows "list_all good_seg (local_segs X t u e)"
proof -
  let ?i = "x_uuid_string X u"
  have "good_seg [?i ! n]" if "n < 36" for n
    using uuid_char [OF assms(1) that, of u] by (auto simp: good_seg_def)
  moreover have "good_seg (?i @ e)"
    using assms by (intro good_long) (simp_all add: uuid_string_spec_def plain_ext_def)
  ultimately show ?thesis using good_uuid [OF assms(1)] by (simp add: local_segs_def Let_def)
qed

lemma join_good_inj:
  assumes "strings_join ''/'' a = strings_join ''/'' b" "list_all good_seg a" "list_all good_seg b" "a \<noteq> []" "b \<noteq> []"
  shows "a = b"
  using join_inj [OF assms(1,4,5)] good_no_slash [OF assms(2)] good_no_slash [OF assms(3)] by blast

text \<open>The two joins of \<^verbatim>\<open>Save\<close> give the clean relative path.\<close>

lemma local_path_joins:
  assumes "uuid_string_spec (x_uuid_string X)" "plain_ext e"
  shows "filepath_join [shard_dir X t (x_uuid_string X u), x_uuid_string X u @ e] = local_path X t u e"
proof -
  let ?i = "x_uuid_string X u" and ?d = "[x_uuid_string X t, [x_uuid_string X u ! 0], [x_uuid_string X u ! 1], [x_uuid_string X u ! 2]]"
  have len: "length ?i = 36" using assms(1) by (simp add: uuid_string_spec_def)
  have segs: "local_segs X t u e = ?d @ [?i @ e]" by (simp add: local_segs_def Let_def)
  have good: "list_all good_seg (?d @ [?i @ e])" using good_local_segs [OF assms] segs by metis
  then have d: "list_all good_seg ?d" by simp
  have shard: "shard_dir X t ?i = strings_join ''/'' ?d"
    using join_relative [OF d] len by (simp add: shard_dir_def byte_at_def)
  have "strings_join ''/'' [shard_dir X t ?i, ?i @ e] = strings_join ''/'' (?d @ [?i @ e])"
    unfolding shard by (subst join_append) simp_all
  moreover have "shard_dir X t ?i \<noteq> []" unfolding shard using join_nonempty [OF d] by blast
  ultimately show ?thesis
    using clean_relative [OF good] unfolding local_path_def segs by (simp add: filepath_join_def)
qed

definition rel_path :: "string \<Rightarrow> bool" where
  "rel_path p \<longleftrightarrow> (\<exists>segs. segs \<noteq> [] \<and> list_all good_seg segs \<and> p = strings_join ''/'' segs)"

lemma rel_path_local: "uuid_string_spec (x_uuid_string X) \<Longrightarrow> plain_ext e \<Longrightarrow> rel_path (local_path X t u e)"
  unfolding rel_path_def local_path_def using good_local_segs
  by (intro exI [of _ "local_segs X t u e"]) (simp add: local_segs_def Let_def)

definition base_ok :: "LocalStorage \<Rightarrow> bool" where
  "base_ok s \<longleftrightarrow> (\<exists>segs. list_all good_seg segs \<and> ls_basePath s = abs_path segs)"

lemma full_path_inj:
  assumes "base_ok s" "rel_path p" "rel_path q" "filepath_join [ls_basePath s, p] = filepath_join [ls_basePath s, q]"
  shows "p = q"
proof -
  obtain b where b: "list_all good_seg b" "ls_basePath s = abs_path b" using assms(1) by (auto simp: base_ok_def)
  obtain ps qs where p: "ps \<noteq> []" "list_all good_seg ps" "p = strings_join ''/'' ps"
    and q: "qs \<noteq> []" "list_all good_seg qs" "q = strings_join ''/'' qs"
    using assms(2,3) by (auto simp: rel_path_def)
  have "abs_path (b @ ps) = abs_path (b @ qs)" using assms(4) b p q by (simp add: join_abs)
  then have "b @ ps = b @ qs" using b p q by (intro abs_path_inj) simp_all
  with p q show ?thesis by simp
qed

text \<open>Different random ids, different files, whatever the tenants and extensions.\<close>

lemma local_path_uuid:
  assumes X: "uuid_string_spec (x_uuid_string X)" and e: "plain_ext e" "plain_ext e'"
    and eq: "local_path X t u e = local_path X t' u' e'"
  shows "u = u'"
proof -
  have "local_segs X t u e = local_segs X t' u' e'"
    using eq unfolding local_path_def
    by (rule join_good_inj [OF _ good_local_segs [OF X e(1)] good_local_segs [OF X e(2)]])
      (simp_all add: local_segs_def Let_def)
  then have "x_uuid_string X u @ e = x_uuid_string X u' @ e'" by (simp add: local_segs_def Let_def)
  moreover have "length (x_uuid_string X u) = length (x_uuid_string X u')" using X by (simp add: uuid_string_spec_def)
  ultimately have "x_uuid_string X u = x_uuid_string X u'" by simp
  with X show ?thesis by (auto simp: uuid_string_spec_def dest: injD)
qed

section \<open>Saving and deleting local files\<close>

definition save_calls :: "string \<Rightarrow> string \<Rightarrow> string \<Rightarrow> string \<Rightarrow> (World, goerr, string) op" where
  "save_calls dirPath relativePath fullPath content =
     and_then (map_err (\<lambda>e. Errorf (''create shard directory '' @ dirPath @ '': '') e '''') (os_call id)) (\<lambda>_.
     and_then (map_err (\<lambda>e. Errorf (''create file '' @ relativePath @ '': '') e '''')
                (os_call (write_file fullPath ''''))) (\<lambda>_.
     cleanup_on_error fullPath (
       and_then (map_err (\<lambda>e. Errorf (''write file '' @ relativePath @ '': '') e '''')
                  (os_call (write_file fullPath content))) (\<lambda>_.
       and_then (map_err (\<lambda>e. Errorf (''sync file '' @ relativePath @ '': '') e '''') (os_call id)) (\<lambda>_.
       ret relativePath)))))"

lemma file_op_save_calls [frame]: "file_op full (save_calls d r full c)"
  unfolding save_calls_def by (intro frame)

lemma save_calls_Inr:
  assumes "save_calls d r full c w = (Inr p, w')"
  shows "p = r \<and> w_disk w' = (w_disk w)(full \<mapsto> c)"
  using assms
  by (auto simp: save_calls_def and_then_Inr cleanup_Inr write_file_def dest!: os_call_Inr)

definition full_path :: "LocalStorage \<Rightarrow> string \<Rightarrow> string" where
  "full_path s p = filepath_join [ls_basePath s, p]"

lemma Local_Save_eq:
  assumes "uuid_string_spec (x_uuid_string X)" "plain_ext e" "TenantIDFromContext ctx = Inr t"
  shows "\<exists>d. Local_Save X s ctx c e w
    = save_calls d (local_path X t (w_uuids w (w_drawn w)) e)
        (full_path s (local_path X t (w_uuids w (w_drawn w)) e)) c (w\<lparr>w_drawn := Suc (w_drawn w)\<rparr>)"
  using assms(3) local_path_joins [OF assms(1,2)]
  by (auto simp: Local_Save_def and_then_def of_result_def uuid_New_def draw_uuid_def Let_def save_calls_def full_path_def)

text \<open>
  The first \<open>N\<close> random ids of a run are distinct, and \<open>in_supply\<close>: no more than these were drawn.
  No file has the name of an id that is still to be drawn.
\<close>

definition fresh_ids :: "nat \<Rightarrow> World \<Rightarrow> bool" where
  "fresh_ids N w \<longleftrightarrow> inj_on (w_uuids w) {..<N}"

definition in_supply :: "nat \<Rightarrow> World \<Rightarrow> bool" where
  "in_supply N w \<longleftrightarrow> w_drawn w \<le> N"

lemma fresh_ids_neq: "fresh_ids N w \<Longrightarrow> m < n \<Longrightarrow> n < N \<Longrightarrow> w_uuids w n \<noteq> w_uuids w m"
  unfolding fresh_ids_def inj_on_def by (metis lessThan_iff less_irrefl_nat order_less_trans)

lemma in_supply_db_only: "db_only w w' \<Longrightarrow> in_supply N w' \<Longrightarrow> in_supply N w"
  by (simp add: in_supply_def db_only_iff)

definition local_inv :: "nat \<Rightarrow> Ext \<Rightarrow> LocalStorage \<Rightarrow> World \<Rightarrow> bool" where
  "local_inv N X s w \<longleftrightarrow> fresh_ids N w \<and>
     (\<forall>n \<ge> w_drawn w. n < N \<longrightarrow> (\<forall>t e. plain_ext e \<longrightarrow> w_disk w (full_path s (local_path X t (w_uuids w n) e)) = None))"

text \<open>The files by their relative paths.\<close>

definition local_files :: "LocalStorage \<Rightarrow> World \<Rightarrow> string \<rightharpoonup> string" where
  "local_files s w p = (if rel_path p then w_disk w (full_path s p) else None)"

lemma local_inv_db_only: "db_only w w' \<Longrightarrow> local_inv N X s w \<Longrightarrow> local_inv N X s w'"
  by (auto simp: local_inv_def fresh_ids_def db_only_iff)

lemma local_files_db_only: "db_only w w' \<Longrightarrow> local_files s w' = local_files s w"
  by (simp add: local_files_def db_only_iff fun_eq_iff)

lemma local_files_upd:
  assumes s: "base_ok s" and p: "rel_path p" and "w_disk w' = (w_disk w)(full_path s p := v)"
  shows "local_files s w' = (local_files s w)(p := v)"
proof
  fix q
  show "local_files s w' q = ((local_files s w)(p := v)) q"
    using assms full_path_inj [OF s _ p, of q] by (auto simp: local_files_def full_path_def)
qed

lemma local_fresh:
  assumes "uuid_string_spec (x_uuid_string X)" "plain_ext e" "local_inv N X s w" "w_drawn w < N"
  shows "local_files s w (local_path X t (w_uuids w (w_drawn w)) e) = None"
  using assms by (simp add: local_files_def local_inv_def)

lemma local_save_keeps:
  assumes X: "uuid_string_spec (x_uuid_string X)" and s: "base_ok s" and e: "plain_ext e"
  shows "keeps (local_inv N X s) (Local_Save X s ctx c e)"
proof (rule keepsI)
  fix w r w' assume w: "local_inv N X s w" and r: "Local_Save X s ctx c e w = (r, w')"
  show "local_inv N X s w'"
  proof (cases "TenantIDFromContext ctx")
    case (Inl x)
    with r w show ?thesis by (simp add: Local_Save_def and_then_def of_result_def)
  next
    case (Inr t)
    let ?u = "w_uuids w (w_drawn w)" and ?p = "local_path X t (w_uuids w (w_drawn w)) e"
    obtain d where "save_calls d ?p (full_path s ?p) c (w\<lparr>w_drawn := Suc (w_drawn w)\<rparr>) = (r, w')"
      using Local_Save_eq [OF X e Inr] r by metis
    then have f: "file_only (full_path s ?p) (w\<lparr>w_drawn := Suc (w_drawn w)\<rparr>) w'"
      using file_opD file_op_save_calls by blast
    then have same: "w_uuids w' = w_uuids w" "w_drawn w' = Suc (w_drawn w)"
      "\<And>q. q \<noteq> full_path s ?p \<Longrightarrow> w_disk w' q = w_disk w q" by (simp_all add: file_only_iff)
    have "w_disk w' (full_path s (local_path X t' (w_uuids w n) e')) = None"
      if n: "Suc (w_drawn w) \<le> n" "n < N" and e': "plain_ext e'" for n t' e'
    proof -
      have "w_uuids w n \<noteq> ?u" using w n by (intro fresh_ids_neq) (auto simp: local_inv_def)
      then have "local_path X t' (w_uuids w n) e' \<noteq> ?p" using local_path_uuid [OF X e' e] by blast
      then have "full_path s (local_path X t' (w_uuids w n) e') \<noteq> full_path s ?p"
        using full_path_inj [OF s] rel_path_local [OF X] e e' unfolding full_path_def by blast
      then show ?thesis using same(3) w n e' by (auto simp: local_inv_def)
    qed
    with w same show ?thesis by (auto simp: local_inv_def fresh_ids_def)
  qed
qed

lemma Local_Save_Inr:
  assumes X: "uuid_string_spec (x_uuid_string X)" and s: "base_ok s" and e: "plain_ext e"
    and w: "local_inv N X s w" and r: "Local_Save X s ctx c e w = (Inr p, w')" and N: "in_supply N w'"
  shows "rel_path p \<and> local_files s w p = None \<and> local_files s w' = (local_files s w)(p \<mapsto> c)"
proof (cases "TenantIDFromContext ctx")
  case (Inl x)
  with r show ?thesis by (simp add: Local_Save_def and_then_def of_result_def)
next
  case (Inr t)
  let ?p = "local_path X t (w_uuids w (w_drawn w)) e"
  obtain d where run: "save_calls d ?p (full_path s ?p) c (w\<lparr>w_drawn := Suc (w_drawn w)\<rparr>) = (Inr p, w')"
    using Local_Save_eq [OF X e Inr] r by metis
  have "w_drawn w < N" using file_opD [OF file_op_save_calls run] N by (simp add: file_only_iff in_supply_def)
  from local_fresh [OF X e w this] save_calls_Inr [OF run] have p: "p = ?p" "w_disk w' = (w_disk w)(full_path s p \<mapsto> c)"
    "local_files s w (local_path X t (w_uuids w (w_drawn w)) e) = None" for t by simp_all
  with rel_path_local [OF X e] local_files_upd [OF s _ p(2)] show ?thesis by simp
qed

lemma Local_Save_Inl:
  assumes X: "uuid_string_spec (x_uuid_string X)" and s: "base_ok s" and e: "plain_ext e"
    and w: "local_inv N X s w" and r: "Local_Save X s ctx c e w = (Inl x, w')" and N: "in_supply N w'"
  shows "local_files s w' = local_files s w \<or> (\<exists>p. local_files s w p = None \<and> (local_files s w')(p := None) = local_files s w)"
proof (cases "TenantIDFromContext ctx")
  case (Inl y)
  with r have "w' = w" by (simp add: Local_Save_def and_then_def of_result_def)
  then show ?thesis by simp
next
  case (Inr t)
  let ?p = "local_path X t (w_uuids w (w_drawn w)) e"
  obtain d where "save_calls d ?p (full_path s ?p) c (w\<lparr>w_drawn := Suc (w_drawn w)\<rparr>) = (Inl x, w')"
    using Local_Save_eq [OF X e Inr] r by metis
  then have f: "file_only (full_path s ?p) (w\<lparr>w_drawn := Suc (w_drawn w)\<rparr>) w'"
    using file_opD file_op_save_calls by blast
  have d: "w_drawn w < N" using f N by (simp add: file_only_iff in_supply_def)
  from f have "w_disk w' = (w_disk w)(full_path s ?p := w_disk w' (full_path s ?p))"
    by (auto simp: file_only_iff fun_eq_iff)
  from local_files_upd [OF s rel_path_local [OF X e] this] local_fresh [OF X e w d]
  show ?thesis by (intro disjI2 exI [of _ ?p]) (simp add: fun_upd_idem)
qed

lemma Local_Delete_eq:
  "Local_Delete s ctx p = map_err (\<lambda>e. Errorf (''delete file '' @ p @ '': '') e '''') (os_call (remove_file (full_path s p)))"
  by (simp add: Local_Delete_def full_path_def Let_def)

lemma Local_Delete_disk:
  "Local_Delete s ctx p w = (r, w') \<Longrightarrow>
    file_only (full_path s p) w w' \<and> (w_disk w' = (w_disk w)(full_path s p := None) \<or> w_disk w' = w_disk w \<and> r \<noteq> Inr ())"
  by (auto simp: Local_Delete_eq map_err_def os_call_def next_call_def remove_file_def file_only_iff
      split: fault.splits)

lemma local_delete_keeps: "keeps (local_inv N X s) (Local_Delete s ctx p)"
proof (rule keepsI)
  fix w r w' assume w: "local_inv N X s w" and "Local_Delete s ctx p w = (r, w')"
  from Local_Delete_disk [OF this(2)] w show "local_inv N X s w'"
    by (auto simp: local_inv_def fresh_ids_def file_only_iff)
qed

text \<open>Neither operation touches the tables, the objects or the clock.\<close>

definition files_op :: "(World, goerr, 'a) op \<Rightarrow> bool" where
  "files_op f \<longleftrightarrow> (\<forall>w. let w' = snd (f w) in w_db w' = w_db w \<and> w_clock w' = w_clock w \<and> w_faults w' = w_faults w
     \<and> w_uuids w' = w_uuids w \<and> w_bypass_rls w' = w_bypass_rls w \<and> w_drawn w \<le> w_drawn w')"

lemma files_opD:
  "files_op f \<Longrightarrow> f w = (r, w') \<Longrightarrow> w_db w' = w_db w \<and> w_clock w' = w_clock w \<and> w_faults w' = w_faults w
    \<and> w_uuids w' = w_uuids w \<and> w_bypass_rls w' = w_bypass_rls w \<and> w_drawn w \<le> w_drawn w'"
  by (metis (no_types, lifting) files_op_def snd_conv)

lemma Local_Save_calls:
  "TenantIDFromContext ctx = Inr t \<Longrightarrow>
    \<exists>d r. Local_Save X s ctx c e w = save_calls d r (full_path s r) c (w\<lparr>w_drawn := Suc (w_drawn w)\<rparr>)"
  by (auto simp: Local_Save_def and_then_def of_result_def uuid_New_def draw_uuid_def Let_def save_calls_def full_path_def)

lemma files_op_local:
  "files_op (Local_Save X s ctx c e)" "files_op (Local_Delete s ctx p)"
proof -
  show "files_op (Local_Save X s ctx c e)"
    unfolding files_op_def
  proof
    fix w
    show "let w' = snd (Local_Save X s ctx c e w) in w_db w' = w_db w \<and> w_clock w' = w_clock w \<and> w_faults w' = w_faults w
     \<and> w_uuids w' = w_uuids w \<and> w_bypass_rls w' = w_bypass_rls w \<and> w_drawn w \<le> w_drawn w'"
    proof (cases "TenantIDFromContext ctx")
      case (Inl x)
      then show ?thesis by (simp add: Local_Save_def and_then_def of_result_def)
    next
      case (Inr t)
      obtain d r where "Local_Save X s ctx c e w = save_calls d r (full_path s r) c (w\<lparr>w_drawn := Suc (w_drawn w)\<rparr>)"
        using Local_Save_calls [OF Inr] by blast
      moreover have "file_only (full_path s r) (w\<lparr>w_drawn := Suc (w_drawn w)\<rparr>)
          (snd (save_calls d r (full_path s r) c (w\<lparr>w_drawn := Suc (w_drawn w)\<rparr>)))"
        using file_op_save_calls unfolding file_op_def by blast
      ultimately show ?thesis by (simp add: Let_def file_only_iff)
    qed
  qed
  have "file_op (full_path s p) (Local_Delete s ctx p)"
    unfolding Local_Delete_eq by (intro frame)
  then show "files_op (Local_Delete s ctx p)"
    by (simp add: files_op_def file_op_def file_only_iff Let_def)
qed

definition local_ready :: "nat \<Rightarrow> Ext \<Rightarrow> LocalStorage \<Rightarrow> World \<Rightarrow> bool" where
  "local_ready N X s w \<longleftrightarrow> uuid_string_spec (x_uuid_string X) \<and> base_ok s \<and> local_inv N X s w"

lemma LocalFileStorage_sel [simp]:
  "fs_Save (LocalFileStorage X s) = Local_Save X s" "fs_Delete (LocalFileStorage X s) = Local_Delete s"
  "fs_URL (LocalFileStorage X s) = Local_URL" "fs_URLWithExpiry (LocalFileStorage X s) = Local_URLWithExpiry"
  by (simp_all add: LocalFileStorage_def)

interpretation local_fs: file_storage "LocalFileStorage X s" ctx "local_ready N X s" plain_ext rel_path "local_files s" "in_supply N"
  for X s ctx N
proof (unfold_locales, unfold LocalFileStorage_sel local_ready_def)
  fix e c assume "plain_ext e"
  then show "keeps (\<lambda>w. uuid_string_spec (x_uuid_string X) \<and> base_ok s \<and> local_inv N X s w) (Local_Save X s ctx c e)"
    using local_save_keeps by (simp add: keeps_def)
next
  fix p
  show "keeps (\<lambda>w. uuid_string_spec (x_uuid_string X) \<and> base_ok s \<and> local_inv N X s w) (Local_Delete s ctx p)"
    using local_delete_keeps by (simp add: keeps_def)
next
  fix p w w' assume w: "uuid_string_spec (x_uuid_string X) \<and> base_ok s \<and> local_inv N X s w"
    and "rel_path p" "Local_Delete s ctx p w = (Inr (), w')"
  from Local_Delete_disk [OF this(3)] w \<open>rel_path p\<close> show "local_files s w' = (local_files s w)(p := None)"
    using local_files_upd by simp
next
  fix p w x w' assume w: "uuid_string_spec (x_uuid_string X) \<and> base_ok s \<and> local_inv N X s w"
    and "rel_path p" "Local_Delete s ctx p w = (Inl x, w')"
  from Local_Delete_disk [OF this(3)] w \<open>rel_path p\<close>
  show "local_files s w' = local_files s w \<or> local_files s w' = (local_files s w)(p := None)"
    using local_files_upd [of s p w' w None] by (auto simp: local_files_def)
next
  fix p w u w' assume "Local_Delete s ctx p w = (u, w')" "in_supply N w'"
  then show "in_supply N w" by (auto simp: in_supply_def file_only_iff dest!: Local_Delete_disk)
qed (use Local_Save_Inr Local_Save_Inl in blast)+

section \<open>S3 objects\<close>

definition s3_key :: "Ext \<Rightarrow> S3Storage \<Rightarrow> uuid \<Rightarrow> uuid \<Rightarrow> string \<Rightarrow> string" where
  "s3_key X s t u e = st_prefix s @ x_uuid_string X t @ ''/'' @ x_uuid_string X u @ e"

lemma s3_key_uuid:
  assumes X: "uuid_string_spec (x_uuid_string X)" and "s3_key X s t u e = s3_key X s t' u' e'"
  shows "u = u'"
proof -
  have len: "length (x_uuid_string X v) = 36" for v using X by (simp add: uuid_string_spec_def)
  have "x_uuid_string X t @ ''/'' @ x_uuid_string X u @ e = x_uuid_string X t' @ ''/'' @ x_uuid_string X u' @ e'"
    using assms(2) by (simp add: s3_key_def)
  then have "x_uuid_string X u @ e = x_uuid_string X u' @ e'" using len by simp
  then have "x_uuid_string X u = x_uuid_string X u'" using len by simp
  with X show ?thesis by (auto simp: uuid_string_spec_def dest: injD)
qed

definition s3_ready :: "nat \<Rightarrow> Ext \<Rightarrow> S3Storage \<Rightarrow> World \<Rightarrow> bool" where
  "s3_ready N X s w \<longleftrightarrow> uuid_string_spec (x_uuid_string X) \<and> fresh_ids N w \<and>
     (\<forall>n \<ge> w_drawn w. n < N \<longrightarrow> (\<forall>t e. w_objects w (s3_key X s t (w_uuids w n) e) = None))"

lemma S3_Save_cases:
  assumes "S3_Save X s ctx c e w = (r, w')"
  obtains (no_tenant) x where "r = Inl x" "w' = w"
  | (called) t k where "TenantIDFromContext ctx = Inr t" "k = s3_key X s t (w_uuids w (w_drawn w)) e"
      "w_db w' = w_db w \<and> w_clock w' = w_clock w \<and> w_faults w' = w_faults w \<and> w_uuids w' = w_uuids w
       \<and> w_bypass_rls w' = w_bypass_rls w \<and> w_drawn w' = Suc (w_drawn w)"
      "r = Inr k \<and> w_objects w' = (w_objects w)(k \<mapsto> c)
       \<or> (\<exists>x. r = Inl x) \<and> (w_objects w' = w_objects w \<or> w_objects w' = (w_objects w)(k \<mapsto> c))"
proof (cases "TenantIDFromContext ctx")
  case (Inl x)
  with assms have "r = Inl x" "w' = w" by (auto simp: S3_Save_def and_then_def of_result_def)
  with that(1) show thesis by blast
next
  case (Inr t)
  let ?k = "s3_key X s t (w_uuids w (w_drawn w)) e"
  obtain q w1 where q: "os_call (put_object ?k c) (w\<lparr>w_drawn := Suc (w_drawn w)\<rparr>) = (q, w1)" by fastforce
  have "r = (case q of Inl x \<Rightarrow> Inl (Errorf (''upload to S3 (key='' @ ?k @ ''): '') x '''') | Inr _ \<Rightarrow> Inr ?k) \<and> w' = w1"
    using assms Inr q unfolding s3_key_def
    by (auto simp: S3_Save_def and_then_def of_result_def uuid_New_def draw_uuid_def Let_def map_err_def ret_def
        split: sum.splits)
  with q show thesis
    by (intro that(2) [OF Inr refl]) (auto simp: os_call_def next_call_def put_object_def split: fault.splits)
qed

lemma S3_Delete_objects:
  "S3_Delete s ctx p w = (r, w') \<Longrightarrow>
    w_db w' = w_db w \<and> w_clock w' = w_clock w \<and> w_faults w' = w_faults w \<and> w_uuids w' = w_uuids w
    \<and> w_bypass_rls w' = w_bypass_rls w \<and> w_drawn w' = w_drawn w
    \<and> (w_objects w' = (w_objects w)(p := None) \<or> w_objects w' = w_objects w \<and> r \<noteq> Inr ())"
  by (auto simp: S3_Delete_def map_err_def os_call_def next_call_def delete_object_def split: fault.splits)

lemma files_op_s3: "files_op (S3_Save X s ctx c e)" "files_op (S3_Delete s ctx p)"
proof -
  show "files_op (S3_Save X s ctx c e)"
    unfolding files_op_def Let_def
    by (rule allI, rule S3_Save_cases, rule prod.collapse [symmetric]) auto
  show "files_op (S3_Delete s ctx p)"
    unfolding files_op_def Let_def using S3_Delete_objects by (metis order.refl prod.collapse)
qed

lemma s3_ready_step:
  assumes "s3_ready N X s w" "w_uuids w' = w_uuids w" "w_drawn w' = Suc (w_drawn w)"
    and "w_objects w' = w_objects w \<or> w_objects w' = (w_objects w)(s3_key X s t (w_uuids w (w_drawn w)) e \<mapsto> c)"
  shows "s3_ready N X s w'"
proof -
  have "w_uuids w n \<noteq> w_uuids w (w_drawn w)" if "Suc (w_drawn w) \<le> n" "n < N" for n
    using assms(1) that by (intro fresh_ids_neq) (auto simp: s3_ready_def)
  then have "s3_key X s t' (w_uuids w n) e' \<noteq> s3_key X s t (w_uuids w (w_drawn w)) e"
    if "Suc (w_drawn w) \<le> n" "n < N" for n t' e'
    using that s3_key_uuid assms(1) unfolding s3_ready_def by metis
  with assms show ?thesis by (auto simp: s3_ready_def fresh_ids_def)
qed

lemma S3FileStorage_sel [simp]:
  "fs_Save (S3FileStorage X ps s) = S3_Save X s" "fs_Delete (S3FileStorage X ps s) = S3_Delete s"
  "fs_URL (S3FileStorage X ps s) = S3_URL s" "fs_URLWithExpiry (S3FileStorage X ps s) = S3_URLWithExpiry ps s"
  by (simp_all add: S3FileStorage_def)

interpretation s3_fs: file_storage "S3FileStorage X ps s" ctx "s3_ready N X s" "\<lambda>_. True" "\<lambda>_. True" w_objects "in_supply N"
  for X ps s ctx N
proof (unfold_locales, unfold S3FileStorage_sel)
  fix c e show "keeps (s3_ready N X s) (S3_Save X s ctx c e)"
  proof (rule keepsI)
    fix w r w' assume "s3_ready N X s w" "S3_Save X s ctx c e w = (r, w')"
    from this(2,1) show "s3_ready N X s w'" by (cases rule: S3_Save_cases) (auto intro: s3_ready_step)
  qed
next
  fix p show "keeps (s3_ready N X s) (S3_Delete s ctx p)"
    by (rule keepsI, drule S3_Delete_objects) (auto simp: s3_ready_def fresh_ids_def)
next
  fix c e p w w' assume "s3_ready N X s w" "S3_Save X s ctx c e w = (Inr p, w')" "in_supply N w'"
  from this(2,1,3) show "True \<and> w_objects w p = None \<and> w_objects w' = (w_objects w)(p \<mapsto> c)"
    by (cases rule: S3_Save_cases) (auto simp: s3_ready_def in_supply_def)
next
  fix c e x w w' assume w: "s3_ready N X s w" and "S3_Save X s ctx c e w = (Inl x, w')" and N: "in_supply N w'"
  from this(2) show "w_objects w' = w_objects w \<or> (\<exists>p. w_objects w p = None \<and> (w_objects w')(p := None) = w_objects w)"
  proof (cases rule: S3_Save_cases)
    case (no_tenant y)
    then show ?thesis by simp
  next
    case (called t k)
    then show ?thesis using w N by (intro disjI2 exI [of _ k]) (auto simp: s3_ready_def in_supply_def fun_upd_idem)
  qed
qed (auto simp: in_supply_def dest: S3_Delete_objects)

end
