(* ===== verification/Media_Uploads.thy ===== *)
theory Media_Uploads
  imports Media_Service Storage
begin

text \<open>
  Files and rows together: what \<open>MediaService\<close> guarantees when its repository and its storage keep
  their contracts and leave each other alone.  Every row of every tenant has its file, under a
  path no other row has; an upload that fails leaves no row, and no file when the compensating
  delete works.
\<close>

section \<open>The contract between the service, the tables and the storage\<close>

text \<open>
  \<open>stored w\<close>: the file path of every media row, of all tenants.  \<open>works w\<close>: the storage does not
  fail from \<open>w\<close> on.
\<close>

locale upload_service =
  rows: media_repository repo ctx inv get lost + fs: file_storage st ctx finv ext_ok path_ok files plenty
  for repo :: "'w MediaRepository" and ctx :: Ctx and inv :: "'w \<Rightarrow> bool" and get :: "'w \<Rightarrow> uuid \<rightharpoonup> Media"
    and lost :: "'w \<Rightarrow> bool" and st :: "'w FileStorage" and finv :: "'w \<Rightarrow> bool"
    and ext_ok :: "string \<Rightarrow> bool" and path_ok :: "string \<Rightarrow> bool" and files :: "'w \<Rightarrow> string \<rightharpoonup> string"
    and plenty :: "'w \<Rightarrow> bool" +
  fixes tags :: "'w TagRepository"
    and stored :: "'w \<Rightarrow> uuid \<rightharpoonup> string"
    and works :: "'w \<Rightarrow> bool"
  assumes exts: "ext \<in> {''.jpg'', ''.png'', ''.gif'', ''.webp'', ''.mp4'', ''.webm'', ''.mov'', ''.avi'', ''.mkv''} \<Longrightarrow> ext_ok ext"
    and create_stored: "inv w \<Longrightarrow> mr_Create repo ctx m ids w = (Inr m', w') \<Longrightarrow>
      stored w (media_ID m') = None \<and> stored w' = (stored w)(media_ID m' \<mapsto> media_FilePath m)"
    and create_failed: "mr_Create repo ctx m ids w = (Inl e, w') \<Longrightarrow> stored w' = stored w
      \<or> lost w \<and> (\<exists>i. stored w i = None \<and> stored w' = (stored w)(i \<mapsto> media_FilePath m))"
    and delete_stored: "inv w \<Longrightarrow> mr_Delete repo ctx i w = (Inr p, w') \<Longrightarrow>
      stored w i = Some p \<and> stored w' = (stored w)(i := None)"
    and delete_failed: "mr_Delete repo ctx i w = (Inl e, w') \<Longrightarrow> \<not> lost w \<Longrightarrow> stored w' = stored w"
    and tags_keep: "tr_CreateOrGet tags ctx n w = (r, w') \<Longrightarrow>
      (inv w \<longrightarrow> inv w') \<and> (finv w \<longrightarrow> finv w') \<and> stored w' = stored w \<and> files w' = files w
      \<and> lost w' = lost w \<and> works w' = works w"
    and repo_keeps: "mr_Create repo ctx m ids w = (z, w') \<Longrightarrow>
      (finv w \<longrightarrow> finv w') \<and> files w' = files w \<and> works w' = works w \<and> (plenty w' \<longrightarrow> plenty w)"
    and repo_delete_keeps: "mr_Delete repo ctx i w = (q, w') \<Longrightarrow> (finv w \<longrightarrow> finv w') \<and> files w' = files w"
    and save_frame: "fs_Save st ctx c ext w = (q, w') \<Longrightarrow>
      inv w' = inv w \<and> stored w' = stored w \<and> get w' = get w \<and> lost w' = lost w \<and> works w' = works w"
    and remove_frame: "fs_Delete st ctx p w = (u, w') \<Longrightarrow> inv w' = inv w \<and> stored w' = stored w \<and> get w' = get w"
    and save_works: "works w \<Longrightarrow> finv w \<Longrightarrow> ext_ok ext \<Longrightarrow> fs_Save st ctx c ext w = (Inl e, w') \<Longrightarrow> files w' = files w"
    and remove_works: "works w \<Longrightarrow> \<exists>w'. fs_Delete st ctx p w = (Inr (), w')"
begin

text \<open>Every row has its file, under a path of its own.\<close>

definition stored_ok :: "'w \<Rightarrow> bool" where
  "stored_ok w \<longleftrightarrow> inv w \<and> finv w \<and> inj_on (stored w) (dom (stored w))
     \<and> (\<forall>i p. stored w i = Some p \<longrightarrow> path_ok p \<and> files w p \<noteq> None)"

lemma resolve_frame:
  "resolve_names X tags ctx names w = (r, w') \<Longrightarrow>
    (inv w \<longrightarrow> inv w') \<and> (finv w \<longrightarrow> finv w') \<and> stored w' = stored w \<and> files w' = files w
    \<and> lost w' = lost w \<and> works w' = works w"
proof (induction names arbitrary: r w w')
  case (Cons n names)
  show ?case
  proof (cases "SanitizeName (x_nfc X) n")
    case (Inl e)
    with Cons.prems show ?thesis by (simp add: and_then_def of_result_def)
  next
    case (Inr s)
    obtain q w1 where q: "tr_CreateOrGet tags ctx s w = (q, w1)" by fastforce
    show ?thesis
    proof (cases q)
      case (Inl e)
      with Cons.prems Inr q tags_keep [OF q] show ?thesis by (simp add: and_then_def of_result_def map_err_def)
    next
      case (Inr tc)
      obtain v w2 where v: "resolve_names X tags ctx names w1 = (v, w2)" by fastforce
      have "w' = w2"
        using Cons.prems \<open>SanitizeName _ _ = Inr s\<close> q Inr v
        by (auto simp: and_then_def of_result_def map_err_def ret_def split: prod.splits sum.splits)
      with Cons.IH [OF v] tags_keep [OF q] show ?thesis by auto
    qed
  qed
qed (simp add: ret_def)

text \<open>How an upload ends.\<close>

lemma create_cases:
  assumes s: "ms_repo s = repo" "ms_storage s = st" "ms_tagRepo s = tags"
    and run: "MediaService_Create X s ctx input w = (r, w')"
  obtains (early) e w1 where "r = Inl e" "w' = w1" "stored w1 = stored w" "files w1 = files w"
      "(inv w \<longrightarrow> inv w1) \<and> (finv w \<longrightarrow> finv w1)"
  | (unsaved) e e' w1 ext where "r = Inl e" "fs_Save st ctx (ci_File input) ext w1 = (Inl e', w')"
      "ext_ok ext" "stored w1 = stored w" "files w1 = files w" "lost w1 = lost w" "works w1 = works w"
      "(inv w \<longrightarrow> inv w1) \<and> (finv w \<longrightarrow> finv w1)"
  | (saved) name ty ext ids w1 w2 p where
      "SanitizeName (x_nfc X) (ci_Name input) = Inr name"
      "classifyContentType (ci_ContentType input) (ci_FileName input) = Inr (ty, ext)" "ext_ok ext"
      "fs_Save st ctx (ci_File input) ext w1 = (Inr p, w2)"
      "insert_or_undo s ctx (new_media name ty p input) ids w2 = (r, w')"
      "stored w1 = stored w" "files w1 = files w" "lost w1 = lost w" "works w1 = works w"
      "(inv w \<longrightarrow> inv w1) \<and> (finv w \<longrightarrow> finv w1)"
proof (cases "SanitizeName (x_nfc X) (ci_Name input)")
  case (Inl e)
  with run that(1) show thesis by (auto simp: MediaService_Create_def and_then_def of_result_def)
next
  case name: (Inr name)
  show thesis
  proof (cases "length (ci_TagIDs input) + length (ci_TagNames input) > maxTagsPerMedia")
    case True
    with name run that(1) show thesis by (auto simp: MediaService_Create_def and_then_def of_result_def fail_def)
  next
    case False
    obtain q w1 where q: "resolve_names X tags ctx (ci_TagNames input) w = (q, w1)" by fastforce
    note fr = resolve_frame [OF q]
    show thesis
    proof (cases q)
      case (Inl e)
      with name False q run s have "r = Inl e" "w' = w1"
        by (simp_all add: MediaService_Create_def and_then_def of_result_def)
      with fr that(1) show thesis by blast
    next
      case ids: (Inr ids)
      show thesis
      proof (cases "classifyContentType (ci_ContentType input) (ci_FileName input)")
        case (Inl e)
        with name False q ids run s have "r = Inl e" "w' = w1"
          by (simp_all add: MediaService_Create_def and_then_def of_result_def Let_def)
        with fr that(1) show thesis by blast
      next
        case (Inr te)
        obtain ty ext where te: "te = (ty, ext)" by fastforce
        with Inr have cl: "classifyContentType (ci_ContentType input) (ci_FileName input) = Inr (ty, ext)" by simp
        from classify_Inr [OF cl] have ext: "ext_ok ext" by (intro exts) auto
        obtain v w2 where v: "fs_Save st ctx (ci_File input) ext w1 = (v, w2)" by fastforce
        show thesis
        proof (cases v)
          case (Inl e)
          with name False q ids cl v run s have "\<exists>e'. r = Inl e'" "w' = w2"
            by (auto simp: MediaService_Create_def and_then_def of_result_def Let_def map_err_def)
          with v Inl ext fr that(2) show thesis by blast
        next
          case (Inr p)
          with name False q ids cl v run s
          have "insert_or_undo s ctx (new_media name ty p input) (deduplicateUUIDs (ci_TagIDs input @ ids)) w2 = (r, w')"
            by (simp add: MediaService_Create_def and_then_def of_result_def Let_def map_err_def)
          with name cl ext v Inr fr that(3) show thesis by blast
        qed
      qed
    qed
  qed
qed

text \<open>After the file is stored: the row, or the file is taken back.\<close>

lemma insert_or_undo_Inr:
  "ms_repo s = repo \<Longrightarrow> insert_or_undo s ctx m ids w = (Inr m', w') \<longleftrightarrow> mr_Create repo ctx m ids w = (Inr m', w')"
  by (auto simp: insert_or_undo_def handle_eq)

lemma insert_or_undo_Inl:
  assumes "ms_repo s = repo" "ms_storage s = st" "insert_or_undo s ctx m ids w = (Inl e, w')"
  obtains e' w1 u where "mr_Create repo ctx m ids w = (Inl e', w1)" "fs_Delete st ctx (media_FilePath m) w1 = (u, w')"
proof -
  obtain q w1 where q: "mr_Create repo ctx m ids w = (q, w1)" by fastforce
  obtain u w2 where u: "fs_Delete st ctx (media_FilePath m) w1 = (u, w2)" by fastforce
  show thesis
  proof (cases q)
    case (Inl e')
    have "w2 = w'" using assms q Inl u by (cases u) (simp_all add: insert_or_undo_def)
    with q u Inl that show thesis by blast
  next
    case (Inr m')
    with assms q show thesis by (simp add: insert_or_undo_def)
  qed
qed

lemma remove_sub:
  assumes "finv w" "path_ok p" "fs_Delete st ctx p w = (u, w')"
  shows "finv w' \<and> (files w' = files w \<or> files w' = (files w)(p := None))"
  using keepsD [OF fs.delete_keeps [OF assms(2)] assms(1,3)] fs.delete_Inr [OF assms(1,2)] fs.delete_Inl [OF assms(1,2)] assms(3)
  by (cases u) auto

text \<open>A successful upload: the new row, its file with the uploaded content, and nothing else.\<close>

lemma upload_Inr:
  assumes s: "ms_repo s = repo" "ms_storage s = st" "ms_tagRepo s = tags" and ok: "stored_ok w"
    and run: "MediaService_Create X s ctx input w = (Inr m, w')" and left: "plenty w'"
  shows "get w' (media_ID m) = Some m \<and> stored w (media_ID m) = None
    \<and> stored w' = (stored w)(media_ID m \<mapsto> media_FilePath m)
    \<and> files w (media_FilePath m) = None \<and> files w' = (files w)(media_FilePath m \<mapsto> ci_File input)
    \<and> path_ok (media_FilePath m) \<and> inv w' \<and> finv w'
    \<and> SanitizeName (x_nfc X) (ci_Name input) = Inr (media_Name m)
    \<and> (\<exists>ext. classifyContentType (ci_ContentType input) (ci_FileName input) = Inr (media_Type m, ext))
    \<and> media_OriginalName m = sanitizeFilename (ci_FileName input) \<and> media_FileSize m = ci_FileSize input"
  using s run
proof (cases rule: create_cases)
  case (saved name ty ext ids w1 w2 p)
  from ok saved have 1: "inv w1" "finv w1" by (auto simp: stored_ok_def)
  from saved(5) have c: "mr_Create repo ctx (new_media name ty p input) ids w2 = (Inr m, w')"
    by (simp add: insert_or_undo_Inr [OF s(1)])
  have "plenty w2" using repo_keeps [OF c] left by simp
  note f = fs.save_Inr [OF 1(2) saved(3,4) this] save_frame [OF saved(4)] fs.save_keeps [OF saved(3), THEN keepsD, OF 1(2) saved(4)]
  have "inv w2" using 1 f by simp
  note r = rows.create_Inr [OF this c] create_stored [OF \<open>inv w2\<close> c] repo_keeps [OF c] rows.create_keeps [THEN keepsD, OF \<open>inv w2\<close> c]
  from r(1) have m: "media_FilePath m = p" "media_Name m = name" "media_Type m = ty"
    "media_OriginalName m = sanitizeFilename (ci_FileName input)" "media_FileSize m = ci_FileSize input"
    unfolding new_media_def by (metis (no_types, lifting) Media.select_convs Media.update_convs)+
  from r f saved m show ?thesis by (auto simp: new_media_def)
qed simp_all

text \<open>
  A failed upload: nothing changed, or at most one file was left, and no row, unless the acknowledgement
  of its COMMIT was lost: then there may be a row with the path of that file.
\<close>

lemma upload_Inl:
  assumes s: "ms_repo s = repo" "ms_storage s = st" "ms_tagRepo s = tags" and ok: "stored_ok w"
    and run: "MediaService_Create X s ctx input w = (Inl e, w')" and left: "plenty w'"
  shows "inv w' \<and> finv w' \<and> (stored w' = stored w \<and> files w' = files w \<or>
    (\<exists>p. files w p = None \<and> (files w')(p := None) = files w
       \<and> (stored w' = stored w \<or> lost w \<and> (\<exists>i. stored w i = None \<and> stored w' = (stored w)(i \<mapsto> p)))))"
  using s run
proof (cases rule: create_cases)
  case (early e w1)
  with ok show ?thesis by (auto simp: stored_ok_def)
next
  case (unsaved e e' w1 ext)
  with ok have 1: "inv w1" "finv w1" by (auto simp: stored_ok_def)
  from fs.save_Inl [OF 1(2) unsaved(3,2) left] save_frame [OF unsaved(2)]
    fs.save_keeps [OF unsaved(3), THEN keepsD, OF 1(2) unsaved(2)] 1 unsaved
  show ?thesis by auto
next
  case (saved name ty ext ids w1 w2 p)
  from ok saved have 1: "inv w1" "finv w1" by (auto simp: stored_ok_def)
  obtain e' w3 u where c: "mr_Create repo ctx (new_media name ty p input) ids w2 = (Inl e', w3)"
    and u: "fs_Delete st ctx p w3 = (u, w')"
    using insert_or_undo_Inl [OF s(1,2) saved(5)] by (auto simp: new_media_def)
  have "plenty w2" using repo_keeps [OF c] fs.delete_supply [OF u left] by simp
  note f = fs.save_Inr [OF 1(2) saved(3,4) this] save_frame [OF saved(4)] fs.save_keeps [OF saved(3), THEN keepsD, OF 1(2) saved(4)]
  have "inv w2" using 1 f by simp
  have 3: "inv w3" "finv w3" "files w3 = (files w)(p \<mapsto> ci_File input)"
    using rows.create_keeps [THEN keepsD, OF \<open>inv w2\<close> c] repo_keeps [OF c] f saved by auto
  have row: "stored w3 = stored w \<or> lost w \<and> (\<exists>i. stored w i = None \<and> stored w3 = (stored w)(i \<mapsto> p))"
    using create_failed [OF c] f saved by (simp add: new_media_def)
  from remove_sub [OF 3(2) _ u] remove_frame [OF u] 3 f saved
  have "(files w')(p := None) = files w" "files w p = None" by (auto simp: fun_upd_idem)
  moreover have "inv w'" "finv w'" "stored w' = stored w3" using remove_sub [OF 3(2) _ u] remove_frame [OF u] 3 f by auto
  ultimately show ?thesis using row by auto
qed

text \<open>When the storage works, a failed upload leaves the files as they were.\<close>

lemma upload_undone:
  assumes s: "ms_repo s = repo" "ms_storage s = st" "ms_tagRepo s = tags" and ok: "stored_ok w" and "works w"
    and run: "MediaService_Create X s ctx input w = (Inl e, w')" and left: "plenty w'"
  shows "files w' = files w"
  using s run
proof (cases rule: create_cases)
  case (unsaved e e' w1 ext)
  with ok have "finv w1" by (auto simp: stored_ok_def)
  with save_works [OF _ this unsaved(3,2)] unsaved \<open>works w\<close> show ?thesis by simp
next
  case (saved name ty ext ids w1 w2 p)
  from ok saved have 1: "finv w1" by (auto simp: stored_ok_def)
  obtain e' w3 u where c: "mr_Create repo ctx (new_media name ty p input) ids w2 = (Inl e', w3)"
    and u: "fs_Delete st ctx p w3 = (u, w')"
    using insert_or_undo_Inl [OF s(1,2) saved(5)] by (auto simp: new_media_def)
  have "plenty w2" using repo_keeps [OF c] fs.delete_supply [OF u left] by simp
  note f = fs.save_Inr [OF 1 saved(3,4) this] save_frame [OF saved(4)] fs.save_keeps [OF saved(3), THEN keepsD, OF 1 saved(4)]
  have "works w3" and 3: "finv w3" "files w3 = (files w)(p \<mapsto> ci_File input)"
    using repo_keeps [OF c] f saved \<open>works w\<close> by auto
  from remove_works [OF \<open>works w3\<close>, of p] u have "u = Inr ()" by auto
  with fs.delete_Inr [OF 3(1)] u f have "files w' = (files w3)(p := None)" by auto
  with 3 f saved show ?thesis by (auto simp: fun_upd_idem)
qed auto

text \<open>Every row keeps its file.\<close>

lemma stored_ok_upload:
  assumes s: "ms_repo s = repo" "ms_storage s = st" "ms_tagRepo s = tags" and ok: "stored_ok w" and l: "\<not> lost w"
    and run: "MediaService_Create X s ctx input w = (r, w')" and left: "plenty w'"
  shows "stored_ok w'"
proof (cases r)
  case (Inl e)
  with upload_Inl [OF s ok _ left] run l have e: "stored w' = stored w" "inv w'" "finv w'"
    and f: "files w' = files w \<or> (\<exists>p. files w p = None \<and> (files w')(p := None) = files w)" by auto
  have "files w' p \<noteq> None" if "files w p \<noteq> None" for p
    using f that by (metis fun_upd_apply)
  with ok e show ?thesis by (simp add: stored_ok_def)
next
  case (Inr m)
  note u = upload_Inr [OF s ok run [unfolded Inr] left]
  have "media_FilePath m \<notin> ran (stored w)"
    using ok u unfolding stored_ok_def ran_def by blast
  then have "inj_on (stored w') (dom (stored w'))"
    using ok u by (auto simp: stored_ok_def inj_on_def ran_def)
  with ok u show ?thesis by (auto simp: stored_ok_def)
qed

lemma stored_ok_delete:
  assumes s: "ms_repo s = repo" "ms_storage s = st" and ok: "stored_ok w" and l: "\<not> lost w"
    and run: "MediaService_Delete s ctx i w = (r, w')"
  shows "stored_ok w'"
proof -
  obtain q w1 where q: "mr_Delete repo ctx i w = (q, w1)" by fastforce
  have inv: "inv w" "finv w" using ok by (simp_all add: stored_ok_def)
  note k = rows.delete_keeps [THEN keepsD, OF inv(1) q] repo_delete_keeps [OF q]
  show ?thesis
  proof (cases q)
    case (Inl e)
    with run q s have "w' = w1" by (simp add: MediaService_Delete_def)
    with Inl q delete_failed [OF _ l] k ok show ?thesis by (auto simp: stored_ok_def)
  next
    case (Inr p)
    obtain u w2 where u: "fs_Delete st ctx p w1 = (u, w2)" by fastforce
    have "w' = w2" using run q s Inr u by (cases u) (auto simp: MediaService_Delete_def)
    note d = delete_stored [OF inv(1) q [unfolded Inr]]
    have p: "path_ok p" using d ok unfolding stored_ok_def by blast
    note f = remove_sub [OF _ p u] remove_frame [OF u]
    have "stored w j \<noteq> Some p" if "j \<noteq> i" for j
      using ok d that by (auto simp: stored_ok_def inj_on_def dom_def)
    moreover have "inj_on (stored w') (dom (stored w'))"
      using ok d f \<open>w' = w2\<close> by (auto simp: stored_ok_def inj_on_def dom_def)
    ultimately show ?thesis using ok d f k inv \<open>w' = w2\<close> by (auto simp: stored_ok_def)
  qed
qed

text \<open>A deleted item is gone, and when the storage works so is its file.\<close>

lemma deleted:
  assumes s: "ms_repo s = repo" "ms_storage s = st" and ok: "stored_ok w"
    and run: "MediaService_Delete s ctx i w = (Inr (), w')"
  obtains p where "stored w i = Some p" "stored w' = (stored w)(i := None)" "get w' i = None"
    "files w' = files w \<or> files w' = (files w)(p := None)"
proof -
  have inv: "inv w" "finv w" using ok by (simp_all add: stored_ok_def)
  obtain q w1 where q: "mr_Delete repo ctx i w = (q, w1)" by fastforce
  then obtain p where p: "q = Inr p" using run s by (cases q) (auto simp: MediaService_Delete_def)
  obtain u w2 where u: "fs_Delete st ctx p w1 = (u, w2)" by fastforce
  have "w' = w2" using run q s p u by (cases u) (auto simp: MediaService_Delete_def)
  note d = delete_stored [OF inv(1) q [unfolded p]] rows.delete_Inr [OF inv(1) q [unfolded p]]
  have "path_ok p" using d ok unfolding stored_ok_def by blast
  from remove_sub [OF _ this u] remove_frame [OF u] repo_delete_keeps [OF q] inv d \<open>w' = w2\<close>
  show thesis by (intro that [of p]) auto
qed

end

end
