(* ===== verification/Media_Files.thy ===== *)
theory Media_Files
  imports Media_Uploads
begin

text \<open>
  The media service on the PostgreSQL tables and on each of the two storages: the contract of
  \<open>Media_Uploads\<close> holds, so that every media row of every tenant always has its file.
\<close>

section \<open>The paths in the media table\<close>

definition stored_paths :: "World \<Rightarrow> uuid \<rightharpoonup> string" where
  "stored_paths w i = map_option md_path (find (\<lambda>r. md_id r = i) (media (w_db w)))"

lemma stored_paths_cong: "media (w_db w') = media (w_db w) \<Longrightarrow> stored_paths w' = stored_paths w"
  by (simp add: stored_paths_def fun_eq_iff)

lemma stored_paths_Some:
  "distinct (map md_id (media (w_db w))) \<Longrightarrow>
    stored_paths w i = Some p \<longleftrightarrow> (\<exists>r \<in> set (media (w_db w)). md_id r = i \<and> md_path r = p)"
  by (auto simp: stored_paths_def dest!: find_Some_in)
    (metis (mono_tags, lifting) distinct_map_unique find_None_iff_ex find_Some_in option.exhaust option.map(2))

lemma CreateOrGet_media:
  assumes "TagRepo_CreateOrGet ctx n w = (r, w')"
  shows "media (w_db w') = media (w_db w)"
proof -
  have "db_keeps (\<lambda>d. media d = media (w_db w)) (TagRepo_CreateOrGet ctx n)"
    by (rule keeps_TagRepo)
      (auto simp: sql_rename_tag_def sql_delete_tag_def Let_def elim: insert_tag_Inr split: if_splits option.splits)
  from keepsD [OF this _ assms] show ?thesis by simp
qed

lemma MediaCreate_tx_stored:
  assumes run: "MediaCreate_tx X m ids (tenant_session v t) t w2 = (Inr m', w3)"
    and w: "w_db w2 = w_db w" "w_db w' = w_db w3"
  shows "stored_paths w (media_ID m') = None \<and> stored_paths w' = (stored_paths w)(media_ID m' \<mapsto> media_FilePath m)"
proof -
  obtain i created u "now" w4 w5 where
    ins: "sql_insert_media (tenant_session v t) t m u now (w_db w2) = Inr ((i, created), w_db w4)" and
    assoc: "associate_tags X (tenant_session v t) t i ids w4 = (Inr (), w5)" and
    m': "media_ID m' = i" and w5: "w_db w3 = w_db w5"
    using run by (auto simp: MediaCreate_tx_def and_then_Inr dest!: db_insert_InrD db_query_InrD)
  note I = insert_media_Inr [OF ins]
  have "find (\<lambda>r. md_id r = u) (media (w_db w)) = None" using I(3) w by (auto simp: find_None_iff_ex)
  moreover have "media (w_db w') = media (w_db w) @ [\<lparr>md_id = u, md_tenant = t, md_name = media_Name m,
      md_type = media_Type m, md_path = media_FilePath m, md_orig = media_OriginalName m,
      md_size = media_FileSize m, md_created = now\<rparr>]"
    using associate_effect [OF assoc] by (simp add: w w5 I(2))
  ultimately show ?thesis
    using I(1) m' by (auto simp: stored_paths_def fun_eq_iff find_append split: option.split)
qed

lemma MediaCreate_stored:
  assumes "MediaRepo_Create X ctx m ids w = (Inr m', w')"
  shows "stored_paths w (media_ID m') = None \<and> stored_paths w' = (stored_paths w)(media_ID m' \<mapsto> media_FilePath m)"
  using assms unfolding MediaRepo_Create_def
proof (rule withTenantTx_Inr)
  fix t w2 w3 assume "MediaCreate_tx X m ids (tenant_session w t) t w2 = (Inr m', w3)"
    "w_db w2 = w_db w" "w_db w' = w_db w3"
  then show ?thesis by (rule MediaCreate_tx_stored)
qed (intro frame)

text \<open>A create that reports an error has stored nothing, or the acknowledgement of its COMMIT was lost.\<close>

lemma MediaCreate_failed:
  assumes "MediaRepo_Create X ctx m ids w = (Inl e, w')"
  shows "stored_paths w' = stored_paths w
    \<or> lost_ack w \<and> (\<exists>i. stored_paths w i = None \<and> stored_paths w' = (stored_paths w)(i \<mapsto> media_FilePath m))"
  using assms [unfolded MediaRepo_Create_def]
proof (rule withTenantTx_cases)
  show "db_op (MediaCreate_tx X m ids s t)" for s t by (intro frame)
next
  fix e' assume "w_db w' = w_db w"
  then have "stored_paths w' = stored_paths w" by (intro stored_paths_cong) simp
  then show ?thesis ..
next
  fix t w2 m' w3 assume "MediaCreate_tx X m ids (tenant_session w t) t w2 = (Inr m', w3)"
    "w_db w2 = w_db w" "w_db w' = w_db w3"
    and "Inl e = Inr m' \<or> (\<exists>e'. Inl e = Inl e') \<and> (\<exists>n msg. w_faults w CommitCall n = FaultAfter msg)"
  note run = this
  have "stored_paths w (media_ID m') = None" "stored_paths w' = (stored_paths w)(media_ID m' \<mapsto> media_FilePath m)"
    using MediaCreate_tx_stored [OF run(1-3)] by simp_all
  moreover have "lost_ack w" using run(4) by (simp add: lost_ack_def)
  ultimately show ?thesis by blast
qed

lemma delete_media_row:
  assumes "sql_delete_media s t i d = Inr (Some p, d')"
  obtains r rest where "filter (media_hit s t i) (media d) = r # rest" "p = md_path r"
    "media d' = filter (\<lambda>r. \<not> media_hit s t i r) (media d)"
  using assms by (auto simp: sql_delete_media_def Let_def split: list.splits)

lemma MediaDelete_stored:
  assumes inv: "db_inv (w_db w)" and "MediaRepo_Delete ctx i w = (Inr p, w')"
  shows "stored_paths w i = Some p \<and> stored_paths w' = (stored_paths w)(i := None)"
  using assms(2) unfolding MediaRepo_Delete_def
proof (rule withTenantTx_Inr)
  fix t w2 w3 assume w: "w_db w2 = w_db w" "w_db w' = w_db w3"
    and run: "MediaDelete_tx i (tenant_session w t) t w2 = (Inr p, w3)"
  let ?s = "tenant_session w t"
  have del: "sql_delete_media ?s t i (w_db w) = Inr (Some p, w_db w')"
    using run w by (auto simp: MediaDelete_tx_def handle_eq QueryRow_Inr dest!: db_exec_InrD split: if_splits)
  from del obtain r rest where f: "filter (media_hit ?s t i) (media (w_db w)) = r # rest" and p: "p = md_path r"
    and m: "media (w_db w') = filter (\<lambda>r. \<not> media_hit ?s t i r) (media (w_db w))"
    by (rule delete_media_row)
  have d: "distinct (map md_id (media (w_db w)))" using db_inv_D(3) [OF inv] .
  from f have r: "r \<in> set (media (w_db w))" "md_id r = i" "md_tenant r = t"
    by (metis (mono_tags, lifting) filter_eq_ConsD in_set_conv_decomp media_hit_def)+
  have "filter (\<lambda>q. \<not> media_hit ?s t i q) (media (w_db w)) = filter (\<lambda>q. md_id q \<noteq> i) (media (w_db w))"
  proof (rule filter_cong [OF refl])
    fix q assume "q \<in> set (media (w_db w))"
    with r distinct_map_unique [OF d] have "md_id q = i \<Longrightarrow> q = r" by metis
    then show "(\<not> media_hit ?s t i q) = (md_id q \<noteq> i)" using r by (auto simp: media_hit_def)
  qed
  then have m': "media (w_db w') = filter (\<lambda>q. md_id q \<noteq> i) (media (w_db w))" using m by simp
  have "stored_paths w i = Some p" using r p by (auto simp: stored_paths_Some [OF d])
  moreover have "stored_paths w' j = ((stored_paths w)(i := None)) j" for j
    by (cases "j = i") (auto simp: stored_paths_def m' find_None_iff_ex find_filter)
  ultimately show ?thesis by auto
qed (intro frame)

lemma stored_atomic: "tx_atomic f \<Longrightarrow> f w = (Inl e, w') \<Longrightarrow> \<not> lost_ack w \<Longrightarrow> stored_paths w' = stored_paths w"
  unfolding tx_atomic_def by (metis stored_paths_cong)

section \<open>Any storage beside the tables\<close>

locale world_storage = file_storage st ctx finv ext_ok path_ok files plenty
  for st :: "World FileStorage" and ctx :: Ctx and finv :: "World \<Rightarrow> bool"
    and ext_ok :: "string \<Rightarrow> bool" and path_ok :: "string \<Rightarrow> bool" and files :: "World \<Rightarrow> string \<rightharpoonup> string"
    and plenty :: "World \<Rightarrow> bool" +
  fixes X :: Ext
  assumes exts: "ext \<in> {''.jpg'', ''.png'', ''.gif'', ''.webp'', ''.mp4'', ''.webm'', ''.mov'', ''.avi'', ''.mkv''} \<Longrightarrow> ext_ok ext"
    and save_files_op: "files_op (fs_Save st ctx c ext)"
    and remove_files_op: "files_op (fs_Delete st ctx p)"
    and finv_db: "db_only w w' \<Longrightarrow> finv w \<Longrightarrow> finv w'"
    and supply_db: "db_only w w' \<Longrightarrow> plenty w' \<Longrightarrow> plenty w"
    and files_db: "db_only w w' \<Longrightarrow> files w' = files w"
    and save_sure: "no_faults w \<Longrightarrow> fs_Save st ctx c ext w = (Inl e, w') \<Longrightarrow> files w' = files w"
    and remove_sure: "no_faults w \<Longrightarrow> \<exists>w'. fs_Delete st ctx p w = (Inr (), w')"

sublocale world_storage \<subseteq> uploads: upload_service "PostgresMediaRepo X" ctx "\<lambda>w. db_inv (w_db w)" "ctx_media X ctx"
  lost_ack st finv ext_ok path_ok files plenty "PostgresTagRepo X" stored_paths no_faults
proof (unfold_locales, unfold PostgresMediaRepo_sel PostgresTagRepo_sel)
  fix n r w w' assume run: "TagRepo_CreateOrGet ctx n w = (r, w')"
  have o: "db_only w w'" using run db_op_TagRepo(1) by (blast dest: db_opD)
  show "(db_inv (w_db w) \<longrightarrow> db_inv (w_db w')) \<and> (finv w \<longrightarrow> finv w') \<and> stored_paths w' = stored_paths w
      \<and> files w' = files w \<and> lost_ack w' = lost_ack w \<and> no_faults w' = no_faults w"
    using keepsD [OF keeps_inv_TagRepo(1) _ run] stored_paths_cong [OF CreateOrGet_media [OF run]]
      finv_db [OF o] files_db [OF o] o
    by (simp add: lost_ack_def no_faults_def db_only_iff)
next
  fix m ids z w w' assume "MediaRepo_Create X ctx m ids w = (z, w')"
  then have o: "db_only w w'" using db_op_MediaRepo(1) by (blast dest: db_opD)
  then show "(finv w \<longrightarrow> finv w') \<and> files w' = files w \<and> no_faults w' = no_faults w \<and> (plenty w' \<longrightarrow> plenty w)"
    using finv_db [OF o] files_db [OF o] supply_db [OF o] by (simp add: no_faults_def db_only_iff)
next
  fix i q w w' assume "MediaRepo_Delete ctx i w = (q, w')"
  then have o: "db_only w w'" using db_op_MediaRepo(4) by (blast dest: db_opD)
  then show "(finv w \<longrightarrow> finv w') \<and> files w' = files w" using finv_db files_db by simp
next
  fix c ext w q w' assume "fs_Save st ctx c ext w = (q, w')"
  from files_opD [OF save_files_op this] show "db_inv (w_db w') = db_inv (w_db w)
      \<and> stored_paths w' = stored_paths w \<and> ctx_media X ctx w' = ctx_media X ctx w \<and> lost_ack w' = lost_ack w
      \<and> no_faults w' = no_faults w"
    by (simp add: stored_paths_def fun_eq_iff ctx_media_def lost_ack_def no_faults_def split: sum.split)
next
  fix p w u w' assume "fs_Delete st ctx p w = (u, w')"
  from files_opD [OF remove_files_op this] show "db_inv (w_db w') = db_inv (w_db w)
      \<and> stored_paths w' = stored_paths w \<and> ctx_media X ctx w' = ctx_media X ctx w"
    by (simp add: stored_paths_def fun_eq_iff ctx_media_def split: sum.split)
next
  fix w m ids m' w' assume "MediaRepo_Create X ctx m ids w = (Inr m', w')"
  then show "stored_paths w (media_ID m') = None \<and> stored_paths w' = (stored_paths w)(media_ID m' \<mapsto> media_FilePath m)"
    by (rule MediaCreate_stored)
next
  fix w i p w' assume "db_inv (w_db w)" "MediaRepo_Delete ctx i w = (Inr p, w')"
  then show "stored_paths w i = Some p \<and> stored_paths w' = (stored_paths w)(i := None)"
    by (rule MediaDelete_stored)
next
  fix m ids w e w' assume "MediaRepo_Create X ctx m ids w = (Inl e, w')"
  then show "stored_paths w' = stored_paths w
      \<or> lost_ack w \<and> (\<exists>i. stored_paths w i = None \<and> stored_paths w' = (stored_paths w)(i \<mapsto> media_FilePath m))"
    by (rule MediaCreate_failed)
next
  fix i w e w' assume "MediaRepo_Delete ctx i w = (Inl e, w')" "\<not> lost_ack w"
  then show "stored_paths w' = stored_paths w" by (rule stored_atomic [OF tx_atomic_MediaRepo(4)])
next
  fix w c ext e w' assume "no_faults w" "fs_Save st ctx c ext w = (Inl e, w')"
  then show "files w' = files w" by (rule save_sure)
next
  fix w p assume "no_faults w"
  then show "\<exists>w'. fs_Delete st ctx p w = (Inr (), w')" by (rule remove_sure)
qed (rule exts)

section \<open>The two storages\<close>

lemma os_call_no_faults:
  "no_faults w \<Longrightarrow> os_call eff w = (Inr (), eff (w\<lparr>w_calls := Suc (w_calls w)\<rparr>))"
  by (simp add: os_call_def next_call_def no_faults_def)

lemma no_faults_write [simp]: "no_faults (write_file p c w) = no_faults w"
  by (simp add: no_faults_def write_file_def)

lemma save_calls_no_faults: "no_faults w \<Longrightarrow> \<exists>w'. save_calls d r p c w = (Inr r, w')"
  by (simp add: save_calls_def and_then_def map_err_def os_call_no_faults cleanup_on_error_def ret_def)

lemma plain_exts:
  "e \<in> {''.jpg'', ''.png'', ''.gif'', ''.webp'', ''.mp4'', ''.webm'', ''.mov'', ''.avi'', ''.mkv''} \<Longrightarrow> plain_ext e"
  by (auto simp: plain_ext_def)

interpretation local_store: world_storage "LocalFileStorage X s" ctx "local_ready N X s" plain_ext rel_path "local_files s" "in_supply N" X
  for X s ctx N
proof (unfold_locales, unfold LocalFileStorage_sel)
  fix w w' assume "db_only w w'"
  then show "local_ready N X s w \<Longrightarrow> local_ready N X s w'" "local_files s w' = local_files s w"
    "in_supply N w' \<Longrightarrow> in_supply N w"
    using in_supply_db_only by (auto simp add: local_ready_def local_inv_db_only local_files_db_only)
next
  fix w c ext e w' assume nf: "no_faults w" and run: "Local_Save X s ctx c ext w = (Inl e, w')"
  show "local_files s w' = local_files s w"
  proof (cases "TenantIDFromContext ctx")
    case (Inl x)
    with run show ?thesis by (simp add: Local_Save_def and_then_def of_result_def)
  next
    case (Inr t)
    from Local_Save_calls [OF this, of X s c ext w] obtain d r where
      "Local_Save X s ctx c ext w = save_calls d r (full_path s r) c (w\<lparr>w_drawn := Suc (w_drawn w)\<rparr>)" by blast
    moreover obtain w2 where "save_calls d r (full_path s r) c (w\<lparr>w_drawn := Suc (w_drawn w)\<rparr>) = (Inr r, w2)"
      using save_calls_no_faults [of "w\<lparr>w_drawn := Suc (w_drawn w)\<rparr>" d r "full_path s r" c] nf by auto
    ultimately show ?thesis using run by simp
  qed
next
  fix w p assume "no_faults w"
  then show "\<exists>w'. Local_Delete s ctx p w = (Inr (), w')"
    by (simp add: Local_Delete_eq map_err_def os_call_no_faults)
qed (erule plain_exts | rule files_op_local)+

interpretation s3_store: world_storage "S3FileStorage X ps s" ctx "s3_ready N X s" "\<lambda>_. True" "\<lambda>_. True" w_objects "in_supply N" X
  for X ps s ctx N
proof (unfold_locales, unfold S3FileStorage_sel)
  fix w w' assume "db_only w w'"
  then show "s3_ready N X s w \<Longrightarrow> s3_ready N X s w'" "w_objects w' = w_objects w" "in_supply N w' \<Longrightarrow> in_supply N w"
    by (auto simp: s3_ready_def fresh_ids_def db_only_iff in_supply_db_only)
next
  fix w c ext e w' assume nf: "no_faults w" and run: "S3_Save X s ctx c ext w = (Inl e, w')"
  then show "w_objects w' = w_objects w"
    by (cases "TenantIDFromContext ctx")
      (auto simp: S3_Save_def and_then_def of_result_def uuid_New_def draw_uuid_def Let_def map_err_def ret_def
        os_call_no_faults no_faults_def os_call_def next_call_def)
next
  fix w p assume "no_faults w"
  then show "\<exists>w'. S3_Delete s ctx p w = (Inr (), w')"
    by (simp add: S3_Delete_def map_err_def os_call_no_faults)
qed (rule TrueI files_op_s3)+

end
