(* ===== verification/Upload_Progress.thy ===== *)
theory Upload_Progress
  imports Media_Files
begin

text \<open>
  When no call fails, a valid upload succeeds: the calls of \<open>MediaService_Create\<close> to the PostgreSQL
  repository and to the local storage, run forward.  The rest of the development reasons backward,
  from the outcome.
\<close>

section \<open>How many ids an operation draws\<close>

definition draws :: "nat \<Rightarrow> (World, 'e, 'a) op \<Rightarrow> bool" where
  "draws k f \<longleftrightarrow> (\<forall>w. w_drawn (snd (f w)) \<le> w_drawn w + k)"

lemma drawsD: "draws k f \<Longrightarrow> f w = (r, w') \<Longrightarrow> w_drawn w' \<le> w_drawn w + k"
  by (metis draws_def snd_conv)

lemma draws_mono: "draws j f \<Longrightarrow> j \<le> k \<Longrightarrow> draws k f"
  unfolding draws_def by (meson add_left_mono order_trans)

lemma draws_basic:
  "draws 0 (ret x)" "draws 0 (fail e)" "draws 0 (of_result q)" "draws 0 (db_query g)" "draws 0 (db_exec h)"
  "draws 1 (db_insert f)" "draws 1 uuid_New" "draws 0 (tx_call p)" "draws 0 (tx_commit w0 x)"
  by (auto simp: draws_def ret_def fail_def of_result_def db_query_def db_exec_def db_insert_def db_stmt_def
      next_call_def draw_uuid_def uuid_New_def tx_call_def tx_commit_def rollback_def
      split: fault.splits sum.splits prod.splits)

lemma draws_map_err: "draws k f \<Longrightarrow> draws k (map_err h f)"
  unfolding draws_def map_err_def by (auto split: prod.splits sum.splits) (metis snd_conv)+

lemma draws_and_then: "draws j f \<Longrightarrow> (\<And>x. draws k (g x)) \<Longrightarrow> draws (j + k) (and_then f g)"
  unfolding draws_def and_then_def
  by (auto split: prod.splits sum.splits) (metis add.assoc add_le_mono1 le_trans snd_conv trans_le_add1)+

lemma draws_handle: "draws j f \<Longrightarrow> (\<And>x. draws k (g x)) \<Longrightarrow> (\<And>e. draws k (h e)) \<Longrightarrow> draws (j + k) (handle f g h)"
  unfolding draws_def handle_def
  by (auto split: prod.splits sum.splits) (metis add.assoc add_le_mono1 le_trans snd_conv)+

lemma draws_then_left: "draws k f \<Longrightarrow> (\<And>x. draws 0 (g x)) \<Longrightarrow> draws k (and_then f g)"
  using draws_and_then [of k f 0 g] by simp

lemma draws_then_right: "draws 0 f \<Longrightarrow> (\<And>x. draws k (g x)) \<Longrightarrow> draws k (and_then f g)"
  using draws_and_then [of 0 f k g] by simp

lemma draws_handle_left:
  "draws k f \<Longrightarrow> (\<And>x. draws 0 (g x)) \<Longrightarrow> (\<And>e. draws 0 (h e)) \<Longrightarrow> draws k (handle f g h)"
  using draws_handle [of k f 0 g h] by simp

lemma draws_case_prod: "(\<And>a b. draws k (f a b)) \<Longrightarrow> draws k (case p of (a, b) \<Rightarrow> f a b)"
  by (cases p) simp

lemma draws_withTenantTx:
  assumes "\<And>s t. draws k (fn s t)"
  shows "draws k (withTenantTx ctx fn)"
  unfolding draws_def
proof
  fix w
  have c: "tx_call p v = (q, v') \<Longrightarrow> w_drawn v' = w_drawn v" for p v q v'
    by (auto simp: tx_call_def next_call_def split: fault.splits)
  have f: "fn s t v = (q, v') \<Longrightarrow> w_drawn v' \<le> w_drawn v + k" for s t v q v'
    using drawsD [OF assms] .
  have m: "w_drawn (snd (tx_commit w0 x v)) = w_drawn v" for w0 v and x :: 'a
    by (auto simp: tx_commit_def next_call_def rollback_def split: fault.splits)
  show "w_drawn (snd (withTenantTx ctx fn w)) \<le> w_drawn w + k"
    by (auto simp: withTenantTx_def run_tx_def rollback_def m split: sum.splits prod.splits dest!: c f)
qed

lemma draws_associate: "draws 0 (associate_tags X s t i ids)"
proof (induction ids)
  case (Cons j ids)
  from draws_and_then [OF draws_map_err [OF draws_basic(5)] Cons] show ?case by simp
qed (simp add: draws_basic)

lemma draws_MediaCreate: "draws 1 (MediaRepo_Create X ctx m ids)"
proof -
  have "draws 0 (and_then (associate_tags X s t i ids)
      (\<lambda>_. and_then (map_err (\<lambda>e. Errorf ''query media tags: '' e '''') (db_query (sql_media_tags X s t i)))
        (\<lambda>ts. ret (m\<lparr>media_ID := i, media_CreatedAt := c, media_Tags := ts\<rparr>))))" for s t i c
    using draws_and_then [OF draws_associate draws_and_then [OF draws_map_err [OF draws_basic(4)] draws_basic(1)]]
    by simp
  then have "draws 1 (MediaCreate_tx X m ids s t)" for s t
    unfolding MediaCreate_tx_def
    by (intro draws_then_left draws_map_err draws_basic) (auto split: prod.split)
  then show ?thesis unfolding MediaRepo_Create_def by (rule draws_withTenantTx)
qed

section \<open>Forward runs\<close>

lemma associate_no_faults:
  assumes "no_faults w" "distinct ids" "rls s t" "i \<in> md_id ` set (media (w_db w))"
    and "\<And>j. j \<in> set ids \<Longrightarrow> (i, j) \<notin> mt_key ` set (media_tags (w_db w))"
  shows "\<exists>w'. associate_tags X s t i ids w = (Inr (), w') \<and> no_faults w' \<and> tags (w_db w') = tags (w_db w)"
  using assms
proof (induction ids arbitrary: w)
  case Nil
  then show ?case by (simp add: ret_def)
next
  case (Cons j ids)
  obtain n d where d: "sql_insert_link s t i j (w_db w) = Inr (n, d)"
    and same: "media d = media (w_db w)" "tags d = tags (w_db w)"
    and keys: "mt_key ` set (media_tags d) \<subseteq> insert (i, j) (mt_key ` set (media_tags (w_db w)))"
  proof (cases "\<exists>r \<in> set (tags (w_db w)). rls s (tg_tenant r) \<and> tg_id r = j \<and> tg_tenant r = t")
    case True
    have k: "(i, j) \<notin> mt_key ` set (media_tags (w_db w))" using Cons.prems(5) by simp
    let ?d = "(w_db w)\<lparr>media_tags := media_tags (w_db w) @ [\<lparr>mt_tenant = t, mt_media = i, mt_tag = j\<rparr>]\<rparr>"
    have "sql_insert_link s t i j (w_db w) = Inr (1, ?d)"
      using True Cons.prems(3,4) k by (simp add: sql_insert_link_def)
    then show thesis by (rule that) (auto simp: mt_key_def)
  next
    case False
    then show thesis by (intro that [of 0 "w_db w"]) (auto simp: sql_insert_link_def)
  qed
  let ?w = "w\<lparr>w_calls := Suc (w_calls w), w_db := d\<rparr>"
  have run: "map_err h (db_exec (\<lambda>_. sql_insert_link s t i j)) w = (Inr n, ?w)" for h
    using Cons.prems(1) d by (simp add: db_exec_no_faults)
  have "\<exists>w'. associate_tags X s t i ids ?w = (Inr (), w') \<and> no_faults w' \<and> tags (w_db w') = tags (w_db ?w)"
  proof (rule Cons.IH)
    fix l assume "l \<in> set ids"
    then have "l \<noteq> j" "(i, l) \<notin> mt_key ` set (media_tags (w_db w))" using Cons.prems(2,5) by auto
    with keys have "(i, l) \<notin> mt_key ` set (media_tags d)" by blast
    then show "(i, l) \<notin> mt_key ` set (media_tags (w_db ?w))" by simp
  qed (use Cons.prems same in simp_all)
  then show ?case using same by (auto simp: and_then_def run)
qed

lemma media_create_succeeds:
  assumes nf: "no_faults w" and t: "TenantIDFromContext ctx = Inr t" "is_tenant (w_db w) t" and inv: "db_inv (w_db w)"
    and ids: "distinct ids" and u: "w_uuids w (w_drawn w) \<notin> md_id ` set (media (w_db w))"
  shows "\<exists>m' w'. MediaRepo_Create X ctx m ids w = (Inr m', w') \<and> media_CreatedAt m' = w_clock w
    \<and> set (media_Tags m') \<subseteq> tag_of_row ` set (tags (w_db w))"
proof -
  let ?s = "tenant_session w t" and ?u = "w_uuids w (w_drawn w)"
  have links: "(?u, j) \<notin> mt_key ` set (media_tags (w_db w))" for j
  proof
    assume "(?u, j) \<in> mt_key ` set (media_tags (w_db w))"
    then obtain l where "l \<in> set (media_tags (w_db w))" "mt_media l = ?u" by (auto simp: mt_key_def)
    with db_inv_D(7) [OF inv] u show False unfolding link_ok_def by (metis image_eqI)
  qed
  obtain d where d: "sql_insert_media ?s t m ?u (w_clock w) (w_db w) = Inr ((?u, w_clock w), d)"
    and dm: "?u \<in> md_id ` set (media d)" "media_tags d = media_tags (w_db w)" "tags d = tags (w_db w)"
    using t(2) u by (simp add: sql_insert_media_def)
  let ?w1 = "(in_tx w)\<lparr>w_calls := Suc (w_calls (in_tx w)), w_drawn := Suc (w_drawn w), w_db := d\<rparr>"
  have i: "map_err h (db_insert (sql_insert_media ?s t m)) (in_tx w) = (Inr (?u, w_clock w), ?w1)" for h
    using nf d by (simp add: db_insert_no_faults)
  obtain w2 where a: "associate_tags X ?s t ?u ids ?w1 = (Inr (), w2)" "no_faults w2" "tags (w_db w2) = tags (w_db w)"
    using associate_no_faults [of ?w1 ids ?s t ?u X] nf ids dm links by auto
  let ?m = "m\<lparr>media_ID := ?u, media_CreatedAt := w_clock w, media_Tags := sql_media_tags X ?s t ?u (w_db w2)\<rparr>"
  obtain w3 where run: "MediaCreate_tx X m ids ?s t (in_tx w) = (Inr ?m, w3)"
    using i a by (simp add: MediaCreate_tx_def and_then_def map_err_def db_query_no_faults ret_def)
  have "set (media_Tags ?m) \<subseteq> tag_of_row ` set (tags (w_db w))"
    by (auto simp: sql_media_tags_def a(3) split: if_splits)
  with withTenantTx_no_faults [where fn = "MediaCreate_tx X m ids", OF nf db_op_MediaRepo_tx(1) t(1) run]
  show ?thesis by (auto simp: MediaRepo_Create_def)
qed

text \<open>The local storage, when no call fails.\<close>

lemma local_save_succeeds:
  assumes X: "uuid_string_spec (x_uuid_string X)" and e: "plain_ext e" and t: "TenantIDFromContext ctx = Inr t"
    and nf: "no_faults w"
  shows "\<exists>p w'. Local_Save X s ctx c e w = (Inr p, w') \<and> w_drawn w' = Suc (w_drawn w) \<and> no_faults w'
    \<and> w_db w' = w_db w \<and> w_uuids w' = w_uuids w \<and> w_clock w' = w_clock w"
proof -
  let ?p = "local_path X t (w_uuids w (w_drawn w)) e" and ?w = "w\<lparr>w_drawn := Suc (w_drawn w)\<rparr>"
  obtain d where d: "Local_Save X s ctx c e w = save_calls d ?p (full_path s ?p) c ?w"
    using Local_Save_eq [OF X e t] by blast
  obtain w' where r: "save_calls d ?p (full_path s ?p) c ?w = (Inr ?p, w')"
    using save_calls_no_faults [of ?w d ?p "full_path s ?p" c] nf by auto
  have "file_only (full_path s ?p) ?w w'" using file_opD [OF file_op_save_calls r] .
  with d r nf show ?thesis by (auto simp: file_only_iff no_faults_def)
qed

lemma draws_local_save: "draws 1 (Local_Save X s ctx c e)"
  unfolding draws_def
proof
  fix w
  show "w_drawn (snd (Local_Save X s ctx c e w)) \<le> w_drawn w + 1"
  proof (cases "TenantIDFromContext ctx")
    case (Inl x)
    then show ?thesis by (simp add: Local_Save_def and_then_def of_result_def)
  next
    case (Inr t)
    obtain d r where "Local_Save X s ctx c e w = save_calls d r (full_path s r) c (w\<lparr>w_drawn := Suc (w_drawn w)\<rparr>)"
      using Local_Save_calls [OF Inr] by blast
    then obtain q w' where q: "save_calls d r (full_path s r) c (w\<lparr>w_drawn := Suc (w_drawn w)\<rparr>) = (q, w')"
      "Local_Save X s ctx c e w = (q, w')" by (metis surj_pair)
    with file_opD [OF file_op_save_calls q(1)] show ?thesis by (simp add: file_only_iff)
  qed
qed

section \<open>Uploads\<close>

definition pg_service :: "Ext \<Rightarrow> LocalStorage \<Rightarrow> string \<Rightarrow> World MediaService" where
  "pg_service X s b = NewMediaService (PostgresMediaRepo X) (PostgresTagRepo X) (LocalFileStorage X s) b"

lemma pg_service_sel [simp]:
  "ms_repo (pg_service X s b) = PostgresMediaRepo X" "ms_tagRepo (pg_service X s b) = PostgresTagRepo X"
  "ms_storage (pg_service X s b) = LocalFileStorage X s"
  by (simp_all add: pg_service_def NewMediaService_def)

lemma draws_CreateOrGet: "draws 1 (TagRepo_CreateOrGet ctx n)"
proof -
  have q: "draws k (QueryRow f)" if "draws k f" for k and f :: "(World, goerr, 'b option) op"
    unfolding QueryRow_def using that by (intro draws_then_left) (auto simp: draws_basic split: option.split)
  have "draws 1 (CreateOrGet_tx n s t)" for s t
    unfolding CreateOrGet_tx_def
    by (intro draws_handle_left q draws_basic) (auto intro!: draws_basic q draws_handle_left)
  then show ?thesis unfolding TagRepo_CreateOrGet_def by (rule draws_withTenantTx)
qed

lemma draws_resolve: "draws (length names) (resolve_names X (PostgresTagRepo X) ctx names)"
proof (induction names)
  case (Cons n names)
  have "draws (1 + length names) (and_then (map_err h (TagRepo_CreateOrGet ctx z)) (\<lambda>(tag, _).
     and_then (resolve_names X (PostgresTagRepo X) ctx names) (\<lambda>ids. ret (tag_ID tag # ids))))" for h z
    by (intro draws_and_then draws_map_err draws_CreateOrGet draws_case_prod draws_then_left [OF Cons] draws_basic)
  note one = this
  have "draws (Suc (length names)) (resolve_names X (PostgresTagRepo X) ctx (n # names))"
    unfolding resolve_names.simps PostgresTagRepo_sel
    by (rule draws_then_right, rule draws_basic) (use one in \<open>simp only: plus_1_eq_Suc\<close>)
  then show ?case by simp
qed (simp add: draws_basic)

text \<open>An upload draws at most one id per tag name, one for the file and one for the row.\<close>

lemma draws_upload: "draws (length (ci_TagNames input) + 2) (MediaService_Create X (pg_service X s b) ctx input)"
proof -
  have d: "draws 0 (Local_Delete s ctx p)" for p
    using draws_map_err [of 0 "os_call (remove_file p)"]
    by (auto simp: Local_Delete_def Let_def draws_def map_err_def os_call_def next_call_def remove_file_def split: fault.split)
  have i: "draws 1 (insert_or_undo (pg_service X s b) ctx m ids)" for m ids
    unfolding insert_or_undo_def pg_service_sel PostgresMediaRepo_sel LocalFileStorage_sel
    by (intro draws_handle_left draws_MediaCreate draws_basic d)
  have "draws (1 + 1) (and_then (map_err h (Local_Save X s ctx c e)) (\<lambda>p. insert_or_undo (pg_service X s b) ctx (m p) ids))"
    for h c e m ids
    by (intro draws_and_then draws_map_err draws_local_save i)
  note two = this
  have t: "draws 2 (and_then (of_result q) (\<lambda>(ty, ext). and_then (map_err h (Local_Save X s ctx c ext))
      (\<lambda>p. insert_or_undo (pg_service X s b) ctx (m ty p) ids)))" for q h c m ids
    by (rule draws_then_right, rule draws_basic, rule draws_case_prod) (use two in \<open>simp only: one_add_one\<close>)
  show ?thesis
    unfolding MediaService_Create_def Let_def pg_service_sel LocalFileStorage_sel
  proof (intro draws_then_right draws_basic)
    fix name
    show "draws (length (ci_TagNames input) + 2)
        (if maxTagsPerMedia < length (ci_TagIDs input) + length (ci_TagNames input) then fail too_many_tags
         else and_then (resolve_names X (PostgresTagRepo X) ctx (ci_TagNames input)) (\<lambda>ids.
           and_then (of_result (classifyContentType (ci_ContentType input) (ci_FileName input))) (\<lambda>(ty, ext).
             and_then (map_err (\<lambda>e. Errorf ''save file to storage: '' e '''') (Local_Save X s ctx (ci_File input) ext))
               (\<lambda>p. insert_or_undo (pg_service X s b) ctx (new_media name ty p input)
                 (deduplicateUUIDs (ci_TagIDs input @ ids))))))"
      using draws_mono [OF draws_basic(2)] draws_and_then [OF draws_resolve t] by auto
  qed
qed

text \<open>A valid upload of a tenant, by tag ids, succeeds when the file is saved and no later call fails.\<close>

lemma upload_succeeds_on:
  assumes sv: "ms_repo sv = PostgresMediaRepo X" "ms_tagRepo sv = PostgresTagRepo X"
    and saved: "fs_Save (ms_storage sv) ctx (ci_File input) e w = (Inr p, w1)" "no_faults w1" "w_db w1 = w_db w"
    and inv: "db_inv (w_db w)" and t: "TenantIDFromContext ctx = Inr t" "is_tenant (w_db w) t"
    and name: "SanitizeName (x_nfc X) (ci_Name input) = Inr name"
    and ty: "classifyContentType (ci_ContentType input) (ci_FileName input) = Inr (ty, e)"
    and ids: "length (ci_TagIDs input) \<le> maxTagsPerMedia" "ci_TagNames input = []"
    and u: "w_uuids w1 (w_drawn w1) \<notin> md_id ` set (media (w_db w))"
  shows "\<exists>m w'. MediaService_Create X sv ctx input w = (Inr m, w') \<and> media_CreatedAt m = w_clock w1
    \<and> set (media_Tags m) \<subseteq> tag_of_row ` set (tags (w_db w)) \<and> w_drawn w' \<le> w_drawn w1 + 1"
proof -
  let ?ids = "deduplicateUUIDs (ci_TagIDs input)"
  have "distinct ?ids" by simp
  then obtain m w2 where 2: "MediaRepo_Create X ctx (new_media name ty p input) ?ids w1 = (Inr m, w2)"
    "media_CreatedAt m = w_clock w1" "set (media_Tags m) \<subseteq> tag_of_row ` set (tags (w_db w))"
    using media_create_succeeds [of w1 ctx t ?ids X "new_media name ty p input"] saved t inv u by auto
  have "w_drawn w2 \<le> w_drawn w1 + 1" by (rule drawsD [OF draws_MediaCreate 2(1)])
  with saved(1) 2 name ty ids sv show ?thesis
    by (simp add: MediaService_Create_def and_then_def of_result_def ret_def map_err_def insert_or_undo_def handle_def)
qed

lemma upload_succeeds:
  assumes X: "uuid_string_spec (x_uuid_string X)" and nf: "no_faults w" and inv: "db_inv (w_db w)"
    and t: "TenantIDFromContext ctx = Inr t" "is_tenant (w_db w) t"
    and name: "SanitizeName (x_nfc X) (ci_Name input) = Inr name"
    and ty: "classifyContentType (ci_ContentType input) (ci_FileName input) = Inr (ty, e)"
    and ids: "length (ci_TagIDs input) \<le> maxTagsPerMedia" "ci_TagNames input = []"
    and u: "w_uuids w (Suc (w_drawn w)) \<notin> md_id ` set (media (w_db w))"
  shows "\<exists>m w'. MediaService_Create X (pg_service X s b) ctx input w = (Inr m, w') \<and> media_CreatedAt m = w_clock w
    \<and> set (media_Tags m) \<subseteq> tag_of_row ` set (tags (w_db w))"
proof -
  have e: "plain_ext e" using classify_Inr [OF ty] by (intro plain_exts) auto
  obtain p w1 where 1: "Local_Save X s ctx (ci_File input) e w = (Inr p, w1)" "w_drawn w1 = Suc (w_drawn w)"
    "no_faults w1" "w_db w1 = w_db w" "w_uuids w1 = w_uuids w" "w_clock w1 = w_clock w"
    using local_save_succeeds [OF X e t(1) nf] by blast
  have "fs_Save (ms_storage (pg_service X s b)) ctx (ci_File input) e w = (Inr p, w1)" using 1(1) by simp
  from upload_succeeds_on [OF pg_service_sel(1,2) this 1(3,4) inv t name ty ids] u 1 show ?thesis by auto
qed

lemma s3_save_succeeds:
  assumes "TenantIDFromContext ctx = Inr t" "no_faults w"
  shows "\<exists>p w'. S3_Save X s ctx c e w = (Inr p, w') \<and> w_drawn w' = Suc (w_drawn w) \<and> no_faults w' \<and> w_db w' = w_db w"
  using assms
  by (simp add: S3_Save_def and_then_def of_result_def uuid_New_def draw_uuid_def Let_def map_err_def ret_def
      os_call_no_faults put_object_def)
    (simp add: no_faults_def)

end
