(* ===== verification/Media_Listing.thy ===== *)
theory Media_Listing
  imports Media_Service
begin

text \<open>
  Listing through the media service: the opaque cursors, the bounds of a page and the clean-up of
  the filter, over the PostgreSQL repository.
\<close>

definition media_text_ready :: "Ext \<Rightarrow> uuid \<Rightarrow> db \<Rightarrow> Ctx \<Rightarrow> MediaFilter \<Rightarrow> nat \<Rightarrow> World \<Rightarrow> bool" where
  "media_text_ready X t d ctx f limit w \<longleftrightarrow>
     media_list_ready t d ctx f limit w \<and> uuid_text_spec X \<and> time_text_spec X
     \<and> (\<forall>r \<in> set (media d). json_time (md_created r))"

lemma listed_sub: "set (listed t d f) \<subseteq> set (media d)"
  by (auto simp: listed_def)

interpretation media_texts: text_keyset "media_text_ready X t d ctx f limit" "\<lambda>w. all_media X t (w_db w) f" media_key
  cursor_of_media media_cursor_key limit "\<lambda>c. MediaRepo_List X ctx limit c f" "EncodeMediaCursor X" "DecodeMediaCursor X"
  for X t d ctx f limit
proof
  fix w r c assume g: "media_text_ready X t d ctx f limit w"
  then have ready: "media_list_ready t d ctx f limit w" and X: "uuid_text_spec X" "time_text_spec X"
    by (simp_all add: media_text_ready_def)
  show "0 < limit" by (rule media_pages.pos [OF ready])
  show "sorted_wrt (<) (map media_key (all_media X t (w_db w) f))" by (rule media_pages.strict [OF ready])
  show "\<exists>w'. MediaRepo_List X ctx limit c f w =
      (Inr (page limit cursor_of_media
         (take (Suc limit) (after media_key media_cursor_key c (all_media X t (w_db w) f)))), w')
    \<and> media_text_ready X t d ctx f limit w' \<and> all_media X t (w_db w') f = all_media X t (w_db w) f"
    using media_pages.fetch_page [OF ready, of X c] g by (auto simp: media_text_ready_def)
  assume r: "r \<in> set (all_media X t (w_db w) f)"
  have "w_db w = d" using ready by (simp add: media_list_ready_def)
  then have time: "json_time (mc_CreatedAt (cursor_of_media r))"
    using r g listed_sub [of t d f]
    by (auto simp: all_media_def media_text_ready_def media_cursor_of_def)
  then show "DecodeMediaCursor X (EncodeMediaCursor X (Some (cursor_of_media r))) = Inr (Some (cursor_of_media r))"
    using X by (intro media_cursor_roundtrip) auto
  show "EncodeMediaCursor X (Some (cursor_of_media r)) \<noteq> []"
    using time by (subst encode_media_eq_Nil) auto
qed (simp_all add: EncodeMediaCursor_def DecodeMediaCursor_def media_pages.cursor_key)

text \<open>The filter the repository sees.\<close>

definition clean_filter :: "MediaFilter \<Rightarrow> string list \<Rightarrow> MediaFilter" where
  "clean_filter f names = \<lparr>mf_TagIDs = deduplicateUUIDs (mf_TagIDs f), mf_TagNames = names\<rparr>"

lemma MediaService_List_page:
  assumes "length (mf_TagIDs f) \<le> maxFilterTags" "length (mf_TagNames f) \<le> maxFilterTags"
    and "normalize_names X {} (mf_TagNames f) = Inr names"
  shows "MediaService_List X (NewMediaService (PostgresMediaRepo X) tr st b) ctx l c f w
    = text_page (DecodeMediaCursor X) (EncodeMediaCursor X)
        (\<lambda>c. MediaRepo_List X ctx (clamp_limit l) c (clean_filter f names)) c w"
  using assms
  by (cases "DecodeMediaCursor X c")
    (simp_all add: MediaService_List_def text_page_def NewMediaService_def PostgresMediaRepo_def clean_filter_def
      and_then_def of_result_def)

lemma follow_text_cong: "(\<And>s w. f s w = g s w) \<Longrightarrow> follow_text n f s w = follow_text n g s w"
  by (metis ext)

lemma media_service_listing:
  assumes "db_inv (w_db w)" "no_faults w" "TenantIDFromContext ctx = Inr t" "uuid_text_spec X" "time_text_spec X"
    and "\<forall>r \<in> set (media (w_db w)). json_time (md_created r)"
    and f: "length (mf_TagIDs f) \<le> maxFilterTags" "length (mf_TagNames f) \<le> maxFilterTags"
      "normalize_names X {} (mf_TagNames f) = Inr names"
    and "length (media (w_db w)) < fuel"
  shows "\<exists>w'. follow_text fuel (\<lambda>c. MediaService_List X (NewMediaService (PostgresMediaRepo X) tr st b) ctx l c f) [] w
      = (Inr (Some (all_media X t (w_db w) (clean_filter f names))), w')"
proof -
  let ?f = "clean_filter f names"
  have "filter_distinct ?f"
    using normalize_names_Inr [OF f(3)] by (simp add: filter_distinct_def clean_filter_def)
  then have "media_text_ready X t (w_db w) ctx ?f (clamp_limit l) w"
    using assms clamp_limit_bounds [of l] by (simp add: media_text_ready_def media_list_ready_def)
  from media_texts.follow_text_all [OF this, of fuel]
  have "\<exists>w'. follow_text fuel (text_page (DecodeMediaCursor X) (EncodeMediaCursor X)
      (\<lambda>c. MediaRepo_List X ctx (clamp_limit l) c ?f)) [] w = (Inr (Some (all_media X t (w_db w) ?f)), w')"
    using assms(10) by (auto simp: all_media_def listed_def intro: le_less_trans [OF length_filter_le])
  then show ?thesis
    by (subst follow_text_cong [OF MediaService_List_page [OF f]])
qed

text \<open>What a request is refused for, before any query.\<close>

lemma MediaService_List_rejects:
  assumes "MediaService_List X s ctx l c f w = (r, w')"
    and "(\<exists>e. DecodeMediaCursor X c = Inl e) \<or> maxFilterTags < length (mf_TagIDs f) \<or> maxFilterTags < length (mf_TagNames f)
      \<or> (\<exists>e. normalize_names X {} (mf_TagNames f) = Inl e)"
  shows "\<exists>e. r = Inl e \<and> errors_is e ErrValidation \<and> w' = w"
proof (cases "DecodeMediaCursor X c")
  case (Inl e)
  with assms(1) decode_cursor_error(2) show ?thesis by (auto simp: MediaService_List_def and_then_def of_result_def)
next
  case (Inr c')
  with assms normalize_names_Inl show ?thesis
    by (auto simp: MediaService_List_def and_then_def of_result_def fail_def split: if_splits sum.splits)
qed

end
