(* ===== verification/Demo_Text.thy ===== *)
theory Demo_Text
  imports Demo Cursor Storage
begin

text \<open>
  Concrete external functions that meet their documented behaviour, for the witnesses: UUIDs and
  instants written in base 16 with the letters a to p, and a world whose ids are numbered.
\<close>

section \<open>Numbers in letters\<close>

fun digits16 :: "nat \<Rightarrow> nat \<Rightarrow> nat list" where
  "digits16 0 n = []"
| "digits16 (Suc k) n = n mod 16 # digits16 k (n div 16)"

fun value16 :: "nat list \<Rightarrow> nat" where
  "value16 [] = 0"
| "value16 (d # ds) = d + 16 * value16 ds"

lemma value16_digits: "n < 16 ^ k \<Longrightarrow> value16 (digits16 k n) = n"
  by (induction k arbitrary: n) (simp_all add: less_mult_imp_div_less mult.commute)

lemma length_digits16 [simp]: "length (digits16 k n) = k"
  by (induction k arbitrary: n) simp_all

lemma digits16_range: "d \<in> set (digits16 k n) \<Longrightarrow> d < 16"
  by (induction k arbitrary: n) auto

definition letter :: "nat \<Rightarrow> char" where
  "letter d = char_of (97 + d)"

definition unletter :: "char \<Rightarrow> nat" where
  "unletter c = of_char c - 97"

definition letters :: "nat \<Rightarrow> nat \<Rightarrow> string" where
  "letters k n = map letter (digits16 k n)"

definition read_letters :: "string \<Rightarrow> nat" where
  "read_letters s = value16 (map unletter s)"

lemma code_letter: "d < 16 \<Longrightarrow> (of_char (letter d) :: nat) = 97 + d"
  by (simp add: letter_def)

lemma unletter_letter: "d < 16 \<Longrightarrow> unletter (letter d) = d"
  by (simp add: unletter_def code_letter)

lemma read_letters: "n < 16 ^ k \<Longrightarrow> read_letters (letters k n) = n"
proof -
  have "map unletter (letters k n) = digits16 k n"
    using digits16_range by (auto simp: letters_def unletter_letter intro!: map_idI)
  then show "n < 16 ^ k \<Longrightarrow> ?thesis" by (simp add: read_letters_def value16_digits)
qed

lemma letters_range: "c \<in> set (letters k n) \<Longrightarrow> 97 \<le> (of_char c :: nat) \<and> (of_char c :: nat) < 113"
  using digits16_range by (force simp: letters_def code_letter)

lemma letters_plain: "list_all plain_char (letters k n)"
  using letters_range by (fastforce simp: list_all_iff plain_char_def)

section \<open>The external functions\<close>

definition text_ext :: Ext where
  "text_ext = demo_ext\<lparr>
     x_uuid_string := (\<lambda>u. letters 36 (unat u)),
     x_uuid_parse := (\<lambda>s. if length s = 36 then Some (word_of_nat (read_letters s)) else None),
     x_time_text := (\<lambda>t. letters 20 (nat (t - zero_time + 1000000000000000))),
     x_time_parse := (\<lambda>s. Some (int (read_letters s) + zero_time - 1000000000000000))\<rparr>"

lemma uuid_lt: "unat (u :: uuid) < 16 ^ 36"
proof -
  have "unat u < 2 ^ 128" using unsigned_less [of u] by simp
  then show ?thesis by simp
qed

lemma text_uuid: "read_letters (letters 36 (unat (u :: uuid))) = unat u"
  by (rule read_letters) (rule uuid_lt)

lemma text_ext_sel:
  "x_uuid_string text_ext u = letters 36 (unat u)"
  "x_uuid_parse text_ext s = (if length s = 36 then Some (word_of_nat (read_letters s)) else None)"
  "x_time_text text_ext t = letters 20 (nat (t - zero_time + 1000000000000000))"
  "x_time_parse text_ext s = Some (int (read_letters s) + zero_time - 1000000000000000)"
  "x_nfc text_ext = (\<lambda>rs. rs)" "x_sniff text_ext s = ''image/png''" "x_collate text_ext = map of_char"
  "x_sha256_hex text_ext s = s"
  by (simp_all add: text_ext_def demo_ext_def)

lemma length_letters [simp]: "length (letters k n) = k"
  by (simp add: letters_def)

lemma text_ext_uuid_text [simp]: "uuid_text_spec text_ext"
  by (simp add: uuid_text_spec_def text_ext_sel text_uuid letters_plain)

lemma text_ext_uuid_string [simp]: "uuid_string_spec (x_uuid_string text_ext)"
  unfolding uuid_string_spec_def
proof (intro conjI allI)
  show "inj (x_uuid_string text_ext)"
    by (rule injI) (metis text_ext_sel(1) unsigned_word_eqI text_uuid)
  fix u
  show "length (x_uuid_string text_ext u) = 36" by (simp add: text_ext_sel)
  have "c \<in> set (x_uuid_string text_ext u) \<Longrightarrow> 97 \<le> (of_char c :: nat)" for c
    using letters_range by (simp add: text_ext_sel)
  then show "CHR ''/'' \<notin> set (x_uuid_string text_ext u)" "CHR ''.'' \<notin> set (x_uuid_string text_ext u)"
    by (force simp: of_char_def)+
qed

lemma text_ext_time_text [simp]: "time_text_spec text_ext"
  unfolding time_text_spec_def
proof (intro allI impI)
  fix t assume t: "json_time t"
  have "read_letters (letters 20 (nat (t - zero_time + 1000000000000000))) = nat (t - zero_time + 1000000000000000)"
    using t by (intro read_letters) (simp add: json_time_def zero_time_def nat_less_iff)
  then show "x_time_parse text_ext (x_time_text text_ext t) = Some t \<and> list_all plain_char (x_time_text text_ext t)"
    using t by (simp add: text_ext_sel letters_plain json_time_def zero_time_def)
qed

section \<open>The world\<close>

text \<open>The state of \<open>Demo\<close>, with the ids 100, 101 and so on.\<close>

definition text_world :: World where
  "text_world = demo_world\<lparr>w_uuids := (\<lambda>n. word_of_nat (100 + n))\<rparr>"

lemma text_world_sel [simp]:
  "w_db text_world = demo_db" "w_disk text_world = Map.empty" "w_objects text_world = Map.empty"
  "w_clock text_world = 50" "w_drawn text_world = 0" "w_calls text_world = 0" "w_faults text_world k n = NoFault"
  "w_uuids text_world n = word_of_nat (100 + n)" "\<not> w_bypass_rls text_world"
  by (simp_all add: text_world_def demo_world_def)

lemma text_world_no_faults [simp]: "no_faults text_world" "\<not> lost_ack text_world"
  by (simp_all add: no_faults_def lost_ack_def)

definition text_store :: LocalStorage where
  "text_store = \<lparr>ls_basePath = ''/data''\<rparr>"

lemma text_store_ready [simp]: "local_ready 1000 text_ext text_store text_world"
proof -
  have "base_ok text_store"
    unfolding base_ok_def by (rule exI [of _ "[''data'']"]) (simp add: text_store_def abs_path_def good_seg_def)
  moreover have "fresh_ids 1000 text_world"
  proof -
    have "m = n" if "m < 1000" "n < 1000" "word_of_nat (100 + m) = (word_of_nat (100 + n) :: uuid)" for m n :: nat
      using that by (simp add: word_of_nat_eq_iff take_bit_nat_eq_self del: of_nat_add)
    then show ?thesis unfolding fresh_ids_def inj_on_def text_world_sel lessThan_iff by blast
  qed
  ultimately show ?thesis by (simp add: local_ready_def local_inv_def)
qed

end
