(* ===== verification/Http.thy ===== *)
theory Http
  imports Go_Json Domain
begin

text \<open>
  The part of \<^verbatim>\<open>net/http\<close> the adapter works with: requests, the response writer with its
  rule that the first status wins, handlers and middleware, and the JSON responses of
  \<^verbatim>\<open>handler/response.go\<close>.
\<close>

section \<open>Requests\<close>

text \<open>
  One part of a multipart form that carries a file; the flags say whether opening, reading and
  rewinding it works.
\<close>

record FileHeader =
  fh_Filename :: string
  fh_Size :: int
  fh_Content :: string
  fh_opens :: bool
  fh_reads :: bool
  fh_seeks :: bool

record Form =
  fm_Value :: "string \<Rightarrow> string list"
  fm_File :: "string \<Rightarrow> FileHeader list"

text \<open>
  \<open>rq_Query\<close>: the parsed query string.  \<open>rq_Multipart n\<close>: what parsing the body as a multipart
  form yields when at most \<open>n\<close> bytes may be read: the error's text or the form.  \<open>rq_Params\<close>:
  the parameters of the matched route.
\<close>

record Request =
  rq_Method :: string
  rq_Path :: string
  rq_Query :: "string \<Rightarrow> string list"
  rq_Header :: "string \<Rightarrow> string"
  rq_RemoteAddr :: string
  rq_Body :: string
  rq_Multipart :: "int \<Rightarrow> string + Form"
  rq_Params :: "string \<Rightarrow> string"
  rq_Ctx :: Ctx

text \<open>\<^verbatim>\<open>url.Values.Get\<close> and \<^verbatim>\<open>Request.FormValue\<close>, where the query string comes first.\<close>

definition first_value :: "string list \<Rightarrow> string" where
  "first_value vs = (case vs of [] \<Rightarrow> [] | v # _ \<Rightarrow> v)"

definition query_get :: "Request \<Rightarrow> string \<Rightarrow> string" where
  "query_get r k = first_value (rq_Query r k)"

definition form_value :: "Request \<Rightarrow> Form \<Rightarrow> string \<Rightarrow> string" where
  "form_value r f k = first_value (rq_Query r k @ fm_Value f k)"

section \<open>The response writer\<close>

text \<open>
  \<open>wr_Sent\<close>: the status and the headers as they were when the status was written; later
  statuses are ignored.  \<open>wr_Calls\<close>: the calls in order, which the wrappers of the middleware
  look at.
\<close>

datatype wcall = CHeader int | CWrite string

record Writer =
  wr_Header :: "string \<rightharpoonup> string"
  wr_Sent :: "(int \<times> (string \<rightharpoonup> string)) option"
  wr_Body :: string
  wr_Calls :: "wcall list"

definition new_writer :: Writer where
  "new_writer = \<lparr>wr_Header = Map.empty, wr_Sent = None, wr_Body = [], wr_Calls = []\<rparr>"

definition Header_Set :: "string \<Rightarrow> string \<Rightarrow> Writer \<Rightarrow> Writer" where
  "Header_Set k v wr = wr\<lparr>wr_Header := (wr_Header wr)(k \<mapsto> v)\<rparr>"

definition send_status :: "int \<Rightarrow> Writer \<Rightarrow> Writer" where
  "send_status code wr = (case wr_Sent wr of None \<Rightarrow> wr\<lparr>wr_Sent := Some (code, wr_Header wr)\<rparr> | Some _ \<Rightarrow> wr)"

definition WriteHeader :: "int \<Rightarrow> Writer \<Rightarrow> Writer" where
  "WriteHeader code wr = send_status code (wr\<lparr>wr_Calls := wr_Calls wr @ [CHeader code]\<rparr>)"

definition Write :: "string \<Rightarrow> Writer \<Rightarrow> Writer" where
  "Write b wr =
     (let wr = send_status 200 (wr\<lparr>wr_Calls := wr_Calls wr @ [CWrite b]\<rparr>) in wr\<lparr>wr_Body := wr_Body wr @ b\<rparr>)"

text \<open>What the client gets: a handler that wrote nothing answers 200.\<close>

definition final_status :: "Writer \<Rightarrow> int" where
  "final_status wr = (case wr_Sent wr of None \<Rightarrow> 200 | Some (code, _) \<Rightarrow> code)"

definition final_header :: "Writer \<Rightarrow> string \<rightharpoonup> string" where
  "final_header wr = (case wr_Sent wr of None \<Rightarrow> wr_Header wr | Some (_, h) \<Rightarrow> h)"

section \<open>Handlers\<close>

text \<open>A handler acts on the writer and the program's state; it may end in a panic.\<close>

type_synonym 's Handler = "Request \<Rightarrow> (Writer \<times> 's, string, unit) op"

definition respond :: "(Writer \<Rightarrow> Writer) \<Rightarrow> (Writer \<times> 's, string, unit) op" where
  "respond f st = (Inr (), (f (fst st), snd st))"

text \<open>A call into the program, whose error is a value the handler looks at.\<close>

definition call :: "('s, goerr, 'a) op \<Rightarrow> (Writer \<times> 's, string, goerr + 'a) op" where
  "call f st = (case f (snd st) of (r, s') \<Rightarrow> (Inr r, (fst st, s')))"

definition modify :: "('s \<Rightarrow> 's) \<Rightarrow> (Writer \<times> 's, string, unit) op" where
  "modify f st = (Inr (), (fst st, f (snd st)))"

text \<open>A handler of a component of the state.\<close>

definition zoom :: "('s \<Rightarrow> 't) \<Rightarrow> ('t \<Rightarrow> 's \<Rightarrow> 's) \<Rightarrow> 't Handler \<Rightarrow> 's Handler" where
  "zoom get put h r st =
     (case h r (fst st, get (snd st)) of (x, (wr, t)) \<Rightarrow> (x, (wr, put t (snd st))))"

section \<open>JSON bodies\<close>

text \<open>
  \<^verbatim>\<open>json.NewDecoder(r.Body).Decode\<close>: the first value of the body; what follows it is not read.
\<close>

definition json_decode :: "string \<Rightarrow> json option" where
  "json_decode s =
     (let bs = bytes_of s in
      map_option fst (parse_value (2 * length bs + 2) 10000 bs))"

definition json_data :: "json \<Rightarrow> json" where
  "json_data v = JObj [(bytes_of ''data'', v)]"

text \<open>\<^verbatim>\<open>http.Error\<close>\<close>

definition http_Error :: "string \<Rightarrow> int \<Rightarrow> Writer \<Rightarrow> Writer" where
  "http_Error msg code wr =
     Write (msg @ [CHR 0x0A]) (WriteHeader code
       (Header_Set ''X-Content-Type-Options'' ''nosniff'' (Header_Set ''Content-Type'' ''text/plain; charset=utf-8'' wr)))"

definition json_type :: string where "json_type = ''application/json; charset=utf-8''"

text \<open>\<open>None\<close>: the value cannot be encoded.\<close>

definition writeJSON :: "int \<Rightarrow> json option \<Rightarrow> Writer \<Rightarrow> Writer" where
  "writeJSON status v wr =
     (let wr = WriteHeader status (Header_Set ''Content-Type'' json_type wr) in
      case v of
        Some j \<Rightarrow> Write (string_of (json_text j) @ [CHR 0x0A]) wr
      | None \<Rightarrow> http_Error ''failed to encode response'' 500 wr)"

definition error_body :: "string \<Rightarrow> string \<Rightarrow> json" where
  "error_body code message =
     JObj [(bytes_of ''error'', JObj [(bytes_of ''code'', JText code), (bytes_of ''message'', JText message)])]"

definition writeError :: "int \<Rightarrow> string \<Rightarrow> string \<Rightarrow> Writer \<Rightarrow> Writer" where
  "writeError status code message wr =
     Write (string_of (json_text (error_body code message)) @ [CHR 0x0A])
       (WriteHeader status (Header_Set ''Content-Type'' json_type wr))"

section \<open>Lemmas\<close>

lemma send_status_simps [simp]:
  "wr_Sent wr = None \<Longrightarrow> send_status c wr = wr\<lparr>wr_Sent := Some (c, wr_Header wr)\<rparr>"
  "wr_Sent wr = Some x \<Longrightarrow> send_status c wr = wr"
  by (simp_all add: send_status_def)

lemma Header_Set_sel [simp]:
  "wr_Sent (Header_Set k v wr) = wr_Sent wr" "wr_Body (Header_Set k v wr) = wr_Body wr"
  "wr_Calls (Header_Set k v wr) = wr_Calls wr" "wr_Header (Header_Set k v wr) = (wr_Header wr)(k \<mapsto> v)"
  by (simp_all add: Header_Set_def)

lemma WriteHeader_sel [simp]:
  "wr_Body (WriteHeader c wr) = wr_Body wr" "wr_Header (WriteHeader c wr) = wr_Header wr"
  "wr_Calls (WriteHeader c wr) = wr_Calls wr @ [CHeader c]"
  "wr_Sent (WriteHeader c wr) = (case wr_Sent wr of None \<Rightarrow> Some (c, wr_Header wr) | Some x \<Rightarrow> Some x)"
  by (cases "wr_Sent wr"; simp add: WriteHeader_def send_status_def)+

lemma Write_sel [simp]:
  "wr_Body (Write b wr) = wr_Body wr @ b" "wr_Header (Write b wr) = wr_Header wr"
  "wr_Calls (Write b wr) = wr_Calls wr @ [CWrite b]"
  "wr_Sent (Write b wr) = (case wr_Sent wr of None \<Rightarrow> Some (200, wr_Header wr) | Some x \<Rightarrow> Some x)"
  by (cases "wr_Sent wr"; simp add: Write_def send_status_def Let_def)+

text \<open>Once a status is sent, nothing changes it or the headers sent with it.\<close>

definition extends :: "Writer \<Rightarrow> Writer \<Rightarrow> bool" where
  "extends wr wr' \<longleftrightarrow>
     (\<forall>x. wr_Sent wr = Some x \<longrightarrow> wr_Sent wr' = Some x)
     \<and> (\<exists>b. wr_Body wr' = wr_Body wr @ b) \<and> (\<exists>cs. wr_Calls wr' = wr_Calls wr @ cs)"

lemma extends_refl [simp]: "extends wr wr"
  by (simp add: extends_def)

lemma extends_trans: "extends a b \<Longrightarrow> extends b c \<Longrightarrow> extends a c"
  by (auto simp: extends_def)

lemma extends_steps [intro]:
  "extends wr (Header_Set k v wr)" "extends wr (WriteHeader c wr)" "extends wr (Write b wr)"
  by (auto simp: extends_def)

lemma call_eq [simp]: "call f (wr, s) = (Inr (fst (f s)), (wr, snd (f s)))"
  by (simp add: call_def split: prod.split)

lemma respond_eq [simp]: "respond f (wr, s) = (Inr (), (f wr, s))"
  by (simp add: respond_def)

lemma modify_eq [simp]: "modify f (wr, s) = (Inr (), (wr, f s))"
  by (simp add: modify_def)

lemma writeError_status [simp]:
  "wr_Sent wr = None \<Longrightarrow> final_status (writeError status code message wr) = status"
  by (simp add: writeError_def final_status_def)

lemma writeError_body [simp]:
  "wr_Body (writeError status code message wr) = wr_Body wr @ string_of (json_text (error_body code message)) @ [CHR 0x0A]"
  by (simp add: writeError_def)

lemma writeJSON_status [simp]: "wr_Sent wr = None \<Longrightarrow> final_status (writeJSON status v wr) = status"
  by (cases v) (simp_all add: writeJSON_def final_status_def http_Error_def Let_def)

lemma writeJSON_body:
  "wr_Body (writeJSON status (Some j) wr) = wr_Body wr @ string_of (json_text j) @ [CHR 0x0A]"
  by (simp add: writeJSON_def Let_def)

end
