(* ===== verification/Dto.thy ===== *)
theory Dto
  imports Http Cursor
begin

text \<open>
  \<^verbatim>\<open>http/dto/dto.go\<close>: the bodies of requests and responses, with the JSON that the struct tags
  give them.
\<close>

section \<open>Numbers, texts and lists\<close>

fun dec_digits :: "nat \<Rightarrow> bytes" where
  "dec_digits n = (if n < 10 then [48 + n] else dec_digits (n div 10) @ [48 + n mod 10])"

declare dec_digits.simps [simp del]

definition itoa :: "int \<Rightarrow> bytes" where
  "itoa i = (if i < 0 then 45 # dec_digits (nat (- i)) else dec_digits (nat i))"

definition JInt :: "int \<Rightarrow> json" where
  "JInt i = JNum (itoa i)"

text \<open>A \<^verbatim>\<open>time.Time\<close>; a year beyond 9999 cannot be encoded.\<close>

definition time_value :: "Ext \<Rightarrow> time \<Rightarrow> json option" where
  "time_value X t = (if json_time t then Some (JText (x_time_text X t)) else None)"

definition opt_list :: "('a \<Rightarrow> json option) \<Rightarrow> 'a list \<Rightarrow> json option" where
  "opt_list f xs = map_option JArr (all_some (map f xs))"

text \<open>
  A field of type \<^verbatim>\<open>[]string\<close>: an array of strings replaces the list, where null leaves an element
  the field already had (a new one is empty); null empties the field; anything else is a type
  error.
\<close>

fun string_elems :: "string list \<Rightarrow> json list \<Rightarrow> string list option" where
  "string_elems old [] = Some []"
| "string_elems old (v # vs) =
     (let e = first_value old in
      case (case v of JStr t \<Rightarrow> Some (string_of (unquote t)) | JNull \<Rightarrow> Some e | _ \<Rightarrow> None) of
        None \<Rightarrow> None
      | Some x \<Rightarrow> map_option ((#) x) (string_elems (drop 1 old) vs))"

fun strings_field :: "string \<Rightarrow> string list \<Rightarrow> (bytes \<times> json) list \<Rightarrow> string list option" where
  "strings_field f old [] = Some old"
| "strings_field f old ((k, v) # ms) =
     (if names_field f k then
        (case v of
           JArr vs \<Rightarrow> (case string_elems old vs of None \<Rightarrow> None | Some new \<Rightarrow> strings_field f new ms)
         | JNull \<Rightarrow> strings_field f [] ms
         | _ \<Rightarrow> None)
      else strings_field f old ms)"

section \<open>Requests\<close>

record CreateTagRequest =
  ctr_Name :: string

record UpdateTagRequest =
  utr_Name :: string

record AttachTagsRequest =
  atr_Tags :: "string list"
  atr_TagNames :: "string list"

definition decode_CreateTagRequest :: "json \<Rightarrow> CreateTagRequest option" where
  "decode_CreateTagRequest v =
     (case v of
        JObj ms \<Rightarrow> map_option (\<lambda>n. \<lparr>ctr_Name = n\<rparr>) (string_field ''name'' [] ms)
      | JNull \<Rightarrow> Some \<lparr>ctr_Name = []\<rparr>
      | _ \<Rightarrow> None)"

definition decode_UpdateTagRequest :: "json \<Rightarrow> UpdateTagRequest option" where
  "decode_UpdateTagRequest v =
     (case v of
        JObj ms \<Rightarrow> map_option (\<lambda>n. \<lparr>utr_Name = n\<rparr>) (string_field ''name'' [] ms)
      | JNull \<Rightarrow> Some \<lparr>utr_Name = []\<rparr>
      | _ \<Rightarrow> None)"

definition decode_AttachTagsRequest :: "json \<Rightarrow> AttachTagsRequest option" where
  "decode_AttachTagsRequest v =
     (case v of
        JObj ms \<Rightarrow>
          (case (strings_field ''tags'' [] ms, strings_field ''tag_names'' [] ms) of
             (Some ts, Some ns) \<Rightarrow> Some \<lparr>atr_Tags = ts, atr_TagNames = ns\<rparr>
           | _ \<Rightarrow> None)
      | JNull \<Rightarrow> Some \<lparr>atr_Tags = [], atr_TagNames = []\<rparr>
      | _ \<Rightarrow> None)"

section \<open>Responses\<close>

record TagResponse =
  tgr_ID :: string
  tgr_Name :: string
  tgr_CreatedAt :: time

record PaginationResponse =
  pgr_Limit :: int
  pgr_NextCursor :: string
  pgr_HasMore :: bool

record ListTagsResponse =
  ltr_Tags :: "TagResponse list"
  ltr_Pagination :: PaginationResponse

record MediaResponse =
  mdr_ID :: string
  mdr_Name :: string
  mdr_Type :: string
  mdr_OriginalName :: string
  mdr_FileSize :: int
  mdr_FileURL :: string
  mdr_Tags :: "TagResponse list"
  mdr_CreatedAt :: time

record ListMediaResponse =
  lmr_Media :: "MediaResponse list"
  lmr_Pagination :: PaginationResponse

definition json_TagResponse :: "Ext \<Rightarrow> TagResponse \<Rightarrow> json option" where
  "json_TagResponse X t =
     map_option (\<lambda>c. JObj [(bytes_of ''id'', JText (tgr_ID t)), (bytes_of ''name'', JText (tgr_Name t)),
       (bytes_of ''createdAt'', c)]) (time_value X (tgr_CreatedAt t))"

text \<open>An empty cursor is left out (\<^verbatim>\<open>omitempty\<close>).\<close>

definition json_PaginationResponse :: "PaginationResponse \<Rightarrow> json" where
  "json_PaginationResponse p =
     JObj ([(bytes_of ''limit'', JInt (pgr_Limit p))]
       @ (if pgr_NextCursor p = [] then [] else [(bytes_of ''nextCursor'', JText (pgr_NextCursor p))])
       @ [(bytes_of ''hasMore'', JBool (pgr_HasMore p))])"

definition json_ListTagsResponse :: "Ext \<Rightarrow> ListTagsResponse \<Rightarrow> json option" where
  "json_ListTagsResponse X r =
     map_option (\<lambda>ts. JObj [(bytes_of ''tags'', ts), (bytes_of ''pagination'', json_PaginationResponse (ltr_Pagination r))])
       (opt_list (json_TagResponse X) (ltr_Tags r))"

definition json_MediaResponse :: "Ext \<Rightarrow> MediaResponse \<Rightarrow> json option" where
  "json_MediaResponse X m =
     (case (opt_list (json_TagResponse X) (mdr_Tags m), time_value X (mdr_CreatedAt m)) of
        (Some ts, Some c) \<Rightarrow>
          Some (JObj [(bytes_of ''id'', JText (mdr_ID m)), (bytes_of ''name'', JText (mdr_Name m)),
            (bytes_of ''type'', JText (mdr_Type m)), (bytes_of ''originalName'', JText (mdr_OriginalName m)),
            (bytes_of ''fileSize'', JInt (mdr_FileSize m)), (bytes_of ''fileUrl'', JText (mdr_FileURL m)),
            (bytes_of ''tags'', ts), (bytes_of ''createdAt'', c)])
      | _ \<Rightarrow> None)"

definition json_ListMediaResponse :: "Ext \<Rightarrow> ListMediaResponse \<Rightarrow> json option" where
  "json_ListMediaResponse X r =
     map_option (\<lambda>ms. JObj [(bytes_of ''media'', ms), (bytes_of ''pagination'', json_PaginationResponse (lmr_Pagination r))])
       (opt_list (json_MediaResponse X) (lmr_Media r))"

definition pagination :: "'a list \<Rightarrow> string \<Rightarrow> PaginationResponse" where
  "pagination rows nextCursor =
     \<lparr>pgr_Limit = int (length rows), pgr_NextCursor = nextCursor, pgr_HasMore = (nextCursor \<noteq> [])\<rparr>"

end
