(* ===== verification/Tag_Handler.thy ===== *)
theory Tag_Handler
  imports Dto Tag_Service
begin

text \<open>
  \<^verbatim>\<open>handler/scope.go\<close>, \<^verbatim>\<open>handler/tag_handler.go\<close> and \<^verbatim>\<open>handler/health_handler.go\<close>: the endpoints of
  the tags and the health checks.
\<close>

section \<open>Scopes\<close>

definition ScopeMediaRead :: string where "ScopeMediaRead = ''media:read''"
definition ScopeMediaWrite :: string where "ScopeMediaWrite = ''media:write''"
definition ScopeTagsRead :: string where "ScopeTagsRead = ''tags:read''"
definition ScopeTagsWrite :: string where "ScopeTagsWrite = ''tags:write''"

text \<open>What to write when the scope is missing; \<open>None\<close> when it is there.\<close>

definition requireScope :: "Request \<Rightarrow> string \<Rightarrow> (Writer \<Rightarrow> Writer) option" where
  "requireScope r scope =
     (case IdentityFromContext (rq_Ctx r) of
        None \<Rightarrow> Some (writeError 500 ''INTERNAL_ERROR'' ''auth middleware did not run'')
      | Some identity \<Rightarrow>
          if \<not> HasScope identity scope then Some (writeError 403 ''FORBIDDEN'' (''missing scope: '' @ scope))
          else None)"

text \<open>The guard every handler of the API starts with.\<close>

definition scoped :: "string \<Rightarrow> 's Handler \<Rightarrow> 's Handler" where
  "scoped scope h r = (case requireScope r scope of Some refuse \<Rightarrow> respond refuse | None \<Rightarrow> h r)"

section \<open>Tags\<close>

record 's TagHandler =
  th_service :: "'s TagService"

definition NewTagHandler :: "'s TagService \<Rightarrow> 's TagHandler" where
  "NewTagHandler svc = \<lparr>th_service = svc\<rparr>"

definition tagToResponse :: "Ext \<Rightarrow> Tag \<Rightarrow> TagResponse" where
  "tagToResponse X t = \<lparr>tgr_ID = x_uuid_string X (tag_ID t), tgr_Name = tag_Name t, tgr_CreatedAt = tag_CreatedAt t\<rparr>"

definition tag_handleError :: "goerr \<Rightarrow> Writer \<Rightarrow> Writer" where
  "tag_handleError err =
     (if errors_is err ErrValidation then writeError 400 ''VALIDATION_ERROR'' (Error err)
      else if errors_is err ErrConflict then writeError 409 ''CONFLICT'' (Error err)
      else if errors_is err ErrNotFound then writeError 404 ''NOT_FOUND'' (Error err)
      else writeError 500 ''INTERNAL_ERROR'' ''an unexpected error occurred'')"

definition wants_json :: "Request \<Rightarrow> bool" where
  "wants_json r \<longleftrightarrow> has_prefix (rq_Header r ''Content-Type'') ''application/json''"

definition not_json :: "Writer \<Rightarrow> Writer" where
  "not_json = writeError 415 ''INVALID_CONTENT_TYPE'' ''Content-Type must be application/json''"

definition bad_json :: "Writer \<Rightarrow> Writer" where
  "bad_json = writeError 400 ''INVALID_JSON'' ''request body must be valid JSON''"

text \<open>\<^verbatim>\<open>json.NewDecoder(r.Body).Decode(&req)\<close>\<close>

definition decode_body :: "(json \<Rightarrow> 'a option) \<Rightarrow> Request \<Rightarrow> 'a option" where
  "decode_body f r = (case json_decode (rq_Body r) of None \<Rightarrow> None | Some v \<Rightarrow> f v)"

definition TagHandler_Create :: "Ext \<Rightarrow> 's TagHandler \<Rightarrow> 's Handler" where
  "TagHandler_Create X h = scoped ScopeTagsWrite (\<lambda>r.
     if \<not> wants_json r then respond not_json
     else case decode_body decode_CreateTagRequest r of
       None \<Rightarrow> respond bad_json
     | Some req \<Rightarrow>
         and_then (call (TagService_Create X (th_service h) (rq_Ctx r) (ctr_Name req))) (\<lambda>res.
           case res of
             Inl err \<Rightarrow> respond (tag_handleError err)
           | Inr (tag, created) \<Rightarrow>
               respond (writeJSON (if created then 201 else 200)
                 (map_option json_data (json_TagResponse X (tagToResponse X tag))))))"

definition TagHandler_List :: "Ext \<Rightarrow> 's TagHandler \<Rightarrow> 's Handler" where
  "TagHandler_List X h = scoped ScopeTagsRead (\<lambda>r.
     let limit = fst (atoi (query_get r ''limit'')); cursor = query_get r ''cursor'' in
     and_then (call (TagService_List X (th_service h) (rq_Ctx r) limit cursor)) (\<lambda>res.
       case res of
         Inl err \<Rightarrow> respond (tag_handleError err)
       | Inr (ts, nextCursor) \<Rightarrow>
           let rs = map (tagToResponse X) ts in
           respond (writeJSON 200 (map_option json_data
             (json_ListTagsResponse X \<lparr>ltr_Tags = rs, ltr_Pagination = pagination rs nextCursor\<rparr>)))))"

definition bad_tag_id :: "Writer \<Rightarrow> Writer" where
  "bad_tag_id = writeError 400 ''VALIDATION_ERROR'' ''invalid tag ID format''"

definition TagHandler_Update :: "Ext \<Rightarrow> 's TagHandler \<Rightarrow> 's Handler" where
  "TagHandler_Update X h = scoped ScopeTagsWrite (\<lambda>r.
     case x_uuid_parse X (rq_Params r ''id'') of
       None \<Rightarrow> respond bad_tag_id
     | Some i \<Rightarrow>
         if \<not> wants_json r then respond not_json
         else case decode_body decode_UpdateTagRequest r of
           None \<Rightarrow> respond bad_json
         | Some req \<Rightarrow>
             and_then (call (TagService_Rename X (th_service h) (rq_Ctx r) i (utr_Name req))) (\<lambda>res.
               case res of
                 Inl err \<Rightarrow> respond (tag_handleError err)
               | Inr tag \<Rightarrow> respond (writeJSON 200 (map_option json_data (json_TagResponse X (tagToResponse X tag))))))"

definition TagHandler_Delete :: "Ext \<Rightarrow> 's TagHandler \<Rightarrow> 's Handler" where
  "TagHandler_Delete X h = scoped ScopeTagsWrite (\<lambda>r.
     case x_uuid_parse X (rq_Params r ''id'') of
       None \<Rightarrow> respond bad_tag_id
     | Some i \<Rightarrow>
         and_then (call (TagService_Delete (th_service h) (rq_Ctx r) i)) (\<lambda>res.
           case res of
             Inl err \<Rightarrow> respond (tag_handleError err)
           | Inr _ \<Rightarrow> respond (WriteHeader 204)))"

section \<open>Health\<close>

text \<open>\<open>ping\<close>: \<^verbatim>\<open>db.PingContext\<close>.\<close>

record 's HealthHandler =
  hh_ping :: "('s, goerr, unit) op"

definition NewHealthHandler :: "('s, goerr, unit) op \<Rightarrow> 's HealthHandler" where
  "NewHealthHandler ping = \<lparr>hh_ping = ping\<rparr>"

definition HealthHandler_Liveness :: "'s HealthHandler \<Rightarrow> 's Handler" where
  "HealthHandler_Liveness h r = respond (writeJSON 200 (Some (JObj [(bytes_of ''status'', JText ''ok'')])))"

definition HealthHandler_Readiness :: "'s HealthHandler \<Rightarrow> 's Handler" where
  "HealthHandler_Readiness h r =
     and_then (call (hh_ping h)) (\<lambda>res.
       case res of
         Inl _ \<Rightarrow>
           respond (\<lambda>wr. writeJSON 503 (Some (JObj [(bytes_of ''details'', JText ''database unreachable''),
                                                  (bytes_of ''status'', JText ''error'')]))
             (WriteHeader 503 (Header_Set ''Content-Type'' json_type wr)))
       | Inr _ \<Rightarrow> respond (writeJSON 200 (Some (JObj [(bytes_of ''status'', JText ''ok'')]))))"

section \<open>Lemmas\<close>

lemma scoped_refuses:
  assumes "IdentityFromContext (rq_Ctx r) = None \<or> (\<exists>i. IdentityFromContext (rq_Ctx r) = Some i \<and> \<not> HasScope i scope)"
  shows "\<exists>refuse. requireScope r scope = Some refuse \<and> scoped scope h r = respond refuse"
  using assms by (auto simp: scoped_def requireScope_def)

lemma scoped_granted:
  "IdentityFromContext (rq_Ctx r) = Some i \<Longrightarrow> HasScope i scope \<Longrightarrow> scoped scope h r = h r"
  by (simp add: scoped_def requireScope_def)

text \<open>The status of an error, and what the client is told.\<close>

definition tag_error_status :: "goerr \<Rightarrow> int" where
  "tag_error_status err =
     (if errors_is err ErrValidation then 400 else if errors_is err ErrConflict then 409
      else if errors_is err ErrNotFound then 404 else 500)"

lemma tag_handleError_status: "wr_Sent wr = None \<Longrightarrow> final_status (tag_handleError err wr) = tag_error_status err"
  by (simp add: tag_handleError_def tag_error_status_def)

lemma tag_handleError_body:
  "wr_Body (tag_handleError err wr) = wr_Body wr @ string_of (json_text (error_body
     (if errors_is err ErrValidation then ''VALIDATION_ERROR'' else if errors_is err ErrConflict then ''CONFLICT''
      else if errors_is err ErrNotFound then ''NOT_FOUND'' else ''INTERNAL_ERROR'')
     (if tag_error_status err = 500 then ''an unexpected error occurred'' else Error err))) @ [CHR 0x0A]"
  by (simp add: tag_handleError_def tag_error_status_def)

end
