(* ===== verification/Media_Handler.thy ===== *)
theory Media_Handler
  imports Tag_Handler Media_Service
begin

text \<open>
  \<^verbatim>\<open>handler/media_handler.go\<close>: the endpoints of the media.
\<close>

section \<open>The handler and its helpers\<close>

record 's MediaHandler =
  mh_service :: "'s MediaService"
  mh_maxUploadSize :: int

definition NewMediaHandler :: "'s MediaService \<Rightarrow> int \<Rightarrow> 's MediaHandler" where
  "NewMediaHandler svc maxUploadSize = \<lparr>mh_service = svc, mh_maxUploadSize = maxUploadSize\<rparr>"

definition media_handleError :: "goerr \<Rightarrow> Writer \<Rightarrow> Writer" where
  "media_handleError err =
     (if errors_is err ErrValidation then writeError 400 ''VALIDATION_ERROR'' (Error err)
      else if errors_is err ErrUnsupportedMediaType then writeError 415 ''UNSUPPORTED_MEDIA_TYPE'' (Error err)
      else if errors_is err ErrNotFound then writeError 404 ''NOT_FOUND'' (Error err)
      else if errors_is err ErrFileTooLarge then writeError 413 ''FILE_TOO_LARGE'' (Error err)
      else writeError 500 ''INTERNAL_ERROR'' ''an unexpected error occurred'')"

definition nonEmpty :: "string list \<Rightarrow> string list" where
  "nonEmpty ss = filter (\<lambda>s. s \<noteq> []) ss"

text \<open>The loops over tag ids: empty texts are skipped, the first bad one is reported.\<close>

fun parse_tag_ids :: "Ext \<Rightarrow> string list \<Rightarrow> string + uuid list" where
  "parse_tag_ids X [] = Inr []"
| "parse_tag_ids X (s # ss) =
     (if s = [] then parse_tag_ids X ss
      else case x_uuid_parse X s of
        None \<Rightarrow> Inl s
      | Some i \<Rightarrow> (case parse_tag_ids X ss of Inl bad \<Rightarrow> Inl bad | Inr ids \<Rightarrow> Inr (i # ids)))"

definition parseMediaFilter :: "Ext \<Rightarrow> Request \<Rightarrow> goerr + MediaFilter" where
  "parseMediaFilter X r =
     (let tagIDStrs = nonEmpty (rq_Query r ''tag_id''); tagNames = nonEmpty (rq_Query r ''tag_name'') in
      if 0 < length tagIDStrs \<and> 0 < length tagNames
      then Inl (Opaque ''tag_id and tag_name are mutually exclusive'')
      else case parse_tag_ids X tagIDStrs of
        Inl s \<Rightarrow> Inl (Opaque (''invalid tag_id format: '' @ s))
      | Inr ids \<Rightarrow> Inr \<lparr>mf_TagIDs = ids, mf_TagNames = tagNames\<rparr>)"

definition media_type_text :: "MediaType \<Rightarrow> string" where
  "media_type_text t = (case t of MediaTypeImage \<Rightarrow> ''image'' | MediaTypeVideo \<Rightarrow> ''video'')"

definition mediaToResponse :: "Ext \<Rightarrow> 's MediaHandler \<Rightarrow> Media \<Rightarrow> MediaResponse" where
  "mediaToResponse X h m =
     \<lparr>mdr_ID = x_uuid_string X (media_ID m), mdr_Name = media_Name m, mdr_Type = media_type_text (media_Type m),
      mdr_OriginalName = media_OriginalName m, mdr_FileSize = media_FileSize m,
      mdr_FileURL = MediaService_FileURL (mh_service h) (media_FilePath m),
      mdr_Tags = map (tagToResponse X) (media_Tags m), mdr_CreatedAt = media_CreatedAt m\<rparr>"

definition media_data :: "Ext \<Rightarrow> 's MediaHandler \<Rightarrow> Media \<Rightarrow> json option" where
  "media_data X h m = map_option json_data (json_MediaResponse X (mediaToResponse X h m))"

definition bad_media_id :: "Writer \<Rightarrow> Writer" where
  "bad_media_id = writeError 400 ''VALIDATION_ERROR'' ''invalid media ID format''"

definition bad_tag :: "string \<Rightarrow> Writer \<Rightarrow> Writer" where
  "bad_tag s = writeError 400 ''VALIDATION_ERROR'' (''invalid tag ID: '' @ s)"

section \<open>Upload\<close>

text \<open>The part of \<^verbatim>\<open>Create\<close> that needs the file: opening, sniffing, rewinding, the service.\<close>

definition upload_file ::
  "Ext \<Rightarrow> 's MediaHandler \<Rightarrow> Request \<Rightarrow> Form \<Rightarrow> string \<Rightarrow> uuid list \<Rightarrow> string list \<Rightarrow>
    (Writer \<times> 's, string, unit) op" where
  "upload_file X h r f name tagIDs tagNames =
     (case fm_File f ''file'' of
        [] \<Rightarrow> respond (writeError 400 ''VALIDATION_ERROR'' ''file field is required'')
      | header # _ \<Rightarrow>
          if \<not> fh_opens header then respond (writeError 400 ''VALIDATION_ERROR'' ''file field is required'')
          else if \<not> fh_reads header then respond (writeError 400 ''INVALID_FILE'' ''could not read file'')
          else let contentType = x_sniff X (take 512 (fh_Content header)) in
          if \<not> fh_seeks header then respond (writeError 500 ''INTERNAL_ERROR'' ''could not process file'')
          else
            and_then (call (MediaService_Create X (mh_service h) (rq_Ctx r)
              \<lparr>ci_Name = name, ci_File = fh_Content header, ci_FileName = fh_Filename header,
               ci_FileSize = fh_Size header, ci_TagIDs = tagIDs, ci_TagNames = tagNames,
               ci_ContentType = contentType\<rparr>)) (\<lambda>res.
              case res of
                Inl err \<Rightarrow> respond (media_handleError err)
              | Inr m \<Rightarrow> respond (writeJSON 201 (media_data X h m))))"

definition MediaHandler_Create :: "Ext \<Rightarrow> 's MediaHandler \<Rightarrow> 's Handler" where
  "MediaHandler_Create X h = scoped ScopeMediaWrite (\<lambda>r.
     case rq_Multipart r (mh_maxUploadSize h) of
       Inl msg \<Rightarrow>
         if msg = ''http: request body too large''
         then respond (writeError 413 ''FILE_TOO_LARGE'' ''file exceeds maximum upload size'')
         else respond (writeError 400 ''INVALID_MULTIPART'' ''request must be multipart/form-data'')
     | Inr f \<Rightarrow>
         let name = form_value r f ''name'' in
         if name = [] then respond (writeError 400 ''VALIDATION_ERROR'' ''name field is required'')
         else case parse_tag_ids X (fm_Value f ''tags'') of
           Inl s \<Rightarrow> respond (bad_tag s)
         | Inr tagIDs \<Rightarrow> upload_file X h r f name tagIDs (nonEmpty (fm_Value f ''tag_names'')))"

section \<open>The other endpoints\<close>

definition MediaHandler_GetByID :: "Ext \<Rightarrow> 's MediaHandler \<Rightarrow> 's Handler" where
  "MediaHandler_GetByID X h = scoped ScopeMediaRead (\<lambda>r.
     case x_uuid_parse X (rq_Params r ''id'') of
       None \<Rightarrow> respond bad_media_id
     | Some i \<Rightarrow>
         and_then (call (MediaService_GetByID (mh_service h) (rq_Ctx r) i)) (\<lambda>res.
           case res of
             Inl err \<Rightarrow> respond (media_handleError err)
           | Inr m \<Rightarrow> respond (writeJSON 200 (media_data X h m))))"

definition MediaHandler_List :: "Ext \<Rightarrow> 's MediaHandler \<Rightarrow> 's Handler" where
  "MediaHandler_List X h = scoped ScopeMediaRead (\<lambda>r.
     let limit = fst (atoi (query_get r ''limit'')); cursor = query_get r ''cursor'' in
     case parseMediaFilter X r of
       Inl err \<Rightarrow> respond (writeError 400 ''VALIDATION_ERROR'' (Error err))
     | Inr f \<Rightarrow>
         and_then (call (MediaService_List X (mh_service h) (rq_Ctx r) limit cursor f)) (\<lambda>res.
           case res of
             Inl err \<Rightarrow> respond (media_handleError err)
           | Inr (ms, nextCursor) \<Rightarrow>
               let rs = map (mediaToResponse X h) ms in
               respond (writeJSON 200 (map_option json_data
                 (json_ListMediaResponse X \<lparr>lmr_Media = rs, lmr_Pagination = pagination rs nextCursor\<rparr>)))))"

definition MediaHandler_Delete :: "Ext \<Rightarrow> 's MediaHandler \<Rightarrow> 's Handler" where
  "MediaHandler_Delete X h = scoped ScopeMediaWrite (\<lambda>r.
     case x_uuid_parse X (rq_Params r ''id'') of
       None \<Rightarrow> respond bad_media_id
     | Some i \<Rightarrow>
         and_then (call (MediaService_Delete (mh_service h) (rq_Ctx r) i)) (\<lambda>res.
           case res of
             Inl err \<Rightarrow> respond (media_handleError err)
           | Inr _ \<Rightarrow> respond (WriteHeader 204)))"

definition MediaHandler_AttachTags :: "Ext \<Rightarrow> 's MediaHandler \<Rightarrow> 's Handler" where
  "MediaHandler_AttachTags X h = scoped ScopeMediaWrite (\<lambda>r.
     case x_uuid_parse X (rq_Params r ''id'') of
       None \<Rightarrow> respond bad_media_id
     | Some mediaID \<Rightarrow>
         if \<not> wants_json r then respond not_json
         else case decode_body decode_AttachTagsRequest r of
           None \<Rightarrow> respond bad_json
         | Some req \<Rightarrow>
             (case parse_tag_ids X (atr_Tags req) of
                Inl s \<Rightarrow> respond (bad_tag s)
              | Inr tagIDs \<Rightarrow>
                  and_then (call (MediaService_AttachTags X (mh_service h) (rq_Ctx r) mediaID tagIDs
                             (nonEmpty (atr_TagNames req)))) (\<lambda>res.
                    case res of
                      Inl err \<Rightarrow> respond (media_handleError err)
                    | Inr m \<Rightarrow> respond (writeJSON 200 (media_data X h m)))))"

definition MediaHandler_DetachTag :: "Ext \<Rightarrow> 's MediaHandler \<Rightarrow> 's Handler" where
  "MediaHandler_DetachTag X h = scoped ScopeMediaWrite (\<lambda>r.
     case x_uuid_parse X (rq_Params r ''id'') of
       None \<Rightarrow> respond bad_media_id
     | Some mediaID \<Rightarrow>
         (case x_uuid_parse X (rq_Params r ''tag_id'') of
            None \<Rightarrow> respond bad_tag_id
          | Some tagID \<Rightarrow>
              and_then (call (MediaService_DetachTag (mh_service h) (rq_Ctx r) mediaID tagID)) (\<lambda>res.
                case res of
                  Inl err \<Rightarrow> respond (media_handleError err)
                | Inr _ \<Rightarrow> respond (WriteHeader 204))))"

section \<open>Lemmas\<close>

definition media_error_status :: "goerr \<Rightarrow> int" where
  "media_error_status err =
     (if errors_is err ErrValidation then 400 else if errors_is err ErrUnsupportedMediaType then 415
      else if errors_is err ErrNotFound then 404 else if errors_is err ErrFileTooLarge then 413 else 500)"

lemma media_handleError_status:
  "wr_Sent wr = None \<Longrightarrow> final_status (media_handleError err wr) = media_error_status err"
  by (simp add: media_handleError_def media_error_status_def)

lemma media_handleError_body:
  "media_error_status err = 500 \<Longrightarrow> wr_Body (media_handleError err wr)
     = wr_Body wr @ string_of (json_text (error_body ''INTERNAL_ERROR'' ''an unexpected error occurred'')) @ [CHR 0x0A]"
  by (simp add: media_handleError_def media_error_status_def split: if_splits)

lemma parse_tag_ids_Inr:
  "parse_tag_ids X ss = Inr ids \<Longrightarrow> length ids \<le> length ss \<and> map Some ids = map (x_uuid_parse X) (nonEmpty ss)"
  by (induction ss arbitrary: ids) (auto simp: nonEmpty_def split: if_splits option.splits sum.splits)

lemma parseMediaFilter_one_kind:
  "parseMediaFilter X r = Inr f \<Longrightarrow> mf_TagIDs f = [] \<or> mf_TagNames f = []"
  by (auto simp: parseMediaFilter_def Let_def split: if_splits sum.splits)

end
