(* ===== verification/Rate_Limit.thy ===== *)
theory Rate_Limit
  imports Prelude
begin

text \<open>
  The token buckets of \<^verbatim>\<open>middleware/ratelimit.go\<close>.  Go's \<^verbatim>\<open>float64\<close> tokens are real numbers
  here: the rounding of the additions is not represented.
\<close>

section \<open>One bucket\<close>

record tokenBucket =
  tb_tokens :: real
  tb_maxTokens :: real
  tb_refillRate :: real
  tb_lastRefill :: time

definition Seconds :: "time \<Rightarrow> real" where
  "Seconds t = real_of_int t / 1000000"

definition newTokenBucket :: "real \<Rightarrow> int \<Rightarrow> time \<Rightarrow> tokenBucket" where
  "newTokenBucket rps burst now =
     \<lparr>tb_tokens = real_of_int burst, tb_maxTokens = real_of_int burst, tb_refillRate = rps, tb_lastRefill = now\<rparr>"

definition allow :: "tokenBucket \<Rightarrow> time \<Rightarrow> bool \<times> tokenBucket" where
  "allow b now =
     (let elapsed = Seconds (now - tb_lastRefill b);
          tokens = tb_tokens b + elapsed * tb_refillRate b;
          tokens = (if tokens > tb_maxTokens b then tb_maxTokens b else tokens);
          b = b\<lparr>tb_tokens := tokens, tb_lastRefill := now\<rparr>
      in if tb_tokens b < 1 then (False, b) else (True, b\<lparr>tb_tokens := tb_tokens b - 1\<rparr>))"

section \<open>The buckets of all clients\<close>

record rateLimiterStore =
  rl_buckets :: "string \<rightharpoonup> tokenBucket"
  rl_rps :: real
  rl_burst :: int

definition newRateLimiterStore :: "real \<Rightarrow> int \<Rightarrow> rateLimiterStore" where
  "newRateLimiterStore rps burst = \<lparr>rl_buckets = Map.empty, rl_rps = rps, rl_burst = burst\<rparr>"

definition getBucket :: "string \<Rightarrow> time \<Rightarrow> rateLimiterStore \<Rightarrow> tokenBucket \<times> rateLimiterStore" where
  "getBucket ip now s =
     (case rl_buckets s ip of
        Some b \<Rightarrow> (b, s)
      | None \<Rightarrow> let b = newTokenBucket (rl_rps s) (rl_burst s) now in (b, s\<lparr>rl_buckets := (rl_buckets s)(ip \<mapsto> b)\<rparr>))"

text \<open>The bucket is a pointer: what \<^verbatim>\<open>allow\<close> does to it is seen in the store.\<close>

definition allow_ip :: "string \<Rightarrow> time \<Rightarrow> rateLimiterStore \<Rightarrow> bool \<times> rateLimiterStore" where
  "allow_ip ip now s =
     (case getBucket ip now s of (b, s1) \<Rightarrow>
        case allow b now of (ok, b') \<Rightarrow> (ok, s1\<lparr>rl_buckets := (rl_buckets s1)(ip \<mapsto> b')\<rparr>))"

text \<open>One tick of the clean-up loop: buckets that were idle for more than ten minutes go.\<close>

definition limiter_cleanup :: "time \<Rightarrow> rateLimiterStore \<Rightarrow> rateLimiterStore" where
  "limiter_cleanup now s =
     s\<lparr>rl_buckets := (\<lambda>ip. case rl_buckets s ip of
         Some b \<Rightarrow> if now - tb_lastRefill b > 10 * 60 * 1000000 then None else Some b
       | None \<Rightarrow> None)\<rparr>"

section \<open>The bound\<close>

datatype rl_event = Req string time | Sweep time

fun event_time :: "rl_event \<Rightarrow> time" where
  "event_time (Req ip t) = t"
| "event_time (Sweep t) = t"

text \<open>How many requests of a client are let through.\<close>

fun admitted :: "string \<Rightarrow> rl_event list \<Rightarrow> rateLimiterStore \<Rightarrow> nat" where
  "admitted ip [] s = 0"
| "admitted ip (Req ip' t # es) s =
     (case allow_ip ip' t s of (ok, s') \<Rightarrow> (if ok \<and> ip' = ip then 1 else 0) + admitted ip es s')"
| "admitted ip (Sweep t # es) s = admitted ip es (limiter_cleanup t s)"

text \<open>The tokens a client would find at a time.\<close>

definition available :: "string \<Rightarrow> time \<Rightarrow> rateLimiterStore \<Rightarrow> real" where
  "available ip t s =
     (case rl_buckets s ip of
        None \<Rightarrow> real_of_int (rl_burst s)
      | Some b \<Rightarrow> min (real_of_int (rl_burst s)) (tb_tokens b + Seconds (t - tb_lastRefill b) * rl_rps s))"

definition bucket_ok :: "time \<Rightarrow> rateLimiterStore \<Rightarrow> tokenBucket \<Rightarrow> bool" where
  "bucket_ok t s b \<longleftrightarrow> tb_maxTokens b = real_of_int (rl_burst s) \<and> tb_refillRate b = rl_rps s
     \<and> 0 \<le> tb_tokens b \<and> tb_tokens b \<le> real_of_int (rl_burst s) \<and> tb_lastRefill b \<le> t"

definition store_ok :: "time \<Rightarrow> rateLimiterStore \<Rightarrow> bool" where
  "store_ok t s \<longleftrightarrow> 0 \<le> rl_rps s \<and> 0 \<le> rl_burst s \<and> (\<forall>ip b. rl_buckets s ip = Some b \<longrightarrow> bucket_ok t s b)"

lemma Seconds_mono: "a \<le> b \<Longrightarrow> Seconds a \<le> Seconds b"
  by (simp add: Seconds_def)

lemma Seconds_diff: "Seconds (a - b) = Seconds a - Seconds b"
  by (simp add: Seconds_def diff_divide_distrib)

lemma store_ok_new [simp]: "0 \<le> rps \<Longrightarrow> 0 \<le> burst \<Longrightarrow> store_ok t (newRateLimiterStore rps burst)"
  by (simp add: store_ok_def newRateLimiterStore_def)

lemma store_ok_later: "store_ok t s \<Longrightarrow> t \<le> t' \<Longrightarrow> store_ok t' s"
  by (auto simp: store_ok_def bucket_ok_def intro: order_trans)

lemma available_later:
  assumes "store_ok t s" "t \<le> t'"
  shows "available ip t' s \<le> available ip t s + Seconds (t' - t) * rl_rps s"
proof (cases "rl_buckets s ip")
  case None
  have "0 \<le> Seconds (t' - t)" using assms(2) by (simp add: Seconds_def)
  with None assms(1) show ?thesis by (simp add: available_def store_ok_def)
next
  case (Some b)
  have "0 \<le> Seconds (t' - t) * rl_rps s" using assms by (simp add: Seconds_def store_ok_def)
  moreover have "Seconds (t' - tb_lastRefill b) * rl_rps s = Seconds (t - tb_lastRefill b) * rl_rps s + Seconds (t' - t) * rl_rps s"
    by (simp add: Seconds_diff algebra_simps)
  ultimately show ?thesis using Some by (auto simp: available_def)
qed

lemma allow_ip_step:
  assumes s: "store_ok t s" and a: "allow_ip ip t s = (ok, s')"
  shows "store_ok t s' \<and> rl_rps s' = rl_rps s \<and> rl_burst s' = rl_burst s
    \<and> available ip t s' = available ip t s - (if ok then 1 else 0) \<and> (ok \<longleftrightarrow> 1 \<le> available ip t s)
    \<and> (\<forall>q. q \<noteq> ip \<longrightarrow> available q t s' = available q t s)"
proof -
  obtain b s1 where b: "getBucket ip t s = (b, s1)" by fastforce
  have same: "rl_rps s1 = rl_rps s" "rl_burst s1 = rl_burst s" "\<And>q. q \<noteq> ip \<Longrightarrow> rl_buckets s1 q = rl_buckets s q"
    and ok: "bucket_ok t s b"
    and av: "available ip t s = min (real_of_int (rl_burst s)) (tb_tokens b + Seconds (t - tb_lastRefill b) * rl_rps s)"
    using b s by (auto simp: getBucket_def Let_def available_def newTokenBucket_def store_ok_def bucket_ok_def Seconds_def
        split: option.splits)
  let ?tok = "available ip t s"
  have nn: "0 \<le> ?tok"
    using ok s by (simp add: av bucket_ok_def store_ok_def Seconds_def)
  have tok: "(if tb_tokens b + Seconds (t - tb_lastRefill b) * tb_refillRate b > tb_maxTokens b then tb_maxTokens b
      else tb_tokens b + Seconds (t - tb_lastRefill b) * tb_refillRate b) = ?tok"
    using ok by (simp add: av bucket_ok_def min_def)
  define b' where "b' = b\<lparr>tb_tokens := (if ?tok < 1 then ?tok else ?tok - 1), tb_lastRefill := t\<rparr>"
  have "allow b t = (\<not> ?tok < 1, b')"
    unfolding allow_def Let_def tok by (simp add: b'_def)
  then have r: "ok = (\<not> ?tok < 1)" "s' = s1\<lparr>rl_buckets := (rl_buckets s1)(ip \<mapsto> b')\<rparr>"
    using a b by (simp_all add: allow_ip_def)
  have "bucket_ok t s b'" using ok nn av by (auto simp: b'_def bucket_ok_def)
  then have "store_ok t s'" using s same r(2) by (auto simp: store_ok_def bucket_ok_def)
  moreover have "available ip t s' = ?tok - (if ok then 1 else 0)"
    using r same av nn by (auto simp: available_def b'_def Seconds_def)
  moreover have "available q t s' = available q t s" if "q \<noteq> ip" for q
    using that r same by (simp add: available_def split: option.split)
  ultimately show ?thesis using r same by auto
qed

lemma cleanup_step:
  assumes s: "store_ok t s" and full: "real_of_int (rl_burst s) \<le> 600 * rl_rps s"
  shows "store_ok t (limiter_cleanup t s) \<and> available ip t (limiter_cleanup t s) = available ip t s"
proof
  show "store_ok t (limiter_cleanup t s)"
    using s by (auto simp: store_ok_def limiter_cleanup_def bucket_ok_def split: option.splits if_splits)
  show "available ip t (limiter_cleanup t s) = available ip t s"
  proof (cases "rl_buckets s ip")
    case None
    then show ?thesis by (simp add: available_def limiter_cleanup_def)
  next
    case (Some b)
    have "real_of_int (rl_burst s) \<le> Seconds (t - tb_lastRefill b) * rl_rps s" if "10 * 60 * 1000000 < t - tb_lastRefill b"
    proof -
      have "600 \<le> Seconds (t - tb_lastRefill b)" using that by (simp add: Seconds_def)
      then have "600 * rl_rps s \<le> Seconds (t - tb_lastRefill b) * rl_rps s"
        using s by (intro mult_right_mono) (simp_all add: store_ok_def)
      with full show ?thesis by linarith
    qed
    moreover have "0 \<le> tb_tokens b" using Some s by (auto simp: store_ok_def bucket_ok_def)
    ultimately show ?thesis using Some by (auto simp: available_def limiter_cleanup_def)
  qed
qed

lemma admitted_bound:
  assumes "store_ok t s" "real_of_int (rl_burst s) \<le> 600 * rl_rps s"
    and "sorted (map event_time es)" "\<And>e. e \<in> set es \<Longrightarrow> t \<le> event_time e \<and> event_time e \<le> T" "t \<le> T"
  shows "real (admitted ip es s) \<le> available ip t s + Seconds (T - t) * rl_rps s"
  using assms
proof (induction es arbitrary: t s)
  case Nil
  have "0 \<le> available ip t s"
    using Nil.prems(1) by (auto simp: available_def store_ok_def bucket_ok_def Seconds_def split: option.splits)
  moreover have "0 \<le> Seconds (T - t) * rl_rps s" using Nil.prems by (simp add: Seconds_def store_ok_def)
  ultimately show ?case by simp
next
  case (Cons e es)
  let ?t = "event_time e"
  have t: "t \<le> ?t" "?t \<le> T" using Cons.prems(4) by auto
  have s1: "store_ok ?t s" by (rule store_ok_later [OF Cons.prems(1) t(1)])
  have es: "sorted (map event_time es)" "\<And>e'. e' \<in> set es \<Longrightarrow> ?t \<le> event_time e' \<and> event_time e' \<le> T"
    using Cons.prems(3,4) by auto
  have later: "available ip ?t s + Seconds (T - ?t) * rl_rps s \<le> available ip t s + Seconds (T - t) * rl_rps s"
    using available_later [OF Cons.prems(1) t(1), of ip] by (simp add: Seconds_diff algebra_simps)
  show ?case
  proof (cases e)
    case (Req ip' t')
    obtain ok s' where a: "allow_ip ip' ?t s = (ok, s')" by fastforce
    note st = allow_ip_step [OF s1 a]
    have "real (admitted ip es s') \<le> available ip ?t s' + Seconds (T - ?t) * rl_rps s'"
      using st Cons.prems(2) es t(2) by (intro Cons.IH) auto
    moreover have "available ip ?t s' + (if ok \<and> ip' = ip then 1 else 0) \<le> available ip ?t s"
      using st by (cases "ip' = ip") auto
    moreover have "real (admitted ip (e # es) s) = (if ok \<and> ip' = ip then 1 else 0) + real (admitted ip es s')"
      using a Req by simp
    moreover have "rl_rps s' = rl_rps s" using st by simp
    ultimately show ?thesis using later by simp
  next
    case (Sweep t')
    note st = cleanup_step [OF s1 Cons.prems(2)]
    have "real (admitted ip es (limiter_cleanup ?t s))
        \<le> available ip ?t (limiter_cleanup ?t s) + Seconds (T - ?t) * rl_rps (limiter_cleanup ?t s)"
      using st Cons.prems(2) es t(2) by (intro Cons.IH) (auto simp: limiter_cleanup_def)
    then show ?thesis using later st Sweep by (simp add: limiter_cleanup_def)
  qed
qed

text \<open>A client that has tokens is not refused.\<close>

lemma allow_ip_iff:
  "store_ok t s \<Longrightarrow> fst (allow_ip ip t s) \<longleftrightarrow> 1 \<le> available ip t s"
  using allow_ip_step [of t s ip] by (metis prod.collapse)

lemma available_new [simp]: "available ip t (newRateLimiterStore rps burst) = real_of_int burst"
  by (simp add: available_def newRateLimiterStore_def)

end
