(* ===== verification/Middleware.thy ===== *)
theory Middleware
  imports Dto Rate_Limit
begin

text \<open>
  \<^verbatim>\<open>http/middleware\<close>: wrappers of handlers, over any state \<open>'s\<close>; what they need of the state
  (the verifier, the limiter, the counters, the clock) are arguments.  A deadline that has passed
  shows as failing calls of the state.
\<close>

section \<open>Wrapped writers\<close>

text \<open>The calls a handler made on the writer it was given.\<close>

definition calls_made :: "Writer \<Rightarrow> Writer \<Rightarrow> wcall list" where
  "calls_made before after = drop (length (wr_Calls before)) (wr_Calls after)"

text \<open>\<^verbatim>\<open>statusWriter\<close>: the first call decides, a write means the 200 it was created with.\<close>

definition statusWriter_status :: "wcall list \<Rightarrow> int" where
  "statusWriter_status cs = (case cs of CHeader code # _ \<Rightarrow> code | _ \<Rightarrow> 200)"

text \<open>\<^verbatim>\<open>capturingWriter\<close>: the last status that was written, 0 when none was, and all bytes.\<close>

fun captured_status :: "int \<Rightarrow> wcall list \<Rightarrow> int" where
  "captured_status code [] = code"
| "captured_status code (CHeader c # cs) = captured_status c cs"
| "captured_status code (CWrite b # cs) = captured_status code cs"

fun captured_body :: "wcall list \<Rightarrow> string" where
  "captured_body [] = []"
| "captured_body (CHeader c # cs) = captured_body cs"
| "captured_body (CWrite b # cs) = b @ captured_body cs"

section \<open>Request ids, panics, logging\<close>

definition RequestID :: "Ext \<Rightarrow> ('s \<Rightarrow> uuid \<times> 's) \<Rightarrow> 's Handler \<Rightarrow> 's Handler" where
  "RequestID X draw handler r st =
     (let given = rq_Header r ''X-Request-ID'' in
      if given = [] then
        (case draw (snd st) of (u, s) \<Rightarrow>
           let i = x_uuid_string X u in
           handler (r\<lparr>rq_Header := (rq_Header r)(''X-Request-ID'' := i)\<rparr>) (Header_Set ''X-Request-ID'' i (fst st), s))
      else handler r (Header_Set ''X-Request-ID'' given (fst st), snd st))"

definition panic_body :: string where
  "panic_body = ''{\"error\":{\"code\":\"INTERNAL_ERROR\",\"message\":\"an unexpected error occurred\"}}''"

definition Recovery :: "('s \<Rightarrow> 's) \<Rightarrow> 's Handler \<Rightarrow> 's Handler" where
  "Recovery IncPanicRecovered handler r st =
     (case handler r st of
        (Inl panic, (wr, s)) \<Rightarrow> (Inr (), (http_Error panic_body 500 wr, IncPanicRecovered s))
      | (Inr _, st') \<Rightarrow> (Inr (), st'))"

text \<open>\<open>emit\<close>: the line about a request and its status.  A panic passes by the logger.\<close>

definition Logger :: "(Request \<Rightarrow> int \<Rightarrow> 's \<Rightarrow> 's) \<Rightarrow> 's Handler \<Rightarrow> 's Handler" where
  "Logger emit handler r st =
     (case handler r st of
        (Inl panic, st') \<Rightarrow> (Inl panic, st')
      | (Inr _, (wr, s)) \<Rightarrow> (Inr (), (wr, emit r (statusWriter_status (calls_made (fst st) wr)) s)))"

section \<open>Timeout\<close>

definition Timeout :: "('s \<Rightarrow> time) \<Rightarrow> time \<Rightarrow> 's Handler \<Rightarrow> 's Handler" where
  "Timeout now d handler r st = handler (r\<lparr>rq_Ctx := WithTimeout (now (snd st)) (rq_Ctx r) d\<rparr>) st"

section \<open>Metrics\<close>

record Metrics =
  mx_requestsTotal :: "string \<times> string \<times> bytes \<Rightarrow> nat"
  mx_requestDuration :: "string \<times> string \<times> bytes \<Rightarrow> nat"
  mx_requestsInFlight :: int
  mx_panicsRecovered :: nat
  mx_authFailures :: "string \<Rightarrow> nat"
  mx_rateLimitRejections :: nat

definition NewMetrics :: Metrics where
  "NewMetrics = \<lparr>mx_requestsTotal = (\<lambda>_. 0), mx_requestDuration = (\<lambda>_. 0), mx_requestsInFlight = 0,
     mx_panicsRecovered = 0, mx_authFailures = (\<lambda>_. 0), mx_rateLimitRejections = 0\<rparr>"

definition IncPanicRecovered :: "Metrics \<Rightarrow> Metrics" where
  "IncPanicRecovered m = m\<lparr>mx_panicsRecovered := mx_panicsRecovered m + 1\<rparr>"

definition IncAuthFailure :: "string \<Rightarrow> Metrics \<Rightarrow> Metrics" where
  "IncAuthFailure reason m = m\<lparr>mx_authFailures := (mx_authFailures m)(reason := mx_authFailures m reason + 1)\<rparr>"

definition IncRateLimitRejection :: "Metrics \<Rightarrow> Metrics" where
  "IncRateLimitRejection m = m\<lparr>mx_rateLimitRejections := mx_rateLimitRejections m + 1\<rparr>"

definition in_flight :: "int \<Rightarrow> Metrics \<Rightarrow> Metrics" where
  "in_flight n m = m\<lparr>mx_requestsInFlight := mx_requestsInFlight m + n\<rparr>"

definition count_request :: "string \<Rightarrow> string \<Rightarrow> int \<Rightarrow> Metrics \<Rightarrow> Metrics" where
  "count_request method route status m =
     (let k = (method, route, itoa status) in
      m\<lparr>mx_requestsTotal := (mx_requestsTotal m)(k := mx_requestsTotal m k + 1),
        mx_requestDuration := (mx_requestDuration m)(k := mx_requestDuration m k + 1)\<rparr>)"

text \<open>
  \<open>upd\<close> changes the metrics within the state; \<open>pattern\<close>: the route pattern the router matched.  The
  gauge is lowered in a deferred call, the counters are not.
\<close>

definition Metrics_Handler ::
  "((Metrics \<Rightarrow> Metrics) \<Rightarrow> 's \<Rightarrow> 's) \<Rightarrow> (Request \<Rightarrow> string) \<Rightarrow> 's Handler \<Rightarrow> 's Handler" where
  "Metrics_Handler upd pattern handler r st =
     (case handler r (fst st, upd (in_flight 1) (snd st)) of
        (Inl panic, (wr, s)) \<Rightarrow> (Inl panic, (wr, upd (in_flight (-1)) s))
      | (Inr _, (wr, s)) \<Rightarrow>
          let route = (if pattern r = [] then ''unknown'' else pattern r);
              status = statusWriter_status (calls_made (fst st) wr)
          in (Inr (), (wr, upd (in_flight (-1)) (upd (count_request (rq_Method r) route status) s))))"

section \<open>CORS and security headers\<close>

definition CORS :: "string list \<Rightarrow> 's Handler \<Rightarrow> 's Handler" where
  "CORS allowedOrigins handler r st =
     (let originSet = set (map (\<lambda>a. trim_right a (CHR ''/'')) allowedOrigins);
          origin = rq_Header r ''Origin'';
          wr = (if origin \<noteq> [] \<and> origin \<in> originSet then
                  Header_Set ''Vary'' ''Origin''
                  (Header_Set ''Access-Control-Max-Age'' ''300''
                  (Header_Set ''Access-Control-Allow-Headers'' ''Content-Type, X-API-Key, Authorization''
                  (Header_Set ''Access-Control-Allow-Methods'' ''GET, POST, OPTIONS''
                  (Header_Set ''Access-Control-Allow-Origin'' origin (fst st)))))
                else fst st)
      in if rq_Method r = ''OPTIONS'' then (Inr (), (WriteHeader 204 wr, snd st))
         else handler r (wr, snd st))"

definition SecurityHeaders :: "'s Handler \<Rightarrow> 's Handler" where
  "SecurityHeaders handler r st =
     handler r
       (Header_Set ''Referrer-Policy'' ''strict-origin-when-cross-origin''
       (Header_Set ''Cache-Control'' ''no-store''
       (Header_Set ''X-Frame-Options'' ''DENY''
       (Header_Set ''X-Content-Type-Options'' ''nosniff'' (fst st)))), snd st)"

section \<open>Authentication\<close>

definition extractAPIKey :: "Request \<Rightarrow> string" where
  "extractAPIKey r =
     (let key = rq_Header r ''X-API-Key''; auth = rq_Header r ''Authorization'' in
      if key \<noteq> [] then key
      else if has_prefix auth ''Bearer '' then trim_prefix auth ''Bearer ''
      else [])"

definition classifyAuthError :: "goerr \<Rightarrow> string \<times> string" where
  "classifyAuthError err =
     (if errors_is err ErrKeyMissing then (''missing'', ''missing API key'')
      else if errors_is err ErrKeyExpired then (''expired'', ''credential expired'')
      else if errors_is err ErrKeyRevoked then (''revoked'', ''credential revoked'')
      else (''invalid'', ''invalid API key''))"

definition writeAuthError :: "int \<Rightarrow> string \<Rightarrow> string \<Rightarrow> Writer \<Rightarrow> Writer" where
  "writeAuthError status code message wr =
     Write (''{\"error\":{\"code\":\"'' @ code @ ''\",\"message\":\"'' @ message @ ''\"}}'')
       (WriteHeader status (Header_Set ''Content-Type'' json_type wr))"

definition dev_identity :: "uuid \<Rightarrow> Identity" where
  "dev_identity t = \<lparr>id_TenantID = t, id_KeyID = 0, id_Scopes = [''admin:*''], id_ExpiresAt = None\<rparr>"

definition as_identity :: "Identity \<Rightarrow> Request \<Rightarrow> Request" where
  "as_identity i r = r\<lparr>rq_Ctx := WithIdentity (rq_Ctx r) i\<rparr>"

definition APIKeyAuth ::
  "'s AuthVerifier \<Rightarrow> uuid option \<Rightarrow> (string \<Rightarrow> 's \<Rightarrow> 's) \<Rightarrow> 's Handler \<Rightarrow> 's Handler" where
  "APIKeyAuth verifier devTenantID inc handler r =
     (let provided = extractAPIKey r in
      if provided = [] then
        (case devTenantID of
           Some t \<Rightarrow> handler (as_identity (dev_identity t) r)
         | None \<Rightarrow>
             and_then (modify (inc ''missing''))
               (\<lambda>_. respond (writeAuthError 401 ''UNAUTHORIZED'' ''missing API key'')))
      else
        and_then (call (av_Verify verifier (rq_Ctx r) provided)) (\<lambda>res.
          case res of
            Inl err \<Rightarrow>
              (case classifyAuthError err of (reason, message) \<Rightarrow>
                 and_then (modify (inc reason)) (\<lambda>_. respond (writeAuthError 401 ''UNAUTHORIZED'' message)))
          | Inr identity \<Rightarrow> handler (as_identity identity r)))"

section \<open>Rate limiting\<close>

text \<open>\<open>admit\<close>: the bucket of a client's address, asked now.\<close>

definition RateLimit :: "(string \<Rightarrow> 's \<Rightarrow> bool \<times> 's) \<Rightarrow> ('s \<Rightarrow> 's) \<Rightarrow> 's Handler \<Rightarrow> 's Handler" where
  "RateLimit admit inc handler r st =
     (case admit (rq_RemoteAddr r) (snd st) of
        (True, s) \<Rightarrow> handler r (fst st, s)
      | (False, s) \<Rightarrow>
          (Inr (), (writeAuthError 429 ''RATE_LIMITED'' ''too many requests'' (Header_Set ''Retry-After'' ''1'' (fst st)), inc s)))"

section \<open>Idempotency\<close>

definition idempotencyKeyHeader :: string where "idempotencyKeyHeader = ''Idempotency-Key''"

definition replay :: "int \<Rightarrow> string \<Rightarrow> Writer \<Rightarrow> Writer" where
  "replay code body wr =
     Write body (WriteHeader code (Header_Set ''Idempotency-Replayed'' ''true'' (Header_Set ''Content-Type'' json_type wr)))"

text \<open>A buffer nothing was written to is a nil slice.\<close>

definition buffer_bytes :: "string \<Rightarrow> string option" where
  "buffer_bytes b = (if b = [] then None else Some b)"

definition run_and_store :: "'s IdempotencyStore \<Rightarrow> string \<Rightarrow> 's Handler \<Rightarrow> 's Handler" where
  "run_and_store store key handler r st =
     (case handler r st of
        (Inl panic, st') \<Rightarrow> (Inl panic, st')
      | (Inr _, (wr, s)) \<Rightarrow>
          let cs = calls_made (fst st) wr; code = captured_status 0 cs in
          if 200 \<le> code \<and> code < 300
          then (Inr (), (wr, snd (is_Set store (rq_Ctx r) key code (buffer_bytes (captured_body cs)) s)))
          else (Inr (), (wr, s)))"

definition Idempotency :: "'s IdempotencyStore \<Rightarrow> 's Handler \<Rightarrow> 's Handler" where
  "Idempotency store handler r =
     (let key = rq_Header r idempotencyKeyHeader in
      if key = [] then handler r
      else
        and_then (call (is_Get store (rq_Ctx r) key)) (\<lambda>res.
          case res of
            Inl _ \<Rightarrow> handler r
          | Inr (Some (code, body)) \<Rightarrow> respond (replay code body)
          | Inr None \<Rightarrow> run_and_store store key handler r))"

section \<open>Lemmas\<close>

lemma Recovery_total: "fst (Recovery inc h r st) = Inr ()"
  by (auto simp: Recovery_def split: prod.splits sum.splits)

text \<open>A panic before anything was written becomes a 500 that says nothing about it.\<close>

lemma Recovery_panic:
  assumes "h r st = (Inl p, (wr, s))" "wr_Sent wr = None"
  shows "\<exists>wr'. Recovery inc h r st = (Inr (), (wr', inc s)) \<and> final_status wr' = 500
    \<and> wr_Body wr' = wr_Body wr @ panic_body @ [CHR 0x0A]"
  using assms by (simp add: Recovery_def http_Error_def final_status_def)

lemma Recovery_ok: "h r st = (Inr (), st') \<Longrightarrow> Recovery inc h r st = (Inr (), st')"
  by (simp add: Recovery_def)

text \<open>
  The handler runs under a deadline no later than the timeout, and no earlier one of the caller is
  extended; a timeout inside another cannot extend it.  Authentication keeps the deadline.
\<close>

lemma WithTimeout_deadline:
  "\<exists>t. ctx_deadline (WithTimeout now ctx d) = Some t \<and> t \<le> now + d \<and> (\<forall>u. ctx_deadline ctx = Some u \<longrightarrow> t \<le> u)"
  by (auto simp: WithTimeout_def split: option.splits)

lemma Timeout_nested: "Timeout now d (Timeout now e h) = Timeout now (min d e) h"
  by (auto simp: fun_eq_iff Timeout_def WithTimeout_def min_def split: option.splits)

lemma Timeout_identity:
  "TenantIDFromContext (WithTimeout now ctx d) = TenantIDFromContext ctx"
  "ctx_deadline (rq_Ctx (as_identity i r)) = ctx_deadline (rq_Ctx r)"
  by (simp_all add: WithTimeout_def TenantIDFromContext_def IdentityFromContext_def as_identity_def WithIdentity_def)

lemma in_flight_cancel: "in_flight (-1) (in_flight 1 m) = m"
  by (simp add: in_flight_def)

lemma auth_missing:
  assumes "extractAPIKey r = []"
  shows "APIKeyAuth v None inc h r (wr, s) = (Inr (), (writeAuthError 401 ''UNAUTHORIZED'' ''missing API key'' wr, inc ''missing'' s))"
  using assms by (simp add: APIKeyAuth_def and_then_def)

lemma auth_refused:
  assumes "extractAPIKey r \<noteq> []" "av_Verify v (rq_Ctx r) (extractAPIKey r) s = (Inl e, s')"
  shows "APIKeyAuth v dev inc h r (wr, s)
    = (Inr (), (writeAuthError 401 ''UNAUTHORIZED'' (snd (classifyAuthError e)) wr, inc (fst (classifyAuthError e)) s'))"
  using assms by (simp add: APIKeyAuth_def and_then_def split: prod.split)

lemma auth_passed:
  assumes "extractAPIKey r \<noteq> []" "av_Verify v (rq_Ctx r) (extractAPIKey r) s = (Inr i, s')"
  shows "APIKeyAuth v dev inc h r (wr, s) = h (as_identity i r) (wr, s')"
  using assms by (simp add: APIKeyAuth_def and_then_def)

lemma writeAuthError_status [simp]: "wr_Sent wr = None \<Longrightarrow> final_status (writeAuthError c code m wr) = c"
  by (simp add: writeAuthError_def final_status_def)

text \<open>The key is the header's value, or what follows Bearer.\<close>

lemma extractAPIKey_bearer:
  "rq_Header r ''X-API-Key'' = [] \<Longrightarrow> rq_Header r ''Authorization'' = ''Bearer '' @ k \<Longrightarrow> extractAPIKey r = k"
  by (simp add: extractAPIKey_def has_prefix_def trim_prefix_def)

text \<open>Only configured origins are named in a response the middleware itself writes.\<close>

lemma CORS_origin:
  assumes "wr_Header wr ''Access-Control-Allow-Origin'' = None" "wr_Sent wr = None"
    and "CORS allowed h r (wr, s) = (x, (wr', s'))" "rq_Method r = ''OPTIONS''"
    and "final_header wr' ''Access-Control-Allow-Origin'' = Some o'"
  shows "o' = rq_Header r ''Origin'' \<and> (\<exists>a \<in> set allowed. trim_right a (CHR ''/'') = o')"
  using assms by (auto simp: CORS_def Let_def final_header_def split: if_splits)

text \<open>A replay has the stored status and body.\<close>

lemma replay_response:
  "wr_Sent wr = None \<Longrightarrow> final_status (replay c b wr) = c \<and> wr_Body (replay c b wr) = wr_Body wr @ b
    \<and> final_header (replay c b wr) ''Idempotency-Replayed'' = Some ''true''"
  by (simp add: replay_def final_status_def final_header_def)

end
