(* ===== verification/Idempotency_Store.thy ===== *)
theory Idempotency_Store
  imports Schema
begin

text \<open>
  \<^verbatim>\<open>postgres/idempotency_store.go\<close>: stored responses by tenant and key, with the time to live
  of migration 002, and the contract of \<^verbatim>\<open>port.IdempotencyStore\<close>.
\<close>

section \<open>Statements\<close>

definition notNullViolation :: string where "notNullViolation = ''23502''"

text \<open>The column default of \<^verbatim>\<open>expires_at\<close>: 24 hours.\<close>

definition idempotencyTTL :: time where "idempotencyTTL = 24 * 60 * 60 * 1000000"

definition idem_live :: "session \<Rightarrow> uuid \<Rightarrow> string \<Rightarrow> time \<Rightarrow> idem_row \<Rightarrow> bool" where
  "idem_live s tenantID key now r \<longleftrightarrow>
     rls s (ik_tenant r) \<and> ik_tenant r = tenantID \<and> ik_key r = key \<and> ik_expires r > now"

definition sql_get_response :: "session \<Rightarrow> uuid \<Rightarrow> string \<Rightarrow> time \<Rightarrow> db \<Rightarrow> (int \<times> string) option" where
  "sql_get_response s tenantID key now d =
     map_option (\<lambda>r. (ik_status r, ik_response r)) (find (idem_live s tenantID key now) (idempotency_keys d))"

text \<open>
  A nil \<^verbatim>\<open>[]byte\<close> is sent as NULL, which the column does not take.  The unique key is
  \<^verbatim>\<open>(tenant_id, key)\<close>, whether or not the row it finds has expired.
\<close>

definition sql_set_response ::
  "session \<Rightarrow> uuid \<Rightarrow> string \<Rightarrow> int \<Rightarrow> string option \<Rightarrow> time \<Rightarrow> db \<Rightarrow> goerr + unit \<times> db" where
  "sql_set_response s tenantID key statusCode body now d =
     (if \<not> rls s tenantID then Inl (PqError insufficientPrivilege)
      else case body of
        None \<Rightarrow> Inl (PqError notNullViolation)
      | Some b \<Rightarrow>
          if (tenantID, key) \<in> ik_pk ` set (idempotency_keys d) then Inr ((), d)
          else if \<not> is_tenant d tenantID then Inl (PqError foreignKeyViolation)
          else Inr ((), d\<lparr>idempotency_keys := idempotency_keys d @
             [\<lparr>ik_tenant = tenantID, ik_key = key, ik_status = statusCode, ik_response = b,
               ik_created = now, ik_expires = now + idempotencyTTL\<rparr>]\<rparr>))"

definition sql_delete_expired :: "session \<Rightarrow> time \<Rightarrow> db \<Rightarrow> goerr + unit \<times> db" where
  "sql_delete_expired s now d =
     Inr ((), d\<lparr>idempotency_keys := filter (\<lambda>r. \<not> (rls s (ik_tenant r) \<and> ik_expires r \<le> now)) (idempotency_keys d)\<rparr>)"

section \<open>Operations\<close>

definition IdempotencyStore_Get :: "Ctx \<Rightarrow> string \<Rightarrow> (World, goerr, (int \<times> string) option) op" where
  "IdempotencyStore_Get ctx key =
     withTenantTx ctx (\<lambda>s tenantID. db_exec (\<lambda>now d. Inr (sql_get_response s tenantID key now d, d)))"

definition IdempotencyStore_Set :: "Ctx \<Rightarrow> string \<Rightarrow> int \<Rightarrow> string option \<Rightarrow> (World, goerr, unit) op" where
  "IdempotencyStore_Set ctx key statusCode body =
     withTenantTx ctx (\<lambda>s tenantID. db_exec (sql_set_response s tenantID key statusCode body))"

definition IdempotencyStore_Cleanup :: "(World, goerr, unit) op" where
  "IdempotencyStore_Cleanup = withSystemTx (\<lambda>s. db_exec (sql_delete_expired s))"

definition PostgresIdempotencyStore :: "World IdempotencyStore" where
  "PostgresIdempotencyStore =
     \<lparr>is_Get = IdempotencyStore_Get, is_Set = IdempotencyStore_Set, is_Cleanup = (\<lambda>_. IdempotencyStore_Cleanup)\<rparr>"

lemma PostgresIdempotencyStore_sel [simp]:
  "is_Get PostgresIdempotencyStore = IdempotencyStore_Get"
  "is_Set PostgresIdempotencyStore = IdempotencyStore_Set"
  "is_Cleanup PostgresIdempotencyStore c = IdempotencyStore_Cleanup"
  by (simp_all add: PostgresIdempotencyStore_def)

section \<open>Transactions and the schema\<close>

lemmas idem_ops = IdempotencyStore_Get_def IdempotencyStore_Set_def IdempotencyStore_Cleanup_def

lemma db_op_idem [frame]:
  "db_op (IdempotencyStore_Get ctx k)" "db_op (IdempotencyStore_Set ctx k c b)" "db_op IdempotencyStore_Cleanup"
  unfolding idem_ops by (intro frame)+

lemma db_inv_idem:
  "db_inv d \<Longrightarrow> distinct (map ik_pk rs) \<Longrightarrow> (\<And>r. r \<in> set rs \<Longrightarrow> is_tenant d (ik_tenant r)) \<Longrightarrow>
    db_inv (d\<lparr>idempotency_keys := rs\<rparr>)"
  by (simp add: db_inv_def ok_defs)

lemma keeps_idem [preserves]:
  "db_keeps db_inv (IdempotencyStore_Get ctx k)" "db_keeps db_inv (IdempotencyStore_Set ctx k c b)"
  "db_keeps db_inv IdempotencyStore_Cleanup"
proof -
  have s: "db_inv d'" if "db_inv d" "sql_set_response s t k c b now d = Inr (x, d')" for s t now d x d'
    using that
    by (auto simp: sql_set_response_def db_inv_def ok_defs ik_pk_def split: if_splits option.splits)
  have cl: "db_inv d'" if "db_inv d" "sql_delete_expired s now d = Inr (x, d')" for s now d x d'
    using that by (auto simp: sql_delete_expired_def db_inv_def ok_defs intro!: distinct_map_filter)
  show "db_keeps db_inv (IdempotencyStore_Get ctx k)" "db_keeps db_inv (IdempotencyStore_Set ctx k c b)"
    "db_keeps db_inv IdempotencyStore_Cleanup"
    unfolding idem_ops by (intro preserves frame; auto intro: s cl)+
qed

lemma tenant_exec_Inr:
  assumes "withTenantTx ctx (\<lambda>s t. db_exec (f s t)) w = (Inr x, w')"
  obtains t where "TenantIDFromContext ctx = Inr t"
    "f (tenant_session w t) t (w_clock w) (w_db w) = Inr (x, w_db w')"
  using assms
proof (rule withTenantTx_Inr)
  fix t w2 w3
  assume "TenantIDFromContext ctx = Inr t" "w_db w2 = w_db w" "db_only w w2"
    "db_exec (f (tenant_session w t) t) w2 = (Inr x, w3)" "w_db w' = w_db w3"
  then show thesis using db_exec_InrD that by (fastforce simp: db_only_iff)
qed (rule frame)

lemma tenant_exec_no_faults:
  assumes "no_faults w" "TenantIDFromContext ctx = Inr t"
  shows "\<exists>w'. withTenantTx ctx (\<lambda>s t. db_exec (f s t)) w
      = (case f (tenant_session w t) t (w_clock w) (w_db w) of Inl e \<Rightarrow> Inl e | Inr (x, d) \<Rightarrow> Inr x, w')
    \<and> w_db w' = (case f (tenant_session w t) t (w_clock w) (w_db w) of Inl e \<Rightarrow> w_db w | Inr (x, d) \<Rightarrow> d)
    \<and> db_only w w'"
proof -
  obtain r w3 where run: "db_exec (f (tenant_session w t) t) (in_tx w) = (r, w3)" by fastforce
  have r: "r = (case f (tenant_session w t) t (w_clock w) (w_db w) of Inl e \<Rightarrow> Inl e | Inr (x, d) \<Rightarrow> Inr x)
    \<and> (\<forall>x d. f (tenant_session w t) t (w_clock w) (w_db w) = Inr (x, d) \<longrightarrow> w_db w3 = d)"
    using run assms(1) by (auto simp: db_exec_no_faults split: sum.splits prod.splits)
  from withTenantTx_no_faults [where fn = "\<lambda>s t. db_exec (f s t)", OF assms(1) db_op_exec assms(2) run] r
  show ?thesis by (auto split: sum.splits prod.splits)
qed

section \<open>The contract\<close>

text \<open>What tenant \<open>t\<close> would see replayed at the present time, and the keys it has never used.\<close>

definition idem_cached :: "Ctx \<Rightarrow> World \<Rightarrow> string \<rightharpoonup> int \<times> string" where
  "idem_cached ctx w key = (case TenantIDFromContext ctx of
     Inl _ \<Rightarrow> None
   | Inr t \<Rightarrow> sql_get_response (tenant_session w t) t key (w_clock w) (w_db w))"

definition idem_vacant :: "Ctx \<Rightarrow> World \<Rightarrow> string \<Rightarrow> bool" where
  "idem_vacant ctx w key \<longleftrightarrow>
     (\<forall>r \<in> set (idempotency_keys (w_db w)). TenantIDFromContext ctx = Inr (ik_tenant r) \<longrightarrow> ik_key r \<noteq> key)"

lemma idem_live_tenant:
  "idem_live (tenant_session w t) t k now = (\<lambda>r. ik_tenant r = t \<and> ik_key r = k \<and> now < ik_expires r)"
  by (auto simp: idem_live_def fun_eq_iff)

lemma idem_cached_eq:
  "TenantIDFromContext ctx = Inr t \<Longrightarrow> idem_cached ctx w k = map_option (\<lambda>r. (ik_status r, ik_response r))
     (find (\<lambda>r. ik_tenant r = t \<and> ik_key r = k \<and> w_clock w < ik_expires r) (idempotency_keys (w_db w)))"
  by (simp add: idem_cached_def sql_get_response_def idem_live_tenant)

lemma vacant_pk: "TenantIDFromContext ctx = Inr t \<Longrightarrow> idem_vacant ctx w k \<longleftrightarrow> (t, k) \<notin> ik_pk ` set (idempotency_keys (w_db w))"
  by (auto simp: idem_vacant_def ik_pk_def)

lemma find_snoc: "find P (xs @ [x]) = (case find P xs of None \<Rightarrow> if P x then Some x else None | Some y \<Rightarrow> Some y)"
  by (simp add: find_append split: option.splits)

lemma db_only_clock: "db_op f \<Longrightarrow> f w = (r, w') \<Longrightarrow> w_clock w' = w_clock w"
  using db_opD by (fastforce simp: db_only_iff)

interpretation pg_idem: idempotency_store PostgresIdempotencyStore ctx "idem_cached ctx" "idem_vacant ctx" for ctx
proof (unfold_locales, unfold PostgresIdempotencyStore_sel)
  fix k w r w' assume g: "IdempotencyStore_Get ctx k w = (Inr r, w')"
  have c: "w_clock w' = w_clock w" using db_only_clock [OF db_op_idem(1) g] .
  from g show "r = idem_cached ctx w k \<and> idem_cached ctx w' = idem_cached ctx w \<and> idem_vacant ctx w' = idem_vacant ctx w"
    unfolding IdempotencyStore_Get_def
    by (rule tenant_exec_Inr) (use c in \<open>auto simp: idem_cached_def sql_get_response_def idem_live_tenant idem_vacant_def fun_eq_iff\<close>)
next
  fix k c b w w' assume s: "IdempotencyStore_Set ctx k c (Some b) w = (Inr (), w')" and v: "idem_vacant ctx w k"
  have cl: "w_clock w' = w_clock w" using db_only_clock [OF db_op_idem(2) s] .
  from s show "idem_cached ctx w' = (idem_cached ctx w)(k \<mapsto> (c, b))"
    unfolding IdempotencyStore_Set_def
  proof (rule tenant_exec_Inr)
    fix t assume t: "TenantIDFromContext ctx = Inr t"
      and "sql_set_response (tenant_session w t) t k c (Some b) (w_clock w) (w_db w) = Inr ((), w_db w')"
    with v have d: "w_db w' = (w_db w)\<lparr>idempotency_keys := idempotency_keys (w_db w) @
        [\<lparr>ik_tenant = t, ik_key = k, ik_status = c, ik_response = b, ik_created = w_clock w,
          ik_expires = w_clock w + idempotencyTTL\<rparr>]\<rparr>"
      by (auto simp: sql_set_response_def vacant_pk split: if_splits)
    have "find (\<lambda>r. ik_tenant r = t \<and> ik_key r = k \<and> w_clock w < ik_expires r) (idempotency_keys (w_db w)) = None"
      using v t by (auto simp: find_None_iff_ex idem_vacant_def)
    then show ?thesis
      by (auto simp: fun_eq_iff idem_cached_eq [OF t] d cl find_snoc idempotencyTTL_def split: option.splits)
  qed
next
  fix k c b w w' assume s: "IdempotencyStore_Set ctx k c b w = (Inr (), w')" and v: "\<not> idem_vacant ctx w k"
  have cl: "w_clock w' = w_clock w" using db_only_clock [OF db_op_idem(2) s] .
  from s show "idem_cached ctx w' = idem_cached ctx w"
    unfolding IdempotencyStore_Set_def
  proof (rule tenant_exec_Inr)
    fix t assume t: "TenantIDFromContext ctx = Inr t"
      and "sql_set_response (tenant_session w t) t k c b (w_clock w) (w_db w) = Inr ((), w_db w')"
    with v have "w_db w' = w_db w" by (auto simp: sql_set_response_def vacant_pk split: if_splits option.splits)
    then show ?thesis by (simp add: fun_eq_iff idem_cached_eq [OF t] cl)
  qed
next
  fix k c w
  show "fst (IdempotencyStore_Set ctx k c None w) \<noteq> Inr ()"
  proof
    assume "fst (IdempotencyStore_Set ctx k c None w) = Inr ()"
    then obtain w' where "IdempotencyStore_Set ctx k c None w = (Inr (), w')" by (metis prod.collapse)
    then show False unfolding IdempotencyStore_Set_def
      by (rule tenant_exec_Inr) (simp add: sql_set_response_def split: if_splits)
  qed
next
  fix w k assume "idem_vacant ctx w k"
  then show "idem_cached ctx w k = None"
    by (cases "TenantIDFromContext ctx") (auto simp: idem_cached_def sql_get_response_def idem_live_tenant find_None_iff_ex idem_vacant_def)
qed

section \<open>Expiry and tenants\<close>

text \<open>A stored response is replayed until 24 hours have passed, and then no more.\<close>

lemma cached_until:
  assumes "TenantIDFromContext ctx = Inr t" "idem_vacant ctx w k" "IdempotencyStore_Set ctx k c (Some b) w = (Inr (), w1)"
    and "w_db w2 = w_db w1"
  shows "idem_cached ctx w2 k = (if w_clock w2 < w_clock w + idempotencyTTL then Some (c, b) else None)"
  using assms(3) unfolding IdempotencyStore_Set_def
proof (rule tenant_exec_Inr)
  fix t' assume "TenantIDFromContext ctx = Inr t'"
    and "sql_set_response (tenant_session w t') t' k c (Some b) (w_clock w) (w_db w) = Inr ((), w_db w1)"
  with assms(1,2) have d: "w_db w1 = (w_db w)\<lparr>idempotency_keys := idempotency_keys (w_db w) @
      [\<lparr>ik_tenant = t, ik_key = k, ik_status = c, ik_response = b, ik_created = w_clock w,
        ik_expires = w_clock w + idempotencyTTL\<rparr>]\<rparr>"
    by (auto simp: sql_set_response_def vacant_pk split: if_splits)
  have "find (\<lambda>r. ik_tenant r = t \<and> ik_key r = k \<and> w_clock w2 < ik_expires r) (idempotency_keys (w_db w)) = None"
    using assms(1,2) by (auto simp: find_None_iff_ex idem_vacant_def)
  then show ?thesis by (auto simp: idem_cached_eq [OF assms(1)] assms(4) d find_snoc)
qed

text \<open>An expired response that was not yet cleaned up: Set reports success and stores nothing.\<close>

lemma expired_blocks:
  assumes "TenantIDFromContext ctx = Inr t" "\<not> idem_vacant ctx w k" "idem_cached ctx w k = None"
    and "IdempotencyStore_Set ctx k c b w = (Inr (), w')"
  shows "idem_cached ctx w' k = None"
  using pg_idem.set_first [of ctx k c b w w'] assms by simp

lemma cleanup_vacates:
  assumes "IdempotencyStore_Cleanup w = (Inr (), w')" "idem_cached ctx w k = None" "TenantIDFromContext ctx = Inr t"
  shows "idem_vacant ctx w' k"
  using assms(1) unfolding IdempotencyStore_Cleanup_def
proof (rule withSystemTx_Inr)
  fix w2 w3
  assume "w_db w2 = w_db w" "db_only w w2" "db_exec (sql_delete_expired (system_session w)) w2 = (Inr (), w3)"
    "w_db w' = w_db w3"
  then have "w_db w' = (w_db w)\<lparr>idempotency_keys := filter (\<lambda>r. \<not> ik_expires r \<le> w_clock w) (idempotency_keys (w_db w))\<rparr>"
    using db_exec_InrD by (fastforce simp: sql_delete_expired_def db_only_iff)
  then show ?thesis using assms(2)
    by (auto simp: idem_vacant_def idem_cached_eq assms(3) find_None_iff_ex)
qed (rule frame)

lemma sql_set_others: "sql_set_response s t k c b now d = Inr (x, d') \<Longrightarrow> others_kept t d d'"
  by (auto simp: sql_set_response_def others_kept_def tenant_view_def split: if_splits option.splits)

lemma set_other_tenant:
  assumes "IdempotencyStore_Set ctx k c b w = (r, w')" "TenantIDFromContext ctx = Inr t"
  shows "others_kept t (w_db w) (w_db w')"
  using assms(1) db_op_exec unfolding IdempotencyStore_Set_def
proof (cases rule: withTenantTx_cases)
  case (committed t' w2 x w3)
  with assms(2) sql_set_others [OF db_exec_InrD [OF committed(4)]] show ?thesis by auto
qed simp

end
