(* ===== verification/Auth_Verifier.thy ===== *)
theory Auth_Verifier
  imports Schema
begin

text \<open>
  \<^verbatim>\<open>postgres/auth_verifier.go\<close>: the lookup of an API key with its in-memory cache, the
  provisioning of tenants and keys, and how long a revoked key may still be accepted.
\<close>

section \<open>The key cache\<close>

record keyCache =
  kc_ttl :: time
  kc_items :: "string \<rightharpoonup> Identity \<times> time"

definition newKeyCache :: "time \<Rightarrow> keyCache" where
  "newKeyCache ttl = \<lparr>kc_ttl = ttl, kc_items = Map.empty\<rparr>"

definition keyCache_get :: "keyCache \<Rightarrow> string \<Rightarrow> time \<Rightarrow> Identity option" where
  "keyCache_get c hash now =
     (if kc_ttl c \<le> 0 then None
      else case kc_items c hash of
        None \<Rightarrow> None
      | Some (i, expires) \<Rightarrow> if now < expires then Some i else None)"

definition keyCache_put :: "string \<Rightarrow> Identity \<Rightarrow> time \<Rightarrow> keyCache \<Rightarrow> keyCache" where
  "keyCache_put hash i now c =
     (if kc_ttl c \<le> 0 then c else c\<lparr>kc_items := (kc_items c)(hash \<mapsto> (i, now + kc_ttl c))\<rparr>)"

definition keyCache_clear :: "keyCache \<Rightarrow> keyCache" where
  "keyCache_clear c = c\<lparr>kc_items := Map.empty\<rparr>"

section \<open>The verifier\<close>

text \<open>
  \<open>vf_pending\<close>: the \<^verbatim>\<open>touchLastUsed\<close> goroutines that have not run yet, by key id.  The
  queries of the verifier run outside tenant transactions; \<^verbatim>\<open>tenants\<close> and
  \<^verbatim>\<open>api_keys\<close> have no row-level security.
\<close>

record PgAuthVerifier =
  vf_cache :: keyCache
  vf_pending :: "uuid list"

type_synonym auth_state = "PgAuthVerifier \<times> World"

definition NewAuthVerifier :: "time \<Rightarrow> PgAuthVerifier" where
  "NewAuthVerifier cacheTTL = \<lparr>vf_cache = newKeyCache cacheTTL, vf_pending = []\<rparr>"

definition hashKey :: "Ext \<Rightarrow> string \<Rightarrow> string" where
  "hashKey X raw = x_sha256_hex X raw"

record found_key =
  fk_id :: uuid
  fk_tenant :: uuid
  fk_scopes :: "string list option"
  fk_expires :: "time option"
  fk_status :: TenantStatus

definition sql_find_key :: "string \<Rightarrow> db \<Rightarrow> found_key option" where
  "sql_find_key hash d =
     (case find (\<lambda>k. ak_hash k = hash) (api_keys d) of
        None \<Rightarrow> None
      | Some k \<Rightarrow>
          (case find (\<lambda>t. tn_id t = ak_tenant k) (tenants d) of
             None \<Rightarrow> None
           | Some t \<Rightarrow> Some \<lparr>fk_id = ak_id k, fk_tenant = ak_tenant k, fk_scopes = ak_scopes k,
               fk_expires = ak_expires k, fk_status = tn_status t\<rparr>))"

definition key_expired :: "found_key \<Rightarrow> time \<Rightarrow> bool" where
  "key_expired k now \<longleftrightarrow> (case fk_expires k of None \<Rightarrow> False | Some e \<Rightarrow> e \<le> now)"

definition Verify :: "Ext \<Rightarrow> Ctx \<Rightarrow> string \<Rightarrow> (auth_state, goerr, Identity) op" where
  "Verify X ctx rawKey st =
     (if rawKey = [] then (Inl ErrKeyMissing, st)
      else let hash = hashKey X rawKey; v = fst st in
        case keyCache_get (vf_cache v) hash (w_clock (snd st)) of
          Some i \<Rightarrow> (Inr i, st)
        | None \<Rightarrow>
          (case db_query (sql_find_key hash) (snd st) of
             (Inl err, w) \<Rightarrow> (Inl (Errorf ''auth verify: '' err ''''), (v, w))
           | (Inr None, w) \<Rightarrow> (Inl ErrKeyInvalid, (v, w))
           | (Inr (Some k), w) \<Rightarrow>
               if fk_status k = TenantStatusSuspended then (Inl ErrKeyRevoked, (v, w))
               else if key_expired k (w_clock w) then (Inl ErrKeyExpired, (v, w))
               else (case fk_scopes k of
                 None \<Rightarrow> (Inl (Errorf ''auth verify: scopes JSON: '' (Opaque ''json: cannot unmarshal'') ''''), (v, w))
               | Some scopes \<Rightarrow>
                   let identity = \<lparr>id_TenantID = fk_tenant k, id_KeyID = fk_id k, id_Scopes = scopes,
                                   id_ExpiresAt = fk_expires k\<rparr> in
                   (Inr identity,
                    (v\<lparr>vf_cache := keyCache_put hash identity (w_clock w) (vf_cache v),
                       vf_pending := vf_pending v @ [fk_id k]\<rparr>, w)))))"

definition InvalidateCache :: "auth_state \<Rightarrow> auth_state" where
  "InvalidateCache st = (fst st\<lparr>vf_cache := keyCache_clear (vf_cache (fst st))\<rparr>, snd st)"

section \<open>Provisioning\<close>

text \<open>A statement outside a transaction commits by itself.\<close>

definition autocommit :: "(World, goerr, 'a) op \<Rightarrow> (World, goerr, 'a) op" where
  "autocommit f w = (case f w of (Inl e, w1) \<Rightarrow> (Inl e, w1) | (Inr x, w1) \<Rightarrow> tx_commit w x w1)"

definition sql_touch_key :: "uuid \<Rightarrow> time \<Rightarrow> db \<Rightarrow> goerr + unit \<times> db" where
  "sql_touch_key keyID now d =
     Inr ((), d\<lparr>api_keys := update_where (\<lambda>k. ak_id k = keyID) (\<lambda>k. k\<lparr>ak_last_used := Some now\<rparr>) (api_keys d)\<rparr>)"

text \<open>One pending goroutine runs; its error is dropped.\<close>

definition touchLastUsed :: "auth_state \<Rightarrow> auth_state" where
  "touchLastUsed st =
     (case vf_pending (fst st) of
        [] \<Rightarrow> st
      | keyID # rest \<Rightarrow>
          (fst st\<lparr>vf_pending := rest\<rparr>, snd (autocommit (db_exec (sql_touch_key keyID)) (snd st))))"

definition sql_ensure_tenant :: "uuid \<Rightarrow> time \<Rightarrow> db \<Rightarrow> goerr + unit \<times> db" where
  "sql_ensure_tenant tid now d =
     (if is_tenant d tid then Inr ((), d)
      else Inr ((), d\<lparr>tenants := tenants d @
        [\<lparr>tn_id = tid, tn_name = ''legacy'', tn_status = TenantStatusActive, tn_created = now\<rparr>]\<rparr>))"

definition new_key_row :: "uuid \<Rightarrow> uuid \<Rightarrow> string \<Rightarrow> string \<Rightarrow> string list \<Rightarrow> time \<Rightarrow> api_key_row" where
  "new_key_row u tid hash name scopes now =
     \<lparr>ak_id = u, ak_tenant = tid, ak_hash = hash, ak_name = name, ak_scopes = Some scopes,
      ak_created = now, ak_expires = None, ak_last_used = None\<rparr>"

definition sql_insert_key ::
  "uuid \<Rightarrow> string \<Rightarrow> string \<Rightarrow> string list \<Rightarrow> uuid \<Rightarrow> time \<Rightarrow> db \<Rightarrow> goerr + uuid \<times> db" where
  "sql_insert_key tid hash name scopes u now d =
     (if u \<in> ak_id ` set (api_keys d) \<or> hash \<in> ak_hash ` set (api_keys d) then Inl (PqError uniqueViolation)
      else if \<not> is_tenant d tid then Inl (PqError foreignKeyViolation)
      else Inr (u, d\<lparr>api_keys := api_keys d @ [new_key_row u tid hash name scopes now]\<rparr>))"

definition sql_ensure_key ::
  "uuid \<Rightarrow> string \<Rightarrow> string \<Rightarrow> string list \<Rightarrow> uuid \<Rightarrow> time \<Rightarrow> db \<Rightarrow> goerr + uuid \<times> db" where
  "sql_ensure_key tid hash name scopes u now d =
     (if hash \<in> ak_hash ` set (api_keys d) then Inr (u, d)
      else sql_insert_key tid hash name scopes u now d)"

definition EnsureLegacyTenant :: "Ext \<Rightarrow> string \<Rightarrow> (World, goerr, unit) op" where
  "EnsureLegacyTenant X rawKey =
     and_then (map_err (\<lambda>e. Errorf ''ensure legacy tenant: '' e '''')
                (autocommit (db_exec (sql_ensure_tenant LegacyTenantID))))
       (\<lambda>_. if rawKey = [] then ret ()
        else and_then (map_err (\<lambda>e. Errorf ''ensure legacy api key: '' e '''')
               (autocommit (db_insert (sql_ensure_key LegacyTenantID (hashKey X rawKey)
                  ''API_KEY env (legacy)'' [''admin:*'']))))
             (\<lambda>_. ret ()))"

definition CreateAPIKey ::
  "Ext \<Rightarrow> uuid \<Rightarrow> string \<Rightarrow> string list \<Rightarrow> (World, goerr, uuid \<times> string \<times> string) op" where
  "CreateAPIKey X tenantID name scopes =
     and_then uuid_New (\<lambda>u1. and_then uuid_New (\<lambda>u2.
       let rawKey = x_uuid_string X u1 @ ''-'' @ x_uuid_string X u2;
           keyHash = hashKey X rawKey in
       and_then (map_err (\<lambda>e. Errorf ''create api key: '' e '''')
           (autocommit (db_insert (sql_insert_key tenantID keyHash name scopes))))
         (\<lambda>i. ret (i, rawKey, keyHash))))"

definition sql_insert_tenant :: "string \<Rightarrow> uuid \<Rightarrow> time \<Rightarrow> db \<Rightarrow> goerr + uuid \<times> db" where
  "sql_insert_tenant name u now d =
     (if is_tenant d u then Inl (PqError uniqueViolation)
      else Inr (u, d\<lparr>tenants := tenants d @
        [\<lparr>tn_id = u, tn_name = name, tn_status = TenantStatusActive, tn_created = now\<rparr>]\<rparr>))"

definition CreateTenant :: "string \<Rightarrow> (World, goerr, uuid) op" where
  "CreateTenant name =
     map_err (\<lambda>e. Errorf ''create tenant: '' e '''') (autocommit (db_insert (sql_insert_tenant name)))"

section \<open>The schema is kept\<close>

lemma db_op_autocommit [frame]: "db_op f \<Longrightarrow> db_op (autocommit f)"
  unfolding db_op_def
proof
  fix w assume f: "\<forall>w. db_only w (snd (f w))"
  obtain r w1 where r: "f w = (r, w1)" by fastforce
  with f have w1: "db_only w w1" by (metis snd_conv)
  show "db_only w (snd (autocommit f w))"
  proof (cases r)
    case (Inr x)
    obtain q w' where q: "tx_commit w x w1 = (q, w')" by fastforce
    with w1 have "db_only w1 w'" by (rule db_op_tx_commit)
    with w1 r Inr q show ?thesis by (auto simp: autocommit_def intro: db_only_trans)
  qed (use r w1 in \<open>simp add: autocommit_def\<close>)
qed

lemma db_keeps_autocommit [preserves]:
  assumes "db_keeps I f" shows "db_keeps I (autocommit f)"
proof (rule keepsI)
  fix w r w' assume w: "I (w_db w)" and r: "autocommit f w = (r, w')"
  obtain q w1 where q: "f w = (q, w1)" by fastforce
  have w1: "I (w_db w1)" using keepsD [OF assms w q] .
  show "I (w_db w')"
  proof (cases q)
    case (Inr x)
    with q r have "tx_commit w x w1 = (r, w')" by (simp add: autocommit_def)
    then show ?thesis by (cases rule: tx_commit_cases) (use w w1 in auto)
  qed (use q r w1 in \<open>simp add: autocommit_def\<close>)
qed

lemma link_ok_auth [simp]: "link_ok (d\<lparr>tenants := a\<rparr>) l = link_ok d l"
  by (simp add: link_ok_def)

lemma db_inv_add_tenant:
  "db_inv d \<Longrightarrow> \<not> is_tenant d (tn_id r) \<Longrightarrow> db_inv (d\<lparr>tenants := tenants d @ [r]\<rparr>)"
  by (auto simp: db_inv_def ok_defs is_tenant_def)

lemma db_inv_sql_auth:
  "db_inv d \<Longrightarrow> sql_ensure_tenant t now d = Inr (x, d') \<Longrightarrow> db_inv d'"
  "db_inv d \<Longrightarrow> sql_insert_tenant name u now d = Inr (i, d') \<Longrightarrow> db_inv d'"
  "db_inv d \<Longrightarrow> sql_insert_key t h name sc u now d = Inr (i, d') \<Longrightarrow> db_inv d'"
  "db_inv d \<Longrightarrow> sql_touch_key k now d = Inr (x, d') \<Longrightarrow> db_inv d'"
proof -
  show "db_inv d \<Longrightarrow> sql_ensure_tenant t now d = Inr (x, d') \<Longrightarrow> db_inv d'"
    by (auto simp: sql_ensure_tenant_def intro!: db_inv_add_tenant split: if_splits)
  show "db_inv d \<Longrightarrow> sql_insert_tenant name u now d = Inr (i, d') \<Longrightarrow> db_inv d'"
    by (auto simp: sql_insert_tenant_def intro!: db_inv_add_tenant split: if_splits)
  show "db_inv d \<Longrightarrow> sql_insert_key t h name sc u now d = Inr (i, d') \<Longrightarrow> db_inv d'"
    by (auto simp: sql_insert_key_def new_key_row_def db_inv_def ok_defs split: if_splits)
  show "db_inv d \<Longrightarrow> sql_touch_key k now d = Inr (x, d') \<Longrightarrow> db_inv d'"
    by (auto simp: sql_touch_key_def db_inv_def ok_defs map_update_where_same set_update_where)
qed

lemma db_inv_ensure_key: "db_inv d \<Longrightarrow> sql_ensure_key t h name sc u now d = Inr (i, d') \<Longrightarrow> db_inv d'"
  using db_inv_sql_auth(3) by (auto simp: sql_ensure_key_def split: if_splits)

lemma keeps_provisioning [preserves]:
  "db_keeps db_inv (EnsureLegacyTenant X raw)" "db_keeps db_inv (CreateAPIKey X t n sc)"
  "db_keeps db_inv (CreateTenant n)"
  unfolding EnsureLegacyTenant_def CreateAPIKey_def CreateTenant_def Let_def
  by (intro preserves; blast intro: db_inv_sql_auth db_inv_ensure_key)+

section \<open>What a lookup answers\<close>

definition verify_outcome :: "string \<Rightarrow> time \<Rightarrow> db \<Rightarrow> goerr + Identity" where
  "verify_outcome hash now d =
     (case sql_find_key hash d of
        None \<Rightarrow> Inl ErrKeyInvalid
      | Some k \<Rightarrow>
          if fk_status k = TenantStatusSuspended then Inl ErrKeyRevoked
          else if key_expired k now then Inl ErrKeyExpired
          else (case fk_scopes k of
            None \<Rightarrow> Inl (Errorf ''auth verify: scopes JSON: '' (Opaque ''json: cannot unmarshal'') '''')
          | Some scopes \<Rightarrow> Inr \<lparr>id_TenantID = fk_tenant k, id_KeyID = fk_id k, id_Scopes = scopes,
                                  id_ExpiresAt = fk_expires k\<rparr>))"

lemma Verify_miss:
  assumes "no_faults w" "rawKey \<noteq> []" "keyCache_get (vf_cache v) (hashKey X rawKey) (w_clock w) = None"
  shows "fst (Verify X ctx rawKey (v, w)) = verify_outcome (hashKey X rawKey) (w_clock w) (w_db w)"
  using assms by (auto simp: Verify_def verify_outcome_def Let_def db_query_no_faults
      split: option.splits if_splits)

text \<open>
  Every answer comes from the cache or from the tables, and only the tables put an answer into
  the cache.
\<close>

lemma Verify_cases:
  assumes "Verify X ctx rawKey (v, w) = (r, (v', w'))"
  obtains (empty) "rawKey = []" "r = Inl ErrKeyMissing" "v' = v" "w' = w"
  | (hit) i where "r = Inr i" "v' = v" "w' = w"
      "keyCache_get (vf_cache v) (hashKey X rawKey) (w_clock w) = Some i"
  | (failed) e where "r = Inl e" "v' = v" "db_only w w'" "w_db w' = w_db w"
  | (found) i where "r = Inr i" "db_only w w'" "w_db w' = w_db w"
      "verify_outcome (hashKey X rawKey) (w_clock w) (w_db w) = Inr i"
      "vf_cache v' = keyCache_put (hashKey X rawKey) i (w_clock w) (vf_cache v)"
      "vf_pending v' = vf_pending v @ [id_KeyID i]"
proof (cases "rawKey = []")
  case True
  with assms that(1) show thesis by (auto simp: Verify_def)
next
  case False
  let ?h = "hashKey X rawKey"
  show thesis
  proof (cases "keyCache_get (vf_cache v) ?h (w_clock w)")
    case (Some i)
    with assms False that(2) show thesis by (auto simp: Verify_def Let_def)
  next
    case None
    obtain q w1 where q: "db_query (sql_find_key ?h) w = (q, w1)" by fastforce
    have w1: "db_only w w1" "w_db w1 = w_db w" "w_clock w1 = w_clock w"
      using db_opD [OF db_op_query q] db_query_db [OF q] by (simp_all add: db_only_iff)
    show thesis
    proof (cases q)
      case (Inl e)
      with assms False None q w1 show thesis by (intro that(3)) (auto simp: Verify_def Let_def)
    next
      case (Inr fk)
      with q have fk: "fk = sql_find_key ?h (w_db w)" using db_query_InrD by fastforce
      show thesis
      proof (cases "verify_outcome ?h (w_clock w) (w_db w)")
        case (Inl e)
        with assms False None q Inr w1 fk have "r = Inl e \<and> v' = v \<and> w' = w1"
          by (auto simp: Verify_def verify_outcome_def Let_def split: option.splits if_splits)
        then show thesis using w1 that(3) by blast
      next
        case (Inr i)
        with assms False None q \<open>q = Inr fk\<close> w1 fk have "r = Inr i \<and> w' = w1
            \<and> v' = v\<lparr>vf_cache := keyCache_put ?h i (w_clock w) (vf_cache v), vf_pending := vf_pending v @ [id_KeyID i]\<rparr>"
          by (auto simp: Verify_def verify_outcome_def Let_def split: option.splits if_splits)
        then show thesis using w1 Inr that(4) by simp
      qed
    qed
  qed
qed

section \<open>How long a revoked key is accepted\<close>

text \<open>
  A history of the verifier: verifications, bookkeeping, other processes changing the tables,
  and time.
\<close>

datatype auth_event =
    EVerify Ctx string
  | ETouch
  | EInvalidate
  | ETables db
  | EWait nat

fun auth_step :: "Ext \<Rightarrow> auth_event \<Rightarrow> auth_state \<Rightarrow> auth_state" where
  "auth_step X (EVerify ctx k) st = snd (Verify X ctx k st)"
| "auth_step X ETouch st = touchLastUsed st"
| "auth_step X EInvalidate st = InvalidateCache st"
| "auth_step X (ETables d) st = (fst st, snd st\<lparr>w_db := d\<rparr>)"
| "auth_step X (EWait n) st = (fst st, snd st\<lparr>w_clock := w_clock (snd st) + int n\<rparr>)"

fun auth_run :: "Ext \<Rightarrow> auth_event list \<Rightarrow> auth_state \<Rightarrow> auth_state" where
  "auth_run X [] st = st"
| "auth_run X (e # es) st = auth_run X es (auth_step X e st)"

text \<open>\<open>refused h d t\<close>: the tables do not vouch for the key from time \<open>t\<close> on.\<close>

definition refused :: "string \<Rightarrow> db \<Rightarrow> time \<Rightarrow> bool" where
  "refused h d t \<longleftrightarrow> (case sql_find_key h d of None \<Rightarrow> True
     | Some k \<Rightarrow> fk_status k = TenantStatusSuspended \<or> key_expired k t)"

definition cache_before :: "string \<Rightarrow> time \<Rightarrow> keyCache \<Rightarrow> bool" where
  "cache_before h t c \<longleftrightarrow> (\<forall>i e. kc_items c h = Some (i, e) \<longrightarrow> e \<le> t)"

definition cache_fresh :: "auth_state \<Rightarrow> bool" where
  "cache_fresh st \<longleftrightarrow> (\<forall>h. cache_before h (w_clock (snd st) + kc_ttl (vf_cache (fst st))) (vf_cache (fst st)))"

lemma refused_mono: "refused h d t \<Longrightarrow> t \<le> t' \<Longrightarrow> refused h d t'"
  by (auto simp: refused_def key_expired_def split: option.splits)

lemma refused_outcome: "refused h d t \<Longrightarrow> t \<le> now \<Longrightarrow> verify_outcome h now d \<noteq> Inr i"
  using refused_mono [of h d t now] by (auto simp: refused_def verify_outcome_def split: option.splits if_splits)

lemma keyCache_put_items:
  "kc_items (keyCache_put h i now c) = (if kc_ttl c \<le> 0 then kc_items c else (kc_items c)(h \<mapsto> (i, now + kc_ttl c)))"
  "kc_ttl (keyCache_put h i now c) = kc_ttl c"
  by (simp_all add: keyCache_put_def)

lemma sql_find_key_touch: "sql_touch_key k now d = Inr (x, d') \<Longrightarrow> sql_find_key h d' = sql_find_key h d"
proof -
  assume "sql_touch_key k now d = Inr (x, d')"
  then have d': "d' = d\<lparr>api_keys := update_where (\<lambda>r. ak_id r = k) (\<lambda>r. r\<lparr>ak_last_used := Some now\<rparr>) (api_keys d)\<rparr>"
    by (simp add: sql_touch_key_def)
  have "find (\<lambda>r. ak_hash r = h) (update_where P (\<lambda>r. r\<lparr>ak_last_used := Some now\<rparr>) rs)
      = map_option (\<lambda>r. if P r then r\<lparr>ak_last_used := Some now\<rparr> else r) (find (\<lambda>r. ak_hash r = h) rs)" for P and rs :: "api_key_row list"
    by (induction rs) auto
  then show ?thesis unfolding d' by (auto simp: sql_find_key_def split: option.splits)
qed

lemma touch_keeps_refused:
  "refused h (w_db w) t \<Longrightarrow> refused h (w_db (snd (autocommit (db_exec (sql_touch_key k)) w))) t"
proof -
  assume "refused h (w_db w) t"
  moreover have "db_keeps (\<lambda>d. refused h d t) (autocommit (db_exec (sql_touch_key k)))"
    by (intro preserves) (simp add: refused_def sql_find_key_touch)
  ultimately show ?thesis by (simp add: keeps_def)
qed

lemma touch_clock: "w_clock (snd (autocommit (db_exec (sql_touch_key k)) w)) = w_clock w"
  using db_op_autocommit [OF db_op_exec] by (auto simp: db_op_def db_only_iff)

text \<open>The invariant of a history in which the key stays refused since time \<open>t\<close>.\<close>

definition revoked_since :: "string \<Rightarrow> time \<Rightarrow> time \<Rightarrow> auth_state \<Rightarrow> bool" where
  "revoked_since h ttl t st \<longleftrightarrow> t \<le> w_clock (snd st) \<and> refused h (w_db (snd st)) t
     \<and> kc_ttl (vf_cache (fst st)) = ttl \<and> cache_before h (t + ttl) (vf_cache (fst st))"

lemma revoked_step:
  assumes "revoked_since h ttl t st" and "\<And>d. e = ETables d \<Longrightarrow> refused h d t"
  shows "revoked_since h ttl t (auth_step X e st)"
proof (cases e)
  case (EVerify ctx k)
  obtain v w where st: "st = (v, w)" by fastforce
  obtain r v' w' where r: "Verify X ctx k (v, w) = (r, (v', w'))" by (metis surj_pair)
  from r show ?thesis
  proof (cases rule: Verify_cases)
    case (found i)
    with assms(1) st have "hashKey X k \<noteq> h"
      using refused_outcome by (fastforce simp: revoked_since_def)
    with found assms(1) st r EVerify show ?thesis
      by (auto simp: revoked_since_def db_only_iff cache_before_def keyCache_put_items)
  qed (use assms(1) st r EVerify in \<open>auto simp: revoked_since_def db_only_iff\<close>)
next
  case ETouch
  with assms(1) show ?thesis
    by (auto simp: revoked_since_def touchLastUsed_def touch_clock touch_keeps_refused split: list.splits)
next
  case EInvalidate
  with assms(1) show ?thesis
    by (auto simp: revoked_since_def InvalidateCache_def keyCache_clear_def cache_before_def)
qed (use assms in \<open>auto simp: revoked_since_def\<close>)

lemma revoked_run:
  "revoked_since h ttl t st \<Longrightarrow> (\<And>d. ETables d \<in> set es \<Longrightarrow> refused h d t) \<Longrightarrow>
    revoked_since h ttl t (auth_run X es st)"
proof (induction es arbitrary: st)
  case (Cons e es)
  have "revoked_since h ttl t (auth_step X e st)" using Cons.prems by (intro revoked_step) auto
  with Cons show ?case by simp
qed simp

lemma revoked_refused:
  assumes "revoked_since (hashKey X k) ttl t st" "t + ttl \<le> w_clock (snd st)"
  shows "\<exists>e. fst (Verify X ctx k st) = Inl e"
proof -
  obtain v w where st: "st = (v, w)" by fastforce
  obtain r v' w' where r: "Verify X ctx k (v, w) = (r, (v', w'))" by (metis surj_pair)
  from r show ?thesis
  proof (cases rule: Verify_cases)
    case (hit i)
    with assms st show ?thesis
      by (fastforce simp: revoked_since_def cache_before_def keyCache_get_def split: if_splits option.splits)
  next
    case (found i)
    with assms st refused_outcome show ?thesis by (fastforce simp: revoked_since_def)
  qed (use r st in simp_all)
qed

lemma cache_fresh_start: "cache_fresh (NewAuthVerifier ttl, w)"
  by (simp add: cache_fresh_def NewAuthVerifier_def newKeyCache_def cache_before_def)

lemma cache_fresh_step: "cache_fresh st \<Longrightarrow> cache_fresh (auth_step X e st)"
proof (cases e)
  case (EVerify ctx k)
  assume f: "cache_fresh st"
  obtain v w where st: "st = (v, w)" by fastforce
  obtain r v' w' where r: "Verify X ctx k (v, w) = (r, (v', w'))" by (metis surj_pair)
  from r show ?thesis
  proof (cases rule: Verify_cases)
    case (found i)
    with f st r EVerify show ?thesis
      by (auto simp: cache_fresh_def db_only_iff cache_before_def keyCache_put_items)
  qed (use f st r EVerify in \<open>auto simp: cache_fresh_def db_only_iff\<close>)
next
  case (EWait n)
  moreover assume "cache_fresh st"
  ultimately show ?thesis by (fastforce simp: cache_fresh_def cache_before_def)
qed (auto simp: cache_fresh_def touchLastUsed_def touch_clock InvalidateCache_def keyCache_clear_def
    cache_before_def split: list.splits)

lemma cache_fresh_run: "cache_fresh st \<Longrightarrow> cache_fresh (auth_run X es st)"
  by (induction es arbitrary: st) (simp_all only: auth_run.simps cache_fresh_step)

section \<open>Provisioned keys work\<close>

lemma autocommit_Inr:
  assumes "autocommit f w = (Inr x, w')" "db_op f"
  obtains w1 where "f w = (Inr x, w1)" "w_db w' = w_db w1" "db_only w w'"
proof -
  obtain r w1 where r: "f w = (r, w1)" by fastforce
  with assms(1) obtain y where y: "r = Inr y" by (cases r) (auto simp: autocommit_def)
  with r assms(1) have c: "tx_commit w y w1 = (Inr x, w')" by (simp add: autocommit_def)
  have w1: "db_only w w1" using db_opD [OF assms(2) r] .
  from c show thesis
    by (cases rule: tx_commit_cases) (use r y w1 that in \<open>auto intro: db_only_trans\<close>)
qed

lemma CreateAPIKey_Inr:
  assumes "CreateAPIKey X t n sc w = (Inr (i, raw, h), w')"
  obtains now where "h = hashKey X raw" "raw \<noteq> []" "h \<notin> ak_hash ` set (api_keys (w_db w))" "is_tenant (w_db w) t"
    "w_db w' = (w_db w)\<lparr>api_keys := api_keys (w_db w) @ [new_key_row i t h n sc now]\<rparr>"
    "w_clock w' = w_clock w" "no_faults w' = no_faults w"
proof -
  define w2 where "w2 = snd (draw_uuid (snd (draw_uuid w)))"
  have w2: "w_db w2 = w_db w" "w_clock w2 = w_clock w" "no_faults w2 = no_faults w"
    by (simp_all add: w2_def draw_uuid_def)
  obtain a b where raw: "raw = a @ ''-'' @ b" and h: "h = hashKey X raw"
    and c: "autocommit (db_insert (sql_insert_key t h n sc)) w2 = (Inr i, w')"
    using assms by (auto simp: CreateAPIKey_def Let_def and_then_Inr uuid_New_def draw_uuid_def w2_def)
  from c db_op_insert show thesis
  proof (rule autocommit_Inr)
    fix w3 assume ins: "db_insert (sql_insert_key t h n sc) w2 = (Inr i, w3)"
      and w3: "w_db w' = w_db w3" "db_only w2 w'"
    have "no_faults w' = no_faults w" "w_clock w' = w_clock w"
      using w2 w3(2) by (simp_all add: db_only_iff no_faults_def)
    with db_insert_InrD [OF ins] w2 w3 raw h show thesis
      by (intro that [of "w_clock w2"]) (auto simp: sql_insert_key_def split: if_splits)
  qed
qed

lemma created_key_verifies:
  assumes c: "CreateAPIKey X t n sc w = (Inr (i, raw, h), w1)" and nf: "no_faults w"
    and ten: "find (\<lambda>r. tn_id r = t) (tenants (w_db w)) = Some tr" "tn_status tr = TenantStatusActive"
    and miss: "keyCache_get (vf_cache v) h (w_clock w) = None"
  shows "fst (Verify X ctx raw (v, w1)) = Inr \<lparr>id_TenantID = t, id_KeyID = i, id_Scopes = sc, id_ExpiresAt = None\<rparr>"
  using c
proof (cases rule: CreateAPIKey_Inr)
  case (1 now)
  have "find (\<lambda>k. ak_hash k = h) (api_keys (w_db w)) = None" using 1(3) by (auto simp: find_None_iff_ex image_iff)
  then have "sql_find_key h (w_db w1) = Some \<lparr>fk_id = i, fk_tenant = t, fk_scopes = Some sc, fk_expires = None,
      fk_status = TenantStatusActive\<rparr>"
    using 1 ten by (simp add: sql_find_key_def find_append new_key_row_def)
  then have "verify_outcome h (w_clock w1) (w_db w1)
      = Inr \<lparr>id_TenantID = t, id_KeyID = i, id_Scopes = sc, id_ExpiresAt = None\<rparr>"
    by (simp add: verify_outcome_def key_expired_def)
  with Verify_miss [of w1 raw v X ctx] 1 nf miss show ?thesis by simp
qed

text \<open>Start-up provisioning can be repeated: the second run changes nothing.\<close>

lemma sql_ensure_key_Inr:
  "sql_ensure_key t h n sc u now d = Inr (i, d') \<Longrightarrow>
    h \<in> ak_hash ` set (api_keys d') \<and> is_tenant d' = is_tenant d"
  by (auto simp: sql_ensure_key_def sql_insert_key_def new_key_row_def fun_eq_iff split: if_splits)

lemma EnsureLegacyTenant_Inr:
  assumes "EnsureLegacyTenant X raw w = (Inr (), w')"
  shows "is_tenant (w_db w') LegacyTenantID \<and> (raw \<noteq> [] \<longrightarrow> hashKey X raw \<in> ak_hash ` set (api_keys (w_db w')))"
proof -
  obtain w1 where a: "autocommit (db_exec (sql_ensure_tenant LegacyTenantID)) w = (Inr (), w1)"
    and r: "(if raw = [] then ret ()
        else and_then (map_err (\<lambda>e. Errorf ''ensure legacy api key: '' e '''')
               (autocommit (db_insert (sql_ensure_key LegacyTenantID (hashKey X raw)
                  ''API_KEY env (legacy)'' [''admin:*'']))))
             (\<lambda>_. ret ())) w1 = (Inr (), w')"
    using assms by (auto simp: EnsureLegacyTenant_def and_then_Inr)
  have t: "is_tenant (w_db w1) LegacyTenantID"
    using a db_op_exec
  proof (rule autocommit_Inr)
    fix w2 assume e: "db_exec (sql_ensure_tenant LegacyTenantID) w = (Inr (), w2)" and "w_db w1 = w_db w2"
    then have "sql_ensure_tenant LegacyTenantID (w_clock w) (w_db w) = Inr ((), w_db w1)"
      using db_exec_InrD [OF e] by simp
    then show ?thesis by (auto simp: sql_ensure_tenant_def is_tenant_def split: if_splits dest!: sym [where t = "w_db w1"])
  qed
  show ?thesis
  proof (cases "raw = []")
    case True
    with r t show ?thesis by simp
  next
    case False
    with r obtain i where b: "autocommit (db_insert (sql_ensure_key LegacyTenantID (hashKey X raw)
        ''API_KEY env (legacy)'' [''admin:*''])) w1 = (Inr i, w')"
      by (auto simp: and_then_Inr)
    from b db_op_insert show ?thesis
    proof (rule autocommit_Inr)
      fix w2 assume "db_insert (sql_ensure_key LegacyTenantID (hashKey X raw)
        ''API_KEY env (legacy)'' [''admin:*'']) w1 = (Inr i, w2)" "w_db w' = w_db w2"
      from sql_ensure_key_Inr [OF db_insert_InrD [OF this(1)]] this(2) t show ?thesis by simp
    qed
  qed
qed

lemma EnsureLegacyTenant_noop:
  assumes "is_tenant (w_db w) LegacyTenantID" "raw \<noteq> [] \<longrightarrow> hashKey X raw \<in> ak_hash ` set (api_keys (w_db w))"
    and "EnsureLegacyTenant X raw w = (r, w')"
  shows "w_db w' = w_db w"
proof -
  have "db_keeps (\<lambda>d. d = w_db w) (EnsureLegacyTenant X raw)"
    unfolding EnsureLegacyTenant_def using assms(1,2)
    by (intro preserves) (auto simp: sql_ensure_tenant_def sql_ensure_key_def)
  with assms(3) show ?thesis by (metis (mono_tags, lifting) keepsD)
qed

end
