(* ===== verification/Router.thy ===== *)
theory Router
  imports Media_Handler Middleware Idempotency_Store Auth_Verifier
begin

text \<open>
  \<^verbatim>\<open>server/router.go\<close>: the middleware stack and the routes.  The parts that belong to the chi
  router, the Prometheus client and \<^verbatim>\<open>http.FileServer\<close> are the fields of \<open>Lib\<close>.
\<close>

section \<open>The server's state\<close>

text \<open>\<open>sv_log\<close>: the lines of the request logger: method, path and status.\<close>

record Server =
  sv_world :: World
  sv_verifier :: PgAuthVerifier
  sv_limiter :: rateLimiterStore
  sv_metrics :: Metrics
  sv_log :: "(string \<times> string \<times> int) list"

definition new_server :: "World \<Rightarrow> time \<Rightarrow> real \<Rightarrow> int \<Rightarrow> Server" where
  "new_server w cacheTTL rps burst =
     \<lparr>sv_world = w, sv_verifier = NewAuthVerifier cacheTTL, sv_limiter = newRateLimiterStore rps burst,
      sv_metrics = NewMetrics, sv_log = []\<rparr>"

definition on_world :: "World Handler \<Rightarrow> Server Handler" where
  "on_world = zoom sv_world (\<lambda>w s. s\<lparr>sv_world := w\<rparr>)"

definition on_metrics :: "(Metrics \<Rightarrow> Metrics) \<Rightarrow> Server \<Rightarrow> Server" where
  "on_metrics f s = s\<lparr>sv_metrics := f (sv_metrics s)\<rparr>"

definition server_verify :: "Ext \<Rightarrow> Server AuthVerifier" where
  "server_verify X = \<lparr>av_Verify = (\<lambda>ctx key s.
     case Verify X ctx key (sv_verifier s, sv_world s) of
       (res, (v, w)) \<Rightarrow> (res, s\<lparr>sv_verifier := v, sv_world := w\<rparr>))\<rparr>"

definition server_admit :: "string \<Rightarrow> Server \<Rightarrow> bool \<times> Server" where
  "server_admit ip s =
     (case allow_ip ip (w_clock (sv_world s)) (sv_limiter s) of (ok, l) \<Rightarrow> (ok, s\<lparr>sv_limiter := l\<rparr>))"

definition server_uuid :: "Server \<Rightarrow> uuid \<times> Server" where
  "server_uuid s = (case draw_uuid (sv_world s) of (u, w) \<Rightarrow> (u, s\<lparr>sv_world := w\<rparr>))"

definition server_log :: "Request \<Rightarrow> int \<Rightarrow> Server \<Rightarrow> Server" where
  "server_log r status s = s\<lparr>sv_log := sv_log s @ [(rq_Method r, rq_Path r, status)]\<rparr>"

section \<open>Uploaded files\<close>

text \<open>
  \<^verbatim>\<open>noDirFS.Open\<close> over the \<^verbatim>\<open>Open\<close> of a file system and the \<^verbatim>\<open>Stat\<close> of its files (is it a
  directory?).
\<close>

definition ErrNotExist :: goerr where "ErrNotExist = Opaque ''file does not exist''"

definition noDirFS_Open :: "(string \<Rightarrow> goerr + 'f) \<Rightarrow> ('f \<Rightarrow> goerr + bool) \<Rightarrow> string \<Rightarrow> goerr + 'f" where
  "noDirFS_Open fsOpen stat name =
     (case fsOpen name of
        Inl err \<Rightarrow> Inl err
      | Inr f \<Rightarrow>
          (case stat f of
             Inl err \<Rightarrow> Inl err
           | Inr isDir \<Rightarrow> if isDir then Inl ErrNotExist else Inr f))"

definition safeFileHeaders :: "'s Handler \<Rightarrow> 's Handler" where
  "safeFileHeaders handler r st =
     handler r (Header_Set ''X-Content-Type-Options'' ''nosniff''
       (Header_Set ''Content-Disposition'' ''attachment'' (fst st)), snd st)"

text \<open>\<^verbatim>\<open>http.StripPrefix\<close>\<close>

definition StripPrefix :: "string \<Rightarrow> 's Handler \<Rightarrow> 's Handler" where
  "StripPrefix prefix handler r =
     (if has_prefix (rq_Path r) prefix then handler (r\<lparr>rq_Path := trim_prefix (rq_Path r) prefix\<rparr>)
      else respond (http_Error ''404 page not found'' 404))"

section \<open>Routes\<close>

datatype Route =
    Healthz | Readyz | MetricsPage | Uploads | NoRoute
  | PostTags | GetTags | PatchTag | DeleteTag
  | PostMedia | GetMedia | GetMediaItem | DeleteMedia | PostMediaTags | DeleteMediaTag | NoApiRoute

text \<open>
  \<open>lib_match\<close>: chi's choice of a route and the parameters it binds; \<open>lib_pattern\<close>: the pattern
  text of that route.  \<open>lib_files\<close>: \<^verbatim>\<open>http.FileServer\<close> over the \<^verbatim>\<open>Open\<close> it is given;
  \<open>lib_dir\<close>, \<open>lib_stat\<close>: \<^verbatim>\<open>http.Dir\<close> of the upload directory.
\<close>

record 'f Lib =
  lib_match :: "Request \<Rightarrow> Route \<times> (string \<Rightarrow> string)"
  lib_pattern :: "Request \<Rightarrow> string"
  lib_RealIP :: "Request \<Rightarrow> Request"
  lib_Compress :: "Server Handler \<Rightarrow> Server Handler"
  lib_unmatched :: "Server Handler"
  lib_promhttp :: "Server Handler"
  lib_files :: "(World \<Rightarrow> string \<Rightarrow> goerr + 'f) \<Rightarrow> World Handler"
  lib_dir :: "World \<Rightarrow> string \<Rightarrow> goerr + 'f"
  lib_stat :: "World \<Rightarrow> 'f \<Rightarrow> goerr + bool"

definition is_api :: "Route \<Rightarrow> bool" where
  "is_api route \<longleftrightarrow> route \<in> {PostTags, GetTags, PatchTag, DeleteTag, PostMedia, GetMedia, GetMediaItem, DeleteMedia,
     PostMediaTags, DeleteMediaTag, NoApiRoute}"

record Handlers =
  hs_health :: "World HealthHandler"
  hs_tag :: "World TagHandler"
  hs_media :: "World MediaHandler"

text \<open>The handler of a route below \<^verbatim>\<open>/api/v1\<close>.\<close>

definition api_route :: "Ext \<Rightarrow> 'f Lib \<Rightarrow> Handlers \<Rightarrow> World IdempotencyStore \<Rightarrow> Route \<Rightarrow> Server Handler" where
  "api_route X lib hs store route =
     (case route of
        PostTags \<Rightarrow> on_world (TagHandler_Create X (hs_tag hs))
      | GetTags \<Rightarrow> on_world (TagHandler_List X (hs_tag hs))
      | PatchTag \<Rightarrow> on_world (TagHandler_Update X (hs_tag hs))
      | DeleteTag \<Rightarrow> on_world (TagHandler_Delete X (hs_tag hs))
      | PostMedia \<Rightarrow> on_world (Idempotency store (MediaHandler_Create X (hs_media hs)))
      | GetMedia \<Rightarrow> on_world (MediaHandler_List X (hs_media hs))
      | GetMediaItem \<Rightarrow> on_world (MediaHandler_GetByID X (hs_media hs))
      | DeleteMedia \<Rightarrow> on_world (MediaHandler_Delete X (hs_media hs))
      | PostMediaTags \<Rightarrow> on_world (MediaHandler_AttachTags X (hs_media hs))
      | DeleteMediaTag \<Rightarrow> on_world (MediaHandler_DetachTag X (hs_media hs))
      | _ \<Rightarrow> lib_unmatched lib)"

definition uploads_route :: "'f Lib \<Rightarrow> Server Handler" where
  "uploads_route lib =
     on_world (safeFileHeaders (StripPrefix ''/uploads/''
       (lib_files lib (\<lambda>w. noDirFS_Open (lib_dir lib w) (lib_stat lib w)))))"

definition routes ::
  "Ext \<Rightarrow> 'f Lib \<Rightarrow> Handlers \<Rightarrow> uuid option \<Rightarrow> World IdempotencyStore \<Rightarrow> Server Handler" where
  "routes X lib hs devTenantID store r =
     (case lib_match lib r of (route, params) \<Rightarrow>
        let r = r\<lparr>rq_Params := params\<rparr> in
        if is_api route then
          APIKeyAuth (server_verify X) devTenantID (\<lambda>reason. on_metrics (IncAuthFailure reason))
            (api_route X lib hs store route) r
        else (case route of
            Healthz \<Rightarrow> on_world (HealthHandler_Liveness (hs_health hs)) r
          | Readyz \<Rightarrow> on_world (HealthHandler_Readiness (hs_health hs)) r
          | MetricsPage \<Rightarrow> lib_promhttp lib r
          | Uploads \<Rightarrow> uploads_route lib r
          | _ \<Rightarrow> lib_unmatched lib r))"

definition server_now :: "Server \<Rightarrow> time" where
  "server_now s = w_clock (sv_world s)"

text \<open>The stack, outermost first.\<close>

definition NewRouter ::
  "Ext \<Rightarrow> 'f Lib \<Rightarrow> Handlers \<Rightarrow> uuid option \<Rightarrow> string list \<Rightarrow> time \<Rightarrow> World IdempotencyStore \<Rightarrow> Server Handler" where
  "NewRouter X lib hs devTenantID corsOrigins requestTimeout store =
     RequestID X server_uuid (\<lambda>r.
     Recovery (on_metrics IncPanicRecovered) (
     Timeout server_now requestTimeout (
     Metrics_Handler on_metrics (lib_pattern lib) (
     Logger server_log (
     CORS corsOrigins (
     RateLimit server_admit (on_metrics IncRateLimitRejection) (
     SecurityHeaders (
     lib_Compress lib (
     routes X lib hs devTenantID store)))))))) (lib_RealIP lib r))"

section \<open>Lemmas\<close>

lemma on_world_eq: "on_world h r (wr, s) = (case h r (wr, sv_world s) of (x, (wr', w)) \<Rightarrow> (x, (wr', s\<lparr>sv_world := w\<rparr>)))"
  by (simp add: on_world_def zoom_def)

text \<open>A directory is never opened.\<close>

lemma noDirFS_file: "noDirFS_Open op stat n = Inr f \<Longrightarrow> op n = Inr f \<and> stat f = Inr False"
  by (auto simp: noDirFS_Open_def split: sum.splits if_splits)

lemma server_verify_world:
  assumes "av_Verify (server_verify X) ctx k s = (res, s')"
  shows "w_db (sv_world s') = w_db (sv_world s) \<and> w_disk (sv_world s') = w_disk (sv_world s)
    \<and> w_objects (sv_world s') = w_objects (sv_world s)"
proof -
  obtain v w where v: "Verify X ctx k (sv_verifier s, sv_world s) = (res, (v, w))"
    and s': "s' = s\<lparr>sv_verifier := v, sv_world := w\<rparr>"
    using assms by (auto simp: server_verify_def split: prod.splits)
  have q: "db_query q w0 = (r, w1) \<Longrightarrow> w_db w1 = w_db w0 \<and> w_disk w1 = w_disk w0 \<and> w_objects w1 = w_objects w0"
    for q :: "db \<Rightarrow> found_key option" and w0 r w1
    using db_opD [OF db_op_query] db_query_db by (auto simp: db_only_iff)
  have "w_db w = w_db (sv_world s) \<and> w_disk w = w_disk (sv_world s) \<and> w_objects w = w_objects (sv_world s)"
    using v q by (auto simp: Verify_def Let_def split: if_splits option.splits prod.splits sum.splits)
  then show ?thesis by (simp add: s')
qed

text \<open>
  A request below \<^verbatim>\<open>/api/v1\<close> whose key is missing or refused is answered 401 and changes no table,
  no file and no object.
\<close>

lemma api_unauthenticated:
  assumes api: "is_api (fst (lib_match lib r))" and wr: "wr_Sent wr = None"
    and dev: "extractAPIKey r = [] \<longrightarrow> dev = None"
    and ref: "extractAPIKey r \<noteq> [] \<longrightarrow> (\<exists>e. fst (av_Verify (server_verify X) (rq_Ctx r) (extractAPIKey r) s) = Inl e)"
  shows "\<exists>wr' s'. routes X lib hs dev store r (wr, s) = (Inr (), (wr', s')) \<and> final_status wr' = 401
    \<and> w_db (sv_world s') = w_db (sv_world s) \<and> w_disk (sv_world s') = w_disk (sv_world s)
    \<and> w_objects (sv_world s') = w_objects (sv_world s)"
proof -
  obtain route params where m: "lib_match lib r = (route, params)" by fastforce
  define r' where "r' = r\<lparr>rq_Params := params\<rparr>"
  have k: "extractAPIKey r' = extractAPIKey r" "rq_Ctx r' = rq_Ctx r" by (simp_all add: r'_def extractAPIKey_def)
  have run: "routes X lib hs dev store r (wr, s)
      = APIKeyAuth (server_verify X) dev (\<lambda>reason. on_metrics (IncAuthFailure reason)) (api_route X lib hs store route) r' (wr, s)"
    using api m by (simp add: routes_def r'_def Let_def)
  show ?thesis
  proof (cases "extractAPIKey r = []")
    case True
    with dev have "dev = None" by simp
    then show ?thesis unfolding run using True wr by (simp add: auth_missing k on_metrics_def)
  next
    case False
    with ref obtain e where "fst (av_Verify (server_verify X) (rq_Ctx r) (extractAPIKey r) s) = Inl e" by blast
    then obtain s' where v: "av_Verify (server_verify X) (rq_Ctx r') (extractAPIKey r') s = (Inl e, s')"
      by (metis k prod.collapse)
    from False have ne: "extractAPIKey r' \<noteq> []" by (simp add: k)
    show ?thesis unfolding run
      using auth_refused [OF ne v] server_verify_world [OF v] wr by (simp add: on_metrics_def)
  qed
qed

text \<open>The outermost layers never let a panic through.\<close>

lemma NewRouter_total: "fst (NewRouter X lib hs dev origins timeout store r st) = Inr ()"
  by (auto simp: NewRouter_def RequestID_def Let_def Recovery_total split: prod.splits)

end
