(* ===== verification/Replay.thy ===== *)
theory Replay
  imports Router Media_Files
begin

text \<open>
  Idempotent uploads: the idempotency middleware over the PostgreSQL store and the upload handler.
  A request that is repeated with its key gets the first answer again and changes nothing.
\<close>

section \<open>The store when nothing fails\<close>

lemma idem_get_no_faults:
  assumes "no_faults w" "TenantIDFromContext ctx = Inr t"
  shows "\<exists>w'. IdempotencyStore_Get ctx k w = (Inr (idem_cached ctx w k), w') \<and> w_db w' = w_db w \<and> db_only w w'"
  using tenant_exec_no_faults [OF assms, of "\<lambda>s t now d. Inr (sql_get_response s t k now d, d)"] assms(2)
  by (simp add: IdempotencyStore_Get_def idem_cached_def)

lemma idem_set_no_faults:
  assumes "no_faults w" "TenantIDFromContext ctx = Inr t" "is_tenant (w_db w) t" "idem_vacant ctx w k"
  shows "\<exists>w'. IdempotencyStore_Set ctx k c (Some b) w = (Inr (), w') \<and> db_only w w'"
proof -
  have "(t, k) \<notin> ik_pk ` set (idempotency_keys (w_db w))" using assms(2,4) by (simp add: vacant_pk)
  with tenant_exec_no_faults [OF assms(1,2), of "\<lambda>s t. sql_set_response s t k c (Some b)"] assms(3)
  show ?thesis by (auto simp: IdempotencyStore_Set_def sql_set_response_def)
qed

section \<open>What an upload leaves alone\<close>

definition idem_frame :: "World \<Rightarrow> World \<Rightarrow> bool" where
  "idem_frame w w' \<longleftrightarrow> idempotency_keys (w_db w') = idempotency_keys (w_db w) \<and> tenants (w_db w') = tenants (w_db w)
     \<and> w_clock w' = w_clock w \<and> w_faults w' = w_faults w"

lemma idem_frame_refl [simp]: "idem_frame w w"
  by (simp add: idem_frame_def)

lemma idem_frame_db:
  assumes "\<And>k t. db_keeps (\<lambda>d. idempotency_keys d = k \<and> tenants d = t) f" "db_op f"
  shows "keeps (idem_frame w0) f"
proof (rule keepsI)
  fix w r w' assume w: "idem_frame w0 w" and r: "f w = (r, w')"
  from keepsD [OF assms(1) _ r, of "idempotency_keys (w_db w)" "tenants (w_db w)"] db_opD [OF assms(2) r] w
  show "idem_frame w0 w'" by (simp add: idem_frame_def db_only_iff)
qed

lemma idem_frame_files: "files_op f \<Longrightarrow> keeps (idem_frame w0) f"
  by (rule keepsI) (simp add: idem_frame_def files_opD)

lemma keeps_keys_associate:
  "db_keeps (\<lambda>d. idempotency_keys d = k \<and> tenants d = t) (associate_tags X s tid i ids)"
  by (induction ids) (auto intro!: preserves simp: sql_insert_link_def split: if_splits)

lemma idem_frame_repos:
  "keeps (idem_frame w0) (TagRepo_CreateOrGet ctx n)" "keeps (idem_frame w0) (MediaRepo_Create X ctx m ids)"
proof -
  show "keeps (idem_frame w0) (TagRepo_CreateOrGet ctx n)"
    by (intro idem_frame_db db_op_TagRepo keeps_TagRepo)
      (auto simp: sql_rename_tag_def sql_delete_tag_def Let_def elim: insert_tag_Inr split: if_splits option.splits)
  show "keeps (idem_frame w0) (MediaRepo_Create X ctx m ids)"
    unfolding MediaRepo_Create_def MediaCreate_tx_def
    by (intro idem_frame_db preserves frame keeps_keys_associate) (auto dest: insert_media_Inr)
qed

lemma idem_frame_upload:
  assumes "ms_repo s = PostgresMediaRepo X" "ms_tagRepo s = PostgresTagRepo X"
    and "\<And>c e. files_op (fs_Save (ms_storage s) ctx c e)" "\<And>p. files_op (fs_Delete (ms_storage s) ctx p)"
  shows "keeps (idem_frame w0) (MediaService_Create X s ctx input)"
proof -
  have tag: "keeps (idem_frame w0) (tr_CreateOrGet (ms_tagRepo s) ctx n)" for n
    by (simp add: assms(2) idem_frame_repos)
  show ?thesis
    unfolding MediaService_Create_def insert_or_undo_def Let_def assms(1) PostgresMediaRepo_sel
    by (intro preserves resolve_names_keeps tag assms(3,4) [THEN idem_frame_files] idem_frame_repos)
qed

text \<open>The upload handler acts on the world through the service only.\<close>

lemma upload_handler_world:
  assumes "MediaHandler_Create X h r (wr, w) = (x, (wr', w'))"
  shows "w' = w \<or> (\<exists>input res. MediaService_Create X (mh_service h) (rq_Ctx r) input w = (res, w'))"
  using assms
  by (auto simp: MediaHandler_Create_def scoped_def upload_file_def and_then_def respond_def call_def Let_def
      split: option.splits sum.splits if_splits list.splits prod.splits)

section \<open>The second request\<close>

lemma captured_plain: "captured_status 0 [CHeader c, CWrite b] = c" "captured_body [CHeader c, CWrite b] = b"
  by simp_all

text \<open>The first run of any handler that leaves the store and the clock alone: its answer is stored.\<close>

lemma first_run_stored:
  assumes nf: "no_faults w" and t: "TenantIDFromContext (rq_Ctx r) = Inr t" "is_tenant (w_db w) t"
    and k: "rq_Header r idempotencyKeyHeader = k" "k \<noteq> []" "idem_vacant (rq_Ctx r) w k"
    and fr: "\<And>w0 x wr' w'. h r (new_writer, w0) = (x, (wr', w')) \<Longrightarrow> idem_frame w0 w'"
    and c: "200 \<le> c" "c < 300" "b \<noteq> []"
    and run: "Idempotency PostgresIdempotencyStore h r (new_writer, w) = (Inr (), (wr1, w1))"
    and wr1: "wr_Calls wr1 = [CHeader c, CWrite b]"
  shows "\<exists>w3. idem_vacant (rq_Ctx r) w3 k \<and> w_clock w3 = w_clock w
    \<and> IdempotencyStore_Set (rq_Ctx r) k c (Some b) w3 = (Inr (), w1)"
proof -
  have none: "idem_cached (rq_Ctx r) w k = None" by (rule pg_idem.vacant_uncached [OF k(3)])
  obtain w2 where g: "IdempotencyStore_Get (rq_Ctx r) k w = (Inr None, w2)" "w_db w2 = w_db w" "db_only w w2"
    using idem_get_no_faults [OF nf t(1), of k] none by auto
  obtain x wr' w3 where h: "h r (new_writer, w2) = (x, (wr', w3))" by (metis prod.collapse)
  have run': "run_and_store PostgresIdempotencyStore k h r (new_writer, w2) = (Inr (), (wr1, w1))"
    using run k g by (simp add: Idempotency_def and_then_def)
  then have x: "x = Inr ()" using h by (cases x) (auto simp: run_and_store_def)
  have wr': "wr' = wr1" using run' h x by (auto simp: run_and_store_def Let_def split: if_splits)
  have st: "w1 = snd (IdempotencyStore_Set (rq_Ctx r) k c (Some b) w3)"
    using run' h x wr1 c unfolding wr'
    by (simp add: run_and_store_def Let_def calls_made_def new_writer_def buffer_bytes_def)
  note f = fr [OF h]
  have w3: "no_faults w3" "is_tenant (w_db w3) t" "idem_vacant (rq_Ctx r) w3 k" "w_clock w3 = w_clock w"
    using f g nf t(2) k(3) by (simp_all add: idem_frame_def no_faults_def db_only_iff is_tenant_def idem_vacant_def)
  from idem_set_no_faults [OF w3(1) t(1) w3(2,3), of c b] st
  have "IdempotencyStore_Set (rq_Ctx r) k c (Some b) w3 = (Inr (), w1)" by auto
  with w3 show ?thesis by blast
qed

text \<open>Any later request of the tenant with the key, within 24 hours: the same answer, no effect.\<close>

lemma second_run_replays:
  assumes t: "TenantIDFromContext ctx = Inr t" "TenantIDFromContext (rq_Ctx r2) = Inr t"
    and k: "rq_Header r2 idempotencyKeyHeader = k" "k \<noteq> []"
    and s: "idem_vacant ctx w3 k" "IdempotencyStore_Set ctx k c (Some b) w3 = (Inr (), w1)"
    and w2: "w_db w2 = w_db w1" "no_faults w2" "w_clock w2 < w_clock w3 + idempotencyTTL"
  shows "\<exists>w4. Idempotency PostgresIdempotencyStore h r2 (wr, w2) = (Inr (), (replay c b wr, w4))
    \<and> w_db w4 = w_db w2 \<and> db_only w2 w4"
proof -
  have "idem_cached ctx w2 k = Some (c, b)" using cached_until [OF t(1) s w2(1)] w2(3) by simp
  then have "idem_cached (rq_Ctx r2) w2 k = Some (c, b)" using t by (simp add: idem_cached_def)
  with idem_get_no_faults [OF w2(2) t(2), of k] obtain w4 where
    "IdempotencyStore_Get (rq_Ctx r2) k w2 = (Inr (Some (c, b)), w4)" "w_db w4 = w_db w2" "db_only w2 w4" by auto
  with k show ?thesis by (simp add: Idempotency_def and_then_def)
qed

text \<open>The upload handler on the PostgreSQL repositories and a storage beside the tables.\<close>

definition pg_upload :: "Ext \<Rightarrow> World MediaHandler \<Rightarrow> bool" where
  "pg_upload X h \<longleftrightarrow> (let s = mh_service h in ms_repo s = PostgresMediaRepo X \<and> ms_tagRepo s = PostgresTagRepo X
     \<and> (\<forall>ctx c e. files_op (fs_Save (ms_storage s) ctx c e)) \<and> (\<forall>ctx p. files_op (fs_Delete (ms_storage s) ctx p)))"

lemma pg_upload_local: "pg_upload X (NewMediaHandler (NewMediaService (PostgresMediaRepo X) (PostgresTagRepo X) (LocalFileStorage X s) b) n)"
  by (simp add: pg_upload_def NewMediaHandler_def NewMediaService_def files_op_local)

lemma pg_upload_s3: "pg_upload X (NewMediaHandler (NewMediaService (PostgresMediaRepo X) (PostgresTagRepo X) (S3FileStorage X ps s) b) n)"
  by (simp add: pg_upload_def NewMediaHandler_def NewMediaService_def files_op_s3)

lemma upload_handler_frame:
  assumes "pg_upload X h" "MediaHandler_Create X h r (wr, w) = (x, (wr', w'))"
  shows "idem_frame w w'"
proof -
  have k: "keeps (idem_frame w) (MediaService_Create X (mh_service h) (rq_Ctx r) input)" for input
    using assms(1) by (intro idem_frame_upload) (simp_all add: pg_upload_def Let_def)
  from upload_handler_world [OF assms(2)] show ?thesis
    by (elim disjE exE) (simp, rule keepsD [OF k idem_frame_refl])
qed

lemma upload_replayed:
  assumes h: "pg_upload X h" and nf: "no_faults w"
    and t: "TenantIDFromContext (rq_Ctx r) = Inr t" "is_tenant (w_db w) t"
    and k: "rq_Header r idempotencyKeyHeader = k" "k \<noteq> []" "idem_vacant (rq_Ctx r) w k"
    and run: "Idempotency PostgresIdempotencyStore (MediaHandler_Create X h) r (new_writer, w)
      = (Inr (), (writeJSON 201 (Some j) new_writer, w1))"
    and r2: "TenantIDFromContext (rq_Ctx r2) = Inr t" "rq_Header r2 idempotencyKeyHeader = k"
    and w2: "w_db w2 = w_db w1" "no_faults w2" "w_clock w2 < w_clock w + idempotencyTTL"
  shows "\<exists>wr2 w3. Idempotency PostgresIdempotencyStore (MediaHandler_Create X h) r2 (new_writer, w2) = (Inr (), (wr2, w3))
    \<and> final_status wr2 = 201 \<and> wr_Body wr2 = wr_Body (writeJSON 201 (Some j) new_writer)
    \<and> w_db w3 = w_db w2 \<and> w_disk w3 = w_disk w2 \<and> w_objects w3 = w_objects w2"
proof -
  let ?b = "string_of (json_text j) @ [CHR 0x0A]"
  have calls: "wr_Calls (writeJSON 201 (Some j) new_writer) = [CHeader 201, CWrite ?b]"
    and body: "wr_Body (writeJSON 201 (Some j) new_writer) = ?b"
    by (simp_all add: writeJSON_def Let_def new_writer_def)
  obtain w3 where s: "idem_vacant (rq_Ctx r) w3 k" "w_clock w3 = w_clock w"
    "IdempotencyStore_Set (rq_Ctx r) k 201 (Some ?b) w3 = (Inr (), w1)"
    using first_run_stored [OF nf t k _ _ _ _ run calls] upload_handler_frame [OF h] by auto
  have "w_clock w2 < w_clock w3 + idempotencyTTL" using s w2 by simp
  from second_run_replays [OF t(1) r2 k(2) s(1,3) w2(1,2) this, of "MediaHandler_Create X h" new_writer] replay_response
  show ?thesis unfolding body by (auto simp: new_writer_def db_only_iff)
qed

end
