(* ===== verification/Service_Properties.thy ===== *)
theory Service_Properties
  imports Data_Properties Upload_Progress Media_Listing Demo_Text Replay
begin

text \<open>
  The properties of the services: paging through text cursors, uploads and deletions with their
  files, the storage as a map, each with a witness on the state of \<open>Demo_Text\<close>.
\<close>

section \<open>Paging\<close>

text \<open>C23: a client that follows the tag service's text cursors, with any limit, gets every tag of its
  tenant exactly once, and the walk ends: one call more than there are tags is always enough,
  whatever page size the limit is clamped to.\<close>

theorem tag_api_listing:
  assumes "db_inv (w_db w)" and "no_faults w" and "TenantIDFromContext ctx = Inr t" and "uuid_text_spec X"
    and "\<forall>r \<in> set (tags (w_db w)). utf8_decode (tg_name r) \<noteq> None"
  shows "\<exists>w' ts. follow_text (Suc (length (tag_rows t (w_db w))))
        (TagService_List X (NewTagService (PostgresTagRepo X)) ctx l) [] w = (Inr (Some ts), w')
    \<and> distinct (map tag_ID ts) \<and> set ts = tag_of_row ` {r \<in> set (tags (w_db w)). tg_tenant r = t}"
  using tag_service_listing [OF assms, of "Suc (length (tag_rows t (w_db w)))" l] all_tags_ids [OF assms(1)] by auto

lemma demo_names_decode: "\<forall>r \<in> set (tags demo_db). utf8_decode (tg_name r) \<noteq> None"
  by (simp add: demo_db_sel utf8_decode_def decode_rune_def of_char_def)

theorem tag_api_listing_witness:
  "\<exists>w' ts. follow_text 3 (TagService_List text_ext (NewTagService (PostgresTagRepo text_ext)) (demo_ctx 1) 1) []
      text_world = (Inr (Some ts), w') \<and> distinct (map tag_ID ts)"
  using tag_api_listing [of text_world "demo_ctx 1" 1 text_ext 1] demo_names_decode
  by (auto simp: tag_rows_def demo_db_sel eval_nat_numeral)

text \<open>C3: following the media service's cursors returns exactly the tenant's items that carry all the
  given tag ids and all the given names after normalisation, each once.\<close>

theorem media_api_listing:
  assumes "db_inv (w_db w)" and "no_faults w" and "TenantIDFromContext ctx = Inr t" and "uuid_text_spec X"
    and "time_text_spec X" and "\<forall>r \<in> set (media (w_db w)). json_time (md_created r)"
    and "length (mf_TagIDs f) \<le> maxFilterTags" and "length (mf_TagNames f) \<le> maxFilterTags"
    and "normalize_names X {} (mf_TagNames f) = Inr names" and "length (media (w_db w)) < fuel"
  shows "\<exists>w' ms. follow_text fuel
        (\<lambda>c. MediaService_List X (NewMediaService (PostgresMediaRepo X) tr st b) ctx l c f) [] w = (Inr (Some ms), w')
    \<and> distinct (map media_ID ms)
    \<and> set ms = {m. \<exists>r \<in> set (media (w_db w)). md_tenant r = t
         \<and> media_matches t (w_db w) \<lparr>mf_TagIDs = deduplicateUUIDs (mf_TagIDs f), mf_TagNames = names\<rparr> r
         \<and> media_get X t (w_db w) (md_id r) = Some m}"
  using media_service_listing [OF assms, of tr st b l] all_media_spec [OF assms(1)] unfolding clean_filter_def by blast

theorem media_api_listing_witness:
  "\<exists>w' ms. follow_text 4 (\<lambda>c. MediaService_List text_ext (NewMediaService (PostgresMediaRepo text_ext)
        (PostgresTagRepo text_ext) (LocalFileStorage text_ext text_store) []) (demo_ctx 1) 1 c
        \<lparr>mf_TagIDs = [10, 10], mf_TagNames = []\<rparr>) [] text_world = (Inr (Some ms), w') \<and> distinct (map media_ID ms)"
  using media_api_listing [of text_world "demo_ctx 1" 1 text_ext "\<lparr>mf_TagIDs = [10, 10], mf_TagNames = []\<rparr>" "[]" 4
      "PostgresTagRepo text_ext" "LocalFileStorage text_ext text_store" "[]" 1]
  by (auto simp: demo_db_sel json_time_def maxFilterTags_def)

text \<open>C27: a cursor reads back as what it was made from, through JSON and base64, for a name that is
  valid UTF-8 and a time whose year is between 0 and 9999; the empty text is the first page.\<close>

theorem cursor_roundtrip:
  assumes "uuid_text_spec X" and "time_text_spec X"
    and "\<And>c. tc = Some c \<Longrightarrow> utf8_decode (tc_Name c) \<noteq> None" and "\<And>c. mc = Some c \<Longrightarrow> json_time (mc_CreatedAt c)"
  shows "DecodeTagCursor X (EncodeTagCursor X tc) = Inr tc \<and> DecodeMediaCursor X (EncodeMediaCursor X mc) = Inr mc"
  using tag_cursor_roundtrip [OF assms(1,3)] media_cursor_roundtrip [OF assms(1,2,4)] by blast

theorem cursor_roundtrip_witness:
  "DecodeTagCursor text_ext (EncodeTagCursor text_ext (Some \<lparr>tc_Name = ''goal'', tc_ID = 10\<rparr>))
      = Inr (Some \<lparr>tc_Name = ''goal'', tc_ID = 10\<rparr>)
   \<and> DecodeMediaCursor text_ext (EncodeMediaCursor text_ext (Some \<lparr>mc_CreatedAt = 8, mc_ID = 21\<rparr>))
      = Inr (Some \<lparr>mc_CreatedAt = 8, mc_ID = 21\<rparr>)"
  by (rule cursor_roundtrip)
    (auto simp: json_time_def utf8_decode_def decode_rune_def of_char_def)

section \<open>Uploads and their files\<close>

text \<open>
  Every media row, of whatever tenant, has its file below the base directory, under a path no other
  row has; the schema's constraints hold and the storage is ready for ids 0 to \<open>N - 1\<close> of the run.
\<close>

definition files_consistent :: "nat \<Rightarrow> Ext \<Rightarrow> LocalStorage \<Rightarrow> World \<Rightarrow> bool" where
  "files_consistent N X s w \<longleftrightarrow> db_inv (w_db w) \<and> local_ready N X s w
     \<and> inj_on (stored_paths w) (dom (stored_paths w))
     \<and> (\<forall>i p. stored_paths w i = Some p \<longrightarrow> rel_path p \<and> local_files s w p \<noteq> None)"

lemma files_consistent_eq:
  "files_consistent N X s w \<longleftrightarrow> upload_service.stored_ok (\<lambda>w. db_inv (w_db w)) (local_ready N X s) rel_path
     (local_files s) stored_paths w"
  unfolding files_consistent_def local_store.uploads.stored_ok_def ..

lemma ids_left:
  "MediaService_Create X (pg_service X s b) ctx input w = (r, w') \<Longrightarrow>
    w_drawn w + length (ci_TagNames input) + 2 \<le> N \<Longrightarrow> in_supply N w'"
  using drawsD [OF draws_upload] unfolding in_supply_def by fastforce

lemmas upload_facts [unfolded files_consistent_eq [symmetric]] =
  local_store.uploads.upload_Inr [OF pg_service_sel(1,3,2)] local_store.uploads.upload_Inl [OF pg_service_sel(1,3,2)]
  local_store.uploads.upload_undone [OF pg_service_sel(1,3,2)]
  local_store.uploads.stored_ok_upload [OF pg_service_sel(1,3,2)]
  local_store.uploads.stored_ok_delete [OF pg_service_sel(1,3)]

text \<open>A world without media, in which the first upload of a tenant succeeds.\<close>

definition upload_world :: World where
  "upload_world = text_world\<lparr>w_db := demo_db\<lparr>media := [], media_tags := []\<rparr>\<rparr>"

definition upload_input :: CreateInput where
  "upload_input = \<lparr>ci_Name = ''  a  b '', ci_File = ''bytes'', ci_FileName = ''x.png'', ci_FileSize = 5,
     ci_TagIDs = [10], ci_TagNames = [], ci_ContentType = ''image/png''\<rparr>"

lemma upload_world_sel [simp]:
  "w_drawn upload_world = 0" "no_faults upload_world" "\<not> lost_ack upload_world"
  "w_db upload_world = demo_db\<lparr>media := [], media_tags := []\<rparr>" "w_clock upload_world = 50"
  by (simp_all add: upload_world_def no_faults_def lost_ack_def)

lemma upload_world_inv: "db_inv (demo_db\<lparr>media := [], media_tags := []\<rparr>)"
  using demo_inv by (simp add: db_inv_def ok_defs is_tenant_def demo_db_sel)

lemma upload_world_consistent: "files_consistent 1000 text_ext text_store upload_world"
proof -
  have "local_ready 1000 text_ext text_store upload_world"
    using text_store_ready by (simp add: local_ready_def local_inv_def fresh_ids_def upload_world_def)
  then show ?thesis using upload_world_inv by (simp add: files_consistent_def stored_paths_def dom_def)
qed

lemma upload_input_sel [simp]: "ci_TagNames upload_input = []" "length (ci_TagIDs upload_input) = 1"
  by (simp_all add: upload_input_def)

lemma upload_input_ok:
  "SanitizeName (x_nfc text_ext) (ci_Name upload_input) = Inr ''a b''"
  "classifyContentType (ci_ContentType upload_input) (ci_FileName upload_input) = Inr (MediaTypeImage, ''.png'')"
  using sanitize_demo
  by (simp_all add: text_ext_sel upload_input_def classifyContentType_def allowedMIMETypes_def has_prefix_def)

lemma upload_run_at:
  assumes "no_faults w" "w_db w = w_db upload_world"
  shows "\<exists>m w'. MediaService_Create text_ext (pg_service text_ext text_store b) (demo_ctx 1) upload_input w = (Inr m, w')
    \<and> media_CreatedAt m = w_clock w \<and> set (media_Tags m) \<subseteq> tag_of_row ` set (tags demo_db)"
proof -
  have "is_tenant (w_db w) 1" by (simp add: assms(2) is_tenant_def demo_db_sel)
  from upload_succeeds [OF text_ext_uuid_string assms(1) _ demo_ctx_tenant this upload_input_ok, of text_store b] show ?thesis
    using upload_world_inv by (simp add: assms(2) maxTagsPerMedia_def)
qed

lemma upload_run: "\<exists>m w'. MediaService_Create text_ext (pg_service text_ext text_store b) (demo_ctx 1) upload_input upload_world
    = (Inr m, w')"
  using upload_run_at [of upload_world b] by auto

text \<open>C11: a successful upload: the returned item, with the sanitised name, reads back under a new id;
  its file has the uploaded bytes and a path that was free; no other file changes.\<close>

theorem upload_stores_file:
  assumes "files_consistent N X s w" and "w_drawn w + length (ci_TagNames input) + 2 \<le> N"
    and "MediaService_Create X (pg_service X s b) ctx input w = (Inr m, w')"
  shows "ctx_media X ctx w' (media_ID m) = Some m \<and> stored_paths w (media_ID m) = None
    \<and> stored_paths w' = (stored_paths w)(media_ID m \<mapsto> media_FilePath m)
    \<and> local_files s w (media_FilePath m) = None
    \<and> local_files s w' = (local_files s w)(media_FilePath m \<mapsto> ci_File input)
    \<and> SanitizeName (x_nfc X) (ci_Name input) = Inr (media_Name m)
    \<and> media_OriginalName m = sanitizeFilename (ci_FileName input) \<and> media_FileSize m = ci_FileSize input"
  using upload_facts(1) [OF assms(1,3) ids_left [OF assms(3,2)]] by blast

theorem upload_stores_file_witness:
  "\<exists>m w'. MediaService_Create text_ext (pg_service text_ext text_store []) (demo_ctx 1) upload_input upload_world
      = (Inr m, w') \<and> local_files text_store w' (media_FilePath m) = Some ''bytes''"
  using upload_run [of "[]"] upload_stores_file [OF upload_world_consistent, of upload_input "[]" "demo_ctx 1"]
  by (fastforce simp: upload_input_def)

text \<open>C8: whichever calls failed, before or after their effect, a failed upload has added no media row (the ids
  and paths of the rows are the same) and no file, or it has left one file behind, under a path that
  was free (when the compensating delete failed too), and no media row.  The exception is a COMMIT that
  took effect and was reported as failed: then the media row may be there, and its file, which the
  compensating delete was to remove, may or may not.  When no call fails, a failed upload leaves every
  file as it was.  Tags that were created from names stay.  The random UUIDs drawn are distinct.\<close>

theorem failed_upload_undone:
  assumes "files_consistent N X s w" and "w_drawn w + length (ci_TagNames input) + 2 \<le> N"
    and "MediaService_Create X (pg_service X s b) ctx input w = (Inl e, w')"
  shows "(stored_paths w' = stored_paths w \<and> local_files s w' = local_files s w \<or>
      (\<exists>p. local_files s w p = None \<and> (local_files s w')(p := None) = local_files s w
        \<and> (stored_paths w' = stored_paths w
           \<or> lost_ack w \<and> (\<exists>i. stored_paths w i = None \<and> stored_paths w' = (stored_paths w)(i \<mapsto> p)))))
    \<and> (\<not> lost_ack w \<longrightarrow> stored_paths w' = stored_paths w)
    \<and> (no_faults w \<longrightarrow> local_files s w' = local_files s w)"
  using upload_facts(2) [OF assms(1,3) ids_left [OF assms(3,2)]]
    upload_facts(3) [OF assms(1) _ assms(3) ids_left [OF assms(3,2)]] by blast

theorem failed_upload_undone_witness:
  "\<exists>e w'. MediaService_Create text_ext (pg_service text_ext text_store []) background upload_input upload_world
      = (Inl e, w') \<and> local_files text_store w' = local_files text_store upload_world"
proof -
  have "MediaService_Create text_ext (pg_service text_ext text_store []) background upload_input upload_world
      = (Inl (Errorf ''save file to storage: '' ErrNoTenantContext ''''), upload_world)"
    using upload_input_ok
    by (simp add: MediaService_Create_def and_then_def of_result_def maxTagsPerMedia_def ret_def map_err_def Local_Save_def
        TenantIDFromContext_def IdentityFromContext_def background_def)
  with failed_upload_undone [OF upload_world_consistent, of upload_input "[]" background] show ?thesis by fastforce
qed

text \<open>
  Runs of a media service by any tenants, interleaved with anything else that works on the tables
  and leaves the media rows alone; the first \<open>N\<close> ids suffice for them.
\<close>

inductive file_run :: "nat \<Rightarrow> Ext \<Rightarrow> World MediaService \<Rightarrow> World \<Rightarrow> World \<Rightarrow> bool"
  for N X sv w where
  Start: "file_run N X sv w w"
| Upload: "file_run N X sv w v \<Longrightarrow> MediaService_Create X sv ctx input v = (r, v') \<Longrightarrow> in_supply N v' \<Longrightarrow> file_run N X sv w v'"
| Remove: "file_run N X sv w v \<Longrightarrow> MediaService_Delete sv ctx i v = (q, v') \<Longrightarrow> file_run N X sv w v'"
| Tables: "file_run N X sv w v \<Longrightarrow> db_only v v' \<Longrightarrow> db_inv (w_db v') \<Longrightarrow> media (w_db v') = media (w_db v) \<Longrightarrow>
    file_run N X sv w v'"

definition pg_media :: "Ext \<Rightarrow> World MediaService \<Rightarrow> bool" where
  "pg_media X sv \<longleftrightarrow> ms_repo sv = PostgresMediaRepo X \<and> ms_tagRepo sv = PostgresTagRepo X
     \<and> (\<forall>ctx c e. files_op (fs_Save (ms_storage sv) ctx c e)) \<and> (\<forall>ctx p. files_op (fs_Delete (ms_storage sv) ctx p))"

text \<open>Which calls will fail is settled by the start of a run.\<close>

lemma media_faults:
  assumes "pg_media X sv"
  shows "MediaService_Create X sv ctx input w = (r, w') \<Longrightarrow> w_faults w' = w_faults w"
    and "MediaService_Delete sv ctx i w = (q, w') \<Longrightarrow> w_faults w' = w_faults w"
proof -
  note sv = assms [unfolded pg_media_def]
  have "keeps (idem_frame w) (MediaService_Create X sv ctx input)" using sv by (intro idem_frame_upload) auto
  from keepsD [OF this idem_frame_refl] show "MediaService_Create X sv ctx input w = (r, w') \<Longrightarrow> w_faults w' = w_faults w"
    by (simp add: idem_frame_def)
  have "keeps (\<lambda>v. w_faults v = w_faults w) (MediaRepo_Delete ctx i)"
    by (intro keepsI) (metis db_opD [OF db_op_MediaRepo(4)] db_only_fields(5))
  moreover have "keeps (\<lambda>v. w_faults v = w_faults w) (fs_Delete (ms_storage sv) ctx p)" for p
  proof (rule keepsI)
    fix v r v' assume "w_faults v = w_faults w" and d: "fs_Delete (ms_storage sv) ctx p v = (r, v')"
    moreover have "files_op (fs_Delete (ms_storage sv) ctx p)" using sv by blast
    from files_opD [OF this d] have "w_faults v' = w_faults v" by simp
    ultimately show "w_faults v' = w_faults w" by simp
  qed
  ultimately have "keeps (\<lambda>v. w_faults v = w_faults w) (MediaService_Delete sv ctx i)"
    unfolding MediaService_Delete_def sv [THEN conjunct1] PostgresMediaRepo_sel by (intro preserves)
  from keepsD [OF this refl] show "MediaService_Delete sv ctx i w = (q, w') \<Longrightarrow> w_faults w' = w_faults w" .
qed

lemma file_run_keeps:
  assumes "file_run N X sv w v" "pg_media X sv" "C w" "\<not> lost_ack w"
    and up: "\<And>v ctx input r v'. C v \<Longrightarrow> \<not> lost_ack v \<Longrightarrow> MediaService_Create X sv ctx input v = (r, v') \<Longrightarrow> in_supply N v' \<Longrightarrow> C v'"
    and rm: "\<And>v ctx i q v'. C v \<Longrightarrow> \<not> lost_ack v \<Longrightarrow> MediaService_Delete sv ctx i v = (q, v') \<Longrightarrow> C v'"
    and tab: "\<And>v v'. C v \<Longrightarrow> db_only v v' \<Longrightarrow> db_inv (w_db v') \<Longrightarrow> media (w_db v') = media (w_db v) \<Longrightarrow> C v'"
  shows "C v \<and> \<not> lost_ack v"
  using assms(1-4)
proof (induction rule: file_run.induct)
  case (Upload v ctx input r v')
  then show ?case using up [OF _ _ Upload(2,3)] media_faults(1) [OF _ Upload(2)] by (simp add: lost_ack_def)
next
  case (Remove v ctx i q v')
  then show ?case using rm [OF _ _ Remove(2)] media_faults(2) [OF _ Remove(2)] by (simp add: lost_ack_def)
next
  case (Tables v v')
  then show ?case using tab [OF _ Tables(2-4)] by (simp add: lost_ack_def db_only_iff)
qed simp

lemma pg_media_local: "pg_media X (pg_service X s b)"
  by (simp add: pg_media_def files_op_local)

text \<open>No dangling rows: whatever uploads and deletions are run, with calls failing in between, every
  media row keeps its file, under a path no other row has, unless a COMMIT takes effect and is reported
  as failed.\<close>

lemma rows_keep_files:
  assumes "file_run N X (pg_service X s b) w v" and "files_consistent N X s w" and "\<not> lost_ack w"
  shows "files_consistent N X s v"
proof (rule file_run_keeps [where C = "files_consistent N X s", OF assms(1) pg_media_local assms(2,3), THEN conjunct1])
  fix v ctx input r v'
  show "files_consistent N X s v \<Longrightarrow> \<not> lost_ack v \<Longrightarrow> MediaService_Create X (pg_service X s b) ctx input v = (r, v') \<Longrightarrow>
    in_supply N v' \<Longrightarrow> files_consistent N X s v'" by (rule upload_facts(4))
next
  fix v ctx i q v'
  show "files_consistent N X s v \<Longrightarrow> \<not> lost_ack v \<Longrightarrow> MediaService_Delete (pg_service X s b) ctx i v = (q, v') \<Longrightarrow>
    files_consistent N X s v'" by (rule upload_facts(5))
next
  fix v v' assume "files_consistent N X s v" and t: "db_only v v'" "db_inv (w_db v')" "media (w_db v') = media (w_db v)"
  then show "files_consistent N X s v'"
    using stored_paths_cong [OF t(3)] local_files_db_only [OF t(1)] local_inv_db_only [OF t(1)]
    by (auto simp: files_consistent_def local_ready_def)
qed

lemma rows_keep_files_witness:
  "\<exists>m w'. MediaService_Create text_ext (pg_service text_ext text_store []) (demo_ctx 1) upload_input upload_world
      = (Inr m, w') \<and> files_consistent 1000 text_ext text_store w'"
proof -
  obtain m w' where r: "MediaService_Create text_ext (pg_service text_ext text_store []) (demo_ctx 1) upload_input
      upload_world = (Inr m, w')" using upload_run by blast
  have "file_run 1000 text_ext (pg_service text_ext text_store []) upload_world w'"
    by (rule Upload [OF Start r]) (rule ids_left [OF r], simp)
  from r rows_keep_files [OF this upload_world_consistent] show ?thesis by simp
qed

text \<open>The same service on S3: a row's path is the key of an object.\<close>

definition s3_service :: "Ext \<Rightarrow> (string \<Rightarrow> string \<Rightarrow> time \<Rightarrow> goerr + string) \<Rightarrow> S3Storage \<Rightarrow> string \<Rightarrow> World MediaService" where
  "s3_service X ps s b = NewMediaService (PostgresMediaRepo X) (PostgresTagRepo X) (S3FileStorage X ps s) b"

lemma s3_service_sel [simp]:
  "ms_repo (s3_service X ps s b) = PostgresMediaRepo X" "ms_tagRepo (s3_service X ps s b) = PostgresTagRepo X"
  "ms_storage (s3_service X ps s b) = S3FileStorage X ps s"
  by (simp_all add: s3_service_def NewMediaService_def)

lemma pg_media_s3: "pg_media X (s3_service X ps s b)"
  by (simp add: pg_media_def files_op_s3)

definition objects_consistent :: "nat \<Rightarrow> Ext \<Rightarrow> S3Storage \<Rightarrow> World \<Rightarrow> bool" where
  "objects_consistent N X s w \<longleftrightarrow> db_inv (w_db w) \<and> s3_ready N X s w
     \<and> inj_on (stored_paths w) (dom (stored_paths w)) \<and> (\<forall>i p. stored_paths w i = Some p \<longrightarrow> w_objects w p \<noteq> None)"

lemma objects_consistent_eq:
  "objects_consistent N X s w \<longleftrightarrow> upload_service.stored_ok (\<lambda>w. db_inv (w_db w)) (s3_ready N X s) (\<lambda>_. True)
     w_objects stored_paths w"
  unfolding objects_consistent_def s3_store.uploads.stored_ok_def by simp

lemmas s3_facts [unfolded objects_consistent_eq [symmetric]] =
  s3_store.uploads.stored_ok_upload [OF s3_service_sel(1,3,2)] s3_store.uploads.stored_ok_delete [OF s3_service_sel(1,3)]

text \<open>On S3 too every media row keeps its object, under a key no other row has, through all uploads and
  deletions with failing calls, unless a COMMIT takes effect and is reported as failed.\<close>

lemma rows_keep_objects:
  assumes "file_run N X (s3_service X ps s b) w v" and "objects_consistent N X s w" and "\<not> lost_ack w"
  shows "objects_consistent N X s v"
proof (rule file_run_keeps [where C = "objects_consistent N X s", OF assms(1) pg_media_s3 assms(2,3), THEN conjunct1])
  fix v ctx input r v'
  show "objects_consistent N X s v \<Longrightarrow> \<not> lost_ack v \<Longrightarrow> MediaService_Create X (s3_service X ps s b) ctx input v = (r, v') \<Longrightarrow>
    in_supply N v' \<Longrightarrow> objects_consistent N X s v'" by (rule s3_facts(1))
next
  fix v ctx i q v'
  show "objects_consistent N X s v \<Longrightarrow> \<not> lost_ack v \<Longrightarrow> MediaService_Delete (s3_service X ps s b) ctx i v = (q, v') \<Longrightarrow>
    objects_consistent N X s v'" by (rule s3_facts(2))
next
  fix v v' assume "objects_consistent N X s v" and t: "db_only v v'" "db_inv (w_db v')" "media (w_db v') = media (w_db v)"
  then show "objects_consistent N X s v'"
    using stored_paths_cong [OF t(3)]
    by (auto simp: objects_consistent_def s3_ready_def fresh_ids_def db_only_iff)
qed

text \<open>A bucket, and the upload on it.\<close>

definition text_bucket :: S3Storage where
  "text_bucket = \<lparr>st_client = \<lparr>cl_region = ''eu'', cl_static = None, cl_endpoint = None, cl_pathStyle = False\<rparr>,
     st_bucket = ''media'', st_prefix = [], st_cdnURL = []\<rparr>"

lemma upload_world_objects: "objects_consistent 1000 text_ext text_bucket upload_world"
proof -
  have "fresh_ids 1000 upload_world" "w_objects upload_world = Map.empty"
    using upload_world_consistent by (simp_all add: files_consistent_def local_ready_def local_inv_def upload_world_def)
  then show ?thesis using upload_world_inv by (simp add: objects_consistent_def s3_ready_def stored_paths_def dom_def)
qed

lemma s3_upload_run:
  "\<exists>m w'. MediaService_Create text_ext (s3_service text_ext ps text_bucket []) (demo_ctx 1) upload_input upload_world
      = (Inr m, w') \<and> w_drawn w' \<le> 1000"
proof -
  obtain p w1 where s: "fs_Save (ms_storage (s3_service text_ext ps text_bucket [])) (demo_ctx 1) (ci_File upload_input) ''.png''
      upload_world = (Inr p, w1)" "no_faults w1" "w_db w1 = w_db upload_world" "w_drawn w1 = 1"
    using s3_save_succeeds [of "demo_ctx 1" 1 upload_world text_ext text_bucket "ci_File upload_input" "''.png''"] by auto
  have "is_tenant (w_db upload_world) 1" by (simp add: is_tenant_def demo_db_sel)
  from upload_succeeds_on [OF s3_service_sel(1,2) s(1-3) _ demo_ctx_tenant this upload_input_ok] show ?thesis
    using upload_world_inv s(4) by (force simp: maxTagsPerMedia_def)
qed

lemma rows_keep_objects_witness:
  "\<exists>m w'. MediaService_Create text_ext (s3_service text_ext (\<lambda>_ _ _. Inl SqlErrNoRows) text_bucket []) (demo_ctx 1) upload_input
      upload_world = (Inr m, w') \<and> objects_consistent 1000 text_ext text_bucket w'"
proof -
  let ?sv = "s3_service text_ext (\<lambda>_ _ _. Inl SqlErrNoRows) text_bucket []"
  obtain m w' where r: "MediaService_Create text_ext ?sv (demo_ctx 1) upload_input upload_world = (Inr m, w')" "w_drawn w' \<le> 1000"
    using s3_upload_run by blast
  have "file_run 1000 text_ext ?sv upload_world w'" by (rule Upload [OF Start r(1)]) (simp add: in_supply_def r(2))
  from r rows_keep_objects [OF this upload_world_objects] show ?thesis by simp
qed

section \<open>The local storage as a map\<close>

lemma local_save_confined:
  assumes X: "uuid_string_spec (x_uuid_string X)" and e: "plain_ext e" and r: "Local_Save X s ctx c e w = (r, w')"
  shows "w_disk w' q = w_disk w q \<or> (\<exists>p. rel_path p \<and> q = full_path s p)"
proof (cases "TenantIDFromContext ctx")
  case (Inl x)
  with r show ?thesis by (simp add: Local_Save_def and_then_def of_result_def)
next
  case (Inr t)
  let ?p = "local_path X t (w_uuids w (w_drawn w)) e"
  obtain d where "save_calls d ?p (full_path s ?p) c (w\<lparr>w_drawn := Suc (w_drawn w)\<rparr>) = (r, w')"
    using Local_Save_eq [OF X e Inr] r by metis
  from file_opD [OF file_op_save_calls this] rel_path_local [OF X e] show ?thesis by (auto simp: file_only_iff)
qed

datatype file_call = FSave Ctx string string | FDelete Ctx string

definition file_do :: "Ext \<Rightarrow> LocalStorage \<Rightarrow> file_call \<Rightarrow> (World, goerr, string) op" where
  "file_do X s c = (case c of FSave ctx content ext \<Rightarrow> Local_Save X s ctx content ext
     | FDelete ctx p \<Rightarrow> and_then (Local_Delete s ctx p) (\<lambda>_. ret p))"

text \<open>
  The abstract storage: a save binds a free path to the content, a delete unbinds its path; a failed
  call may have left a new file behind or may have deleted after all.
\<close>

fun map_step :: "file_call \<Rightarrow> goerr + string \<Rightarrow> (string \<rightharpoonup> string) \<Rightarrow> (string \<rightharpoonup> string) \<Rightarrow> bool" where
  "map_step (FSave ctx content ext) (Inr p) f f' \<longleftrightarrow> f p = None \<and> f' = f(p \<mapsto> content)"
| "map_step (FSave ctx content ext) (Inl e) f f' \<longleftrightarrow> f' = f \<or> (\<exists>p. f p = None \<and> f'(p := None) = f)"
| "map_step (FDelete ctx p) (Inr q) f f' \<longleftrightarrow> q = p \<and> f' = f(p := None)"
| "map_step (FDelete ctx p) (Inl e) f f' \<longleftrightarrow> f' = f \<or> f' = f(p := None)"

definition call_ok :: "file_call \<Rightarrow> bool" where
  "call_ok c = (case c of FSave ctx content ext \<Rightarrow> plain_ext ext | FDelete ctx p \<Rightarrow> rel_path p)"

text \<open>C13: the local storage implements the abstract map from paths to contents: every call is a step of
  the map, keeps the storage ready, and touches nothing outside the files the map stands for.\<close>

theorem local_storage_refines_map:
  assumes "local_ready N X s w" and "call_ok c" and "file_do X s c w = (r, w')" and "in_supply N w'"
  shows "map_step c r (local_files s w) (local_files s w') \<and> local_ready N X s w'
    \<and> (\<forall>q. w_disk w' q = w_disk w q \<or> (\<exists>p. rel_path p \<and> q = full_path s p))"
proof (cases c)
  case (FSave ctx content ext)
  with assms have run: "Local_Save X s ctx content ext w = (r, w')" and e: "plain_ext ext"
    by (simp_all add: file_do_def call_ok_def)
  have k: "local_ready N X s w'" using keepsD [OF local_fs.save_keeps, simplified, OF e assms(1) run] .
  have "map_step c r (local_files s w) (local_files s w')"
    using local_fs.save_Inr [simplified, OF assms(1) e _ assms(4)] local_fs.save_Inl [simplified, OF assms(1) e _ assms(4)] run FSave
    by (cases r) auto
  then show ?thesis using k local_save_confined [OF _ e run] assms(1) by (auto simp: local_ready_def)
next
  case (FDelete ctx p)
  then obtain u where run: "Local_Delete s ctx p w = (u, w')" and p: "rel_path p"
    and r: "r = (case u of Inl e \<Rightarrow> Inl e | Inr _ \<Rightarrow> Inr p)"
    using assms(2,3) by (auto simp: file_do_def call_ok_def and_then_def ret_def split: prod.splits sum.splits)
  have k: "local_ready N X s w'" using keepsD [OF local_fs.delete_keeps, simplified, OF p assms(1) run] .
  have "map_step c r (local_files s w) (local_files s w')"
    using local_fs.delete_Inr [simplified, OF assms(1) p] local_fs.delete_Inl [simplified, OF assms(1) p] run r FDelete
    by (cases u) auto
  then show ?thesis using k Local_Delete_disk [OF run] p by (auto simp: file_only_iff)
qed

theorem local_storage_refines_map_witness:
  "\<exists>p w'. file_do text_ext text_store (FSave (demo_ctx 1) ''bytes'' ''.png'') text_world = (Inr p, w')
    \<and> local_files text_store w' = (local_files text_store text_world)(p \<mapsto> ''bytes'')"
proof -
  have e: "plain_ext ''.png''" by (intro plain_exts) simp
  obtain p w' where r: "file_do text_ext text_store (FSave (demo_ctx 1) ''bytes'' ''.png'') text_world = (Inr p, w')"
    "w_drawn w' = 1"
    using local_save_succeeds [OF text_ext_uuid_string e, of "demo_ctx 1" 1 text_world text_store "''bytes''"]
    by (auto simp: file_do_def)
  from local_storage_refines_map [OF text_store_ready _ r(1)] r e show ?thesis
    by (simp add: call_ok_def in_supply_def)
qed

end
