(* ===== verification/Http_Properties.thy ===== *)
theory Http_Properties
  imports Service_Properties
begin

text \<open>
  The properties of the endpoints: repeated uploads, stored responses, what an internal error shows,
  and that a valid upload succeeds.
\<close>

section \<open>Idempotent uploads\<close>

text \<open>C31: a stored response lives for 24 hours: until then it is what the tenant gets for the key, after
  that nothing is replayed; storing again for the expired key reports success and stores nothing until
  the clean-up has freed the key.\<close>

theorem response_lifetime:
  assumes "TenantIDFromContext ctx = Inr t" and "idem_vacant ctx w k"
    and "IdempotencyStore_Set ctx k c (Some b) w = (Inr (), w1)" and "w_db w2 = w_db w1"
  shows "idem_cached ctx w2 k = (if w_clock w2 < w_clock w + idempotencyTTL then Some (c, b) else None)
    \<and> (\<forall>c' b' w3. w_clock w + idempotencyTTL \<le> w_clock w2 \<longrightarrow> IdempotencyStore_Set ctx k c' b' w2 = (Inr (), w3)
         \<longrightarrow> idem_cached ctx w3 k = None)
    \<and> (\<forall>w3. w_clock w + idempotencyTTL \<le> w_clock w2 \<longrightarrow> IdempotencyStore_Cleanup w2 = (Inr (), w3)
         \<longrightarrow> idem_vacant ctx w3 k)"
proof -
  note life = cached_until [OF assms]
  have taken: "\<not> idem_vacant ctx w2 k"
  proof -
    let ?w = "w2\<lparr>w_clock := w_clock w\<rparr>"
    have "idem_cached ctx ?w k = Some (c, b)"
      using cached_until [OF assms(1,2,3), of ?w] assms(4) by (simp add: idempotencyTTL_def)
    then have "\<not> idem_vacant ctx ?w k" using pg_idem.vacant_uncached by fastforce
    then show ?thesis by (simp add: idem_vacant_def)
  qed
  have late: "w_clock w + idempotencyTTL \<le> w_clock w2 \<Longrightarrow> idem_cached ctx w2 k = None" using life by simp
  show ?thesis
    using life expired_blocks [OF assms(1) taken late] cleanup_vacates [OF _ late assms(1)] by blast
qed

theorem response_lifetime_witness:
  "\<exists>w1. IdempotencyStore_Set (demo_ctx 1) ''key-1'' 201 (Some ''body'') text_world = (Inr (), w1)
    \<and> idem_cached (demo_ctx 1) (w1\<lparr>w_clock := 60\<rparr>) ''key-1'' = Some (201, ''body'')
    \<and> idem_cached (demo_ctx 1) (w1\<lparr>w_clock := 50 + idempotencyTTL\<rparr>) ''key-1'' = None"
proof -
  have v: "idem_vacant (demo_ctx 1) text_world ''key-1''" by (simp add: idem_vacant_def demo_db_sel)
  obtain w1 where s: "IdempotencyStore_Set (demo_ctx 1) ''key-1'' 201 (Some ''body'') text_world = (Inr (), w1)"
    using idem_set_no_faults [of text_world "demo_ctx 1" 1 "''key-1''" 201 "''body''"] v
    by (auto simp: is_tenant_def demo_db_sel)
  have d: "w_db (w1\<lparr>w_clock := n\<rparr>) = w_db w1" for n by simp
  from s response_lifetime [OF demo_ctx_tenant v s d] show ?thesis by (simp add: idempotencyTTL_def)
qed

text \<open>C5: a repeated upload has no second effect: when the first request with a key was answered 201, every
  request of the tenant with that key in the next 24 hours gets status 201 and the same body, and no
  table, file or object changes.\<close>

theorem replayed_upload:
  assumes "pg_upload X h" and "no_faults w" and "TenantIDFromContext (rq_Ctx r) = Inr t" and "is_tenant (w_db w) t"
    and "rq_Header r idempotencyKeyHeader = k" and "k \<noteq> []" and "idem_vacant (rq_Ctx r) w k"
    and "Idempotency PostgresIdempotencyStore (MediaHandler_Create X h) r (new_writer, w)
      = (Inr (), (writeJSON 201 (Some j) new_writer, w1))"
    and "TenantIDFromContext (rq_Ctx r2) = Inr t" and "rq_Header r2 idempotencyKeyHeader = k"
    and "w_db w2 = w_db w1" and "no_faults w2" and "w_clock w2 < w_clock w + idempotencyTTL"
  shows "\<exists>wr2 w3. Idempotency PostgresIdempotencyStore (MediaHandler_Create X h) r2 (new_writer, w2) = (Inr (), (wr2, w3))
    \<and> final_status wr2 = 201 \<and> wr_Body wr2 = wr_Body (writeJSON 201 (Some j) new_writer)
    \<and> w_db w3 = w_db w2 \<and> w_disk w3 = w_disk w2 \<and> w_objects w3 = w_objects w2"
  by (rule upload_replayed [OF assms])

text \<open>An upload request with the content of \<open>upload_input\<close>.\<close>

definition upload_form :: Form where
  "upload_form = \<lparr>fm_Value = (\<lambda>f. if f = ''name'' then [''  a  b ''] else if f = ''tags'' then [x_uuid_string text_ext 10] else []),
     fm_File = (\<lambda>f. if f = ''file'' then [\<lparr>fh_Filename = ''x.png'', fh_Size = 5, fh_Content = ''bytes'', fh_opens = True,
       fh_reads = True, fh_seeks = True\<rparr>] else [])\<rparr>"

definition upload_request :: Request where
  "upload_request = \<lparr>rq_Method = ''POST'', rq_Path = ''/api/v1/media'', rq_Query = (\<lambda>_. []),
     rq_Header = (\<lambda>h. if h = idempotencyKeyHeader then ''key-1'' else []), rq_RemoteAddr = ''10.0.0.1:1'', rq_Body = [],
     rq_Multipart = (\<lambda>_. Inr upload_form), rq_Params = (\<lambda>_. []), rq_Ctx = demo_ctx 1\<rparr>"

definition upload_handler :: "World MediaHandler" where
  "upload_handler = NewMediaHandler (pg_service text_ext text_store []) 1000"

lemma upload_request_sel [simp]:
  "rq_Ctx upload_request = demo_ctx 1" "rq_Header upload_request idempotencyKeyHeader = ''key-1''"
  by (simp_all add: upload_request_def)

lemma upload_scope: "scoped ScopeMediaWrite h upload_request = h upload_request"
proof -
  let ?i = "\<lparr>id_TenantID = 1, id_KeyID = 7, id_Scopes = [''media:*''], id_ExpiresAt = None\<rparr>"
  have "IdentityFromContext (rq_Ctx upload_request) = Some ?i" by (simp add: IdentityFromContext_def demo_ctx_def)
  moreover have "HasScope ?i ScopeMediaWrite" by (simp add: HasScope_iff ScopeMediaWrite_def)
  ultimately show ?thesis by (rule scoped_granted)
qed

lemma text_uuid_parses: "x_uuid_string text_ext u \<noteq> [] \<and> x_uuid_parse text_ext (x_uuid_string text_ext u) = Some u"
proof -
  have "length (x_uuid_string text_ext u) = 36" by (simp add: text_ext_sel(1))
  then have "x_uuid_string text_ext u \<noteq> []" by fastforce
  then show ?thesis using text_ext_uuid_text by (simp add: uuid_text_spec_def)
qed

text \<open>The handler turns the request into \<open>upload_input\<close>.\<close>

lemma upload_handled:
  assumes "MediaService_Create text_ext (pg_service text_ext text_store []) (demo_ctx 1) upload_input w = (Inr m, w')"
  shows "MediaHandler_Create text_ext upload_handler upload_request (wr, w)
    = (Inr (), (writeJSON 201 (media_data text_ext upload_handler m) wr, w'))"
  using assms
  by (simp add: MediaHandler_Create_def upload_scope)
    (simp add: upload_request_def upload_form_def form_value_def first_value_def text_uuid_parses upload_file_def Let_def
      nonEmpty_def upload_handler_def NewMediaHandler_def and_then_def text_ext_sel(6) upload_input_def)

lemma demo_times: "r \<in> set (tags demo_db) \<Longrightarrow> json_time (tg_created r)"
  by (auto simp: demo_db_sel demo_tag_def json_time_def)

lemma all_some_ex: "list_all (\<lambda>x. x \<noteq> None) xs \<Longrightarrow> \<exists>ys. all_some xs = Some ys"
  by (induction xs) auto

lemma upload_json:
  assumes "media_CreatedAt m = 50" "set (media_Tags m) \<subseteq> tag_of_row ` set (tags demo_db)"
  shows "\<exists>j. media_data text_ext upload_handler m = Some j"
proof -
  have "json_time (tag_CreatedAt t)" if "t \<in> set (media_Tags m)" for t
    using assms(2) that demo_times by (auto simp: tag_of_row_def)
  then have "list_all (\<lambda>x. x \<noteq> None) (map (json_TagResponse text_ext \<circ> tagToResponse text_ext) (media_Tags m))"
    by (simp add: list_all_iff json_TagResponse_def tagToResponse_def time_value_def)
  from all_some_ex [OF this] assms(1) show ?thesis
    by (auto simp: media_data_def json_MediaResponse_def mediaToResponse_def opt_list_def time_value_def json_time_def)
qed

lemma idem_get_upload:
  "\<exists>w. IdempotencyStore_Get (demo_ctx 1) ''key-1'' upload_world = (Inr None, w) \<and> db_only upload_world w
    \<and> w_db w = w_db upload_world"
proof -
  have "idem_vacant (demo_ctx 1) upload_world ''key-1''" by (simp add: idem_vacant_def demo_db_sel)
  then have "idem_cached (demo_ctx 1) upload_world ''key-1'' = None" by (rule pg_idem.vacant_uncached)
  then show ?thesis using idem_get_no_faults [of upload_world "demo_ctx 1" 1 "''key-1''"] by auto
qed

lemma first_upload:
  "\<exists>j w1. Idempotency PostgresIdempotencyStore (MediaHandler_Create text_ext upload_handler) upload_request
      (new_writer, upload_world) = (Inr (), (writeJSON 201 (Some j) new_writer, w1))"
proof -
  obtain w where g: "IdempotencyStore_Get (demo_ctx 1) ''key-1'' upload_world = (Inr None, w)"
    and w: "db_only upload_world w" "w_db w = w_db upload_world" using idem_get_upload by blast
  obtain m w' where m: "MediaService_Create text_ext (pg_service text_ext text_store []) (demo_ctx 1) upload_input w = (Inr m, w')"
    "media_CreatedAt m = 50" "set (media_Tags m) \<subseteq> tag_of_row ` set (tags demo_db)"
    using upload_run_at [OF no_faults_db_only [OF w(1)] w(2), of "[]"] w(1) by (auto simp: db_only_iff)
  obtain j where j: "media_data text_ext upload_handler m = Some j" using upload_json [OF m(2,3)] by blast
  have "MediaHandler_Create text_ext upload_handler upload_request (new_writer, w)
      = (Inr (), (writeJSON 201 (Some j) new_writer, w'))" using upload_handled [OF m(1)] j by simp
  with g show ?thesis by (auto simp: Idempotency_def and_then_def run_and_store_def Let_def)
qed

theorem replayed_upload_witness:
  "\<exists>j w1 wr2 w3. Idempotency PostgresIdempotencyStore (MediaHandler_Create text_ext upload_handler) upload_request
      (new_writer, upload_world) = (Inr (), (writeJSON 201 (Some j) new_writer, w1))
    \<and> Idempotency PostgresIdempotencyStore (MediaHandler_Create text_ext upload_handler) upload_request
        (new_writer, upload_world\<lparr>w_db := w_db w1\<rparr>) = (Inr (), (wr2, w3))
    \<and> final_status wr2 = 201 \<and> w_db w3 = w_db w1"
proof -
  obtain j w1 where r: "Idempotency PostgresIdempotencyStore (MediaHandler_Create text_ext upload_handler) upload_request
      (new_writer, upload_world) = (Inr (), (writeJSON 201 (Some j) new_writer, w1))" using first_upload by blast
  have h: "pg_upload text_ext upload_handler"
    unfolding upload_handler_def pg_service_def by (rule pg_upload_local)
  have v: "is_tenant (w_db upload_world) 1" "idem_vacant (rq_Ctx upload_request) upload_world ''key-1''"
    by (simp_all add: is_tenant_def idem_vacant_def demo_db_sel)
  have "no_faults (upload_world\<lparr>w_db := w_db w1\<rparr>)" using upload_world_sel(2) by (simp add: no_faults_def)
  with r replayed_upload [OF h upload_world_sel(2) _ v(1) _ _ v(2) r, of upload_request "upload_world\<lparr>w_db := w_db w1\<rparr>"]
  show ?thesis by (auto simp: idempotencyTTL_def)
qed

section \<open>Internal errors\<close>

definition api_handlers :: "Ext \<Rightarrow> 's TagHandler \<Rightarrow> 's MediaHandler \<Rightarrow> 's Handler list" where
  "api_handlers X th mh =
     [TagHandler_Create X th, TagHandler_List X th, TagHandler_Update X th, TagHandler_Delete X th,
      MediaHandler_Create X mh, MediaHandler_List X mh, MediaHandler_GetByID X mh, MediaHandler_Delete X mh,
      MediaHandler_AttachTags X mh, MediaHandler_DetachTag X mh]"

definition internal_bodies :: "string set" where
  "internal_bodies = (\<lambda>msg. string_of (json_text (error_body ''INTERNAL_ERROR'' msg)) @ [CHR 0x0A]) `
     {''an unexpected error occurred'', ''auth middleware did not run'', ''could not process file''}"

text \<open>An answer that, when it is a 500, has one of the fixed bodies.\<close>

definition discreet :: "(Writer \<times> 's, string, unit) op \<Rightarrow> bool" where
  "discreet f \<longleftrightarrow> (\<forall>w. \<exists>wr' w'. f (new_writer, w) = (Inr (), (wr', w')) \<and> (final_status wr' = 500 \<longrightarrow> wr_Body wr' \<in> internal_bodies))"

lemma new_writer_sel [simp]: "wr_Sent new_writer = None" "wr_Body new_writer = []"
  by (simp_all add: new_writer_def)

lemma discreet_respond [intro]:
  "c \<noteq> 500 \<Longrightarrow> discreet (respond (writeError c code msg))"
  "c \<noteq> 500 \<Longrightarrow> discreet (respond (writeJSON c v))"
  "c \<noteq> 500 \<Longrightarrow> discreet (respond (WriteHeader c))"
  "discreet (respond (tag_handleError err))" "discreet (respond (media_handleError err))"
  "discreet (respond (writeError 500 ''INTERNAL_ERROR'' ''auth middleware did not run''))"
  "discreet (respond (writeError 500 ''INTERNAL_ERROR'' ''could not process file''))"
  by (auto simp: discreet_def internal_bodies_def tag_handleError_def media_handleError_def)
    (simp_all add: final_status_def)

lemma discreet_call: "(\<And>x. discreet (g x)) \<Longrightarrow> discreet (and_then (call f) g)"
  by (auto simp: discreet_def and_then_def)

lemma discreet_scoped: "discreet (h r) \<Longrightarrow> discreet (scoped sc h r)"
  by (auto simp: scoped_def requireScope_def split: option.split)

lemma discreet_cases:
  "discreet a \<Longrightarrow> discreet b \<Longrightarrow> discreet (if P then a else b)"
  "discreet a \<Longrightarrow> (\<And>x. discreet (f x)) \<Longrightarrow> discreet (case q of None \<Rightarrow> a | Some x \<Rightarrow> f x)"
  "(\<And>e. discreet (g e)) \<Longrightarrow> (\<And>x. discreet (h x)) \<Longrightarrow> discreet (case s of Inl e \<Rightarrow> g e | Inr x \<Rightarrow> h x)"
  "discreet a \<Longrightarrow> (\<And>x xs. discreet (k x xs)) \<Longrightarrow> discreet (case l of [] \<Rightarrow> a | x # xs \<Rightarrow> k x xs)"
  "(\<And>x y. discreet (m x y)) \<Longrightarrow> discreet (case p of (x, y) \<Rightarrow> m x y)"
  by (simp_all split: option.split sum.split list.split prod.split)

lemma discreet_handlers:
  "discreet (TagHandler_Create X th r)" "discreet (TagHandler_List X th r)" "discreet (TagHandler_Update X th r)"
  "discreet (TagHandler_Delete X th r)" "discreet (MediaHandler_Create X mh r)" "discreet (MediaHandler_List X mh r)"
  "discreet (MediaHandler_GetByID X mh r)" "discreet (MediaHandler_Delete X mh r)"
  "discreet (MediaHandler_AttachTags X mh r)" "discreet (MediaHandler_DetachTag X mh r)"
  unfolding TagHandler_Create_def TagHandler_List_def TagHandler_Update_def TagHandler_Delete_def
    MediaHandler_Create_def MediaHandler_List_def MediaHandler_GetByID_def MediaHandler_Delete_def
    MediaHandler_AttachTags_def MediaHandler_DetachTag_def upload_file_def Let_def
    not_json_def bad_json_def bad_tag_id_def bad_media_id_def bad_tag_def
  by (intro discreet_scoped discreet_call discreet_cases discreet_respond; simp)+

text \<open>C28: no internal detail leaks: every endpoint answers, and when it answers 500 the body is one of three
  fixed texts, whatever error was behind it.\<close>

theorem internal_errors_hidden:
  assumes "h \<in> set (api_handlers X th mh)"
  shows "\<exists>wr' w'. h r (new_writer, w) = (Inr (), (wr', w'))
    \<and> (final_status wr' = 500 \<longrightarrow> wr_Body wr' \<in> internal_bodies)"
proof -
  have "discreet (h r)" using assms by (auto simp: api_handlers_def discreet_handlers)
  then show ?thesis by (simp add: discreet_def)
qed

text \<open>A database that refuses every call, and a request for one item.\<close>

definition broken_world :: World where
  "broken_world = text_world\<lparr>w_faults := (\<lambda>_ _. Fault ''pq: password authentication failed for user api'')\<rparr>"

definition item_request :: Request where
  "item_request = upload_request\<lparr>rq_Method := ''GET'', rq_Params := (\<lambda>_. x_uuid_string text_ext 20)\<rparr>"

lemma broken_item:
  "\<exists>e w'. MediaHandler_GetByID text_ext upload_handler item_request (new_writer, broken_world)
      = (Inr (), (media_handleError e new_writer, w')) \<and> media_error_status e = 500"
proof -
  let ?i = "\<lparr>id_TenantID = 1, id_KeyID = 7, id_Scopes = [''media:*''], id_ExpiresAt = None\<rparr>"
  have "IdentityFromContext (rq_Ctx item_request) = Some ?i"
    by (simp add: item_request_def IdentityFromContext_def demo_ctx_def)
  moreover have "HasScope ?i ScopeMediaRead" by (simp add: HasScope_iff ScopeMediaRead_def)
  ultimately have s: "scoped ScopeMediaRead h item_request = h item_request" for h :: "World Handler"
    by (rule scoped_granted)
  have c: "rq_Ctx item_request = demo_ctx 1" "rq_Params item_request ''id'' = x_uuid_string text_ext 20"
    by (simp_all add: item_request_def)
  obtain e w' where e: "MediaService_GetByID (pg_service text_ext text_store []) (demo_ctx 1) 20 broken_world = (Inl e, w')"
    "media_error_status e = 500"
    by (simp add: MediaService_GetByID_def MediaRepo_GetByID_def withTenantTx_def run_tx_def tx_call_def next_call_def
        broken_world_def media_error_status_def)
  then show ?thesis
    by (auto simp: MediaHandler_GetByID_def s c text_uuid_parses upload_handler_def NewMediaHandler_def and_then_def)
qed

theorem internal_errors_hidden_witness:
  "\<exists>wr' w'. MediaHandler_GetByID text_ext upload_handler item_request (new_writer, broken_world) = (Inr (), (wr', w'))
    \<and> final_status wr' = 500 \<and> wr_Body wr' \<in> internal_bodies"
proof -
  obtain e w' where r: "MediaHandler_GetByID text_ext upload_handler item_request (new_writer, broken_world)
      = (Inr (), (media_handleError e new_writer, w'))" "media_error_status e = 500" using broken_item by blast
  have "MediaHandler_GetByID text_ext upload_handler
      \<in> set (api_handlers text_ext (NewTagHandler (NewTagService (PostgresTagRepo text_ext))) upload_handler)"
    by (simp add: api_handlers_def)
  from internal_errors_hidden [OF this, of item_request broken_world] r show ?thesis
    by (simp add: media_handleError_status)
qed

section \<open>Valid uploads succeed\<close>

text \<open>C25: when no call fails, an upload of a tenant succeeds if its name can be sanitised, its content type is
  one of the allowed ones and it names at most the allowed number of tags by id.\<close>

theorem valid_upload_succeeds:
  assumes "uuid_string_spec (x_uuid_string X)" and "no_faults w" and "db_inv (w_db w)"
    and "TenantIDFromContext ctx = Inr t" and "is_tenant (w_db w) t"
    and "SanitizeName (x_nfc X) (ci_Name input) = Inr name"
    and "classifyContentType (ci_ContentType input) (ci_FileName input) = Inr (ty, e)"
    and "length (ci_TagIDs input) \<le> maxTagsPerMedia" and "ci_TagNames input = []"
    and "w_uuids w (Suc (w_drawn w)) \<notin> md_id ` set (media (w_db w))"
  shows "\<exists>m w'. MediaService_Create X (pg_service X s b) ctx input w = (Inr m, w')
    \<and> media_CreatedAt m = w_clock w \<and> set (media_Tags m) \<subseteq> tag_of_row ` set (tags (w_db w))"
  by (rule upload_succeeds [OF assms])

theorem valid_upload_succeeds_witness:
  "\<exists>m w'. MediaService_Create text_ext (pg_service text_ext text_store []) (demo_ctx 1) upload_input upload_world = (Inr m, w')"
proof -
  have "is_tenant (w_db upload_world) 1" by (simp add: is_tenant_def demo_db_sel)
  from valid_upload_succeeds [OF text_ext_uuid_string _ _ demo_ctx_tenant this upload_input_ok, of text_store "[]"]
  show ?thesis using upload_world_inv by (auto simp: maxTagsPerMedia_def)
qed

end
