(* ===== verification/App.thy ===== *)
theory App
  imports Router Media_Files Worker Config
begin

text \<open>
  \<^verbatim>\<open>cmd/api/main.go\<close>: the start-up that builds the program from its parts, the background
  loops it starts and the end of the process.  What the platform does is the record \<open>Platform\<close>:
  the third-party routing library, the migration library, the signing of S3 URLs, the working
  directory and \<^verbatim>\<open>net/http\<close>'s server.
\<close>

section \<open>Parts\<close>

text \<open>
  The loops of the process.  A ticker panics when its interval is not positive, and nothing
  recovers a panic of these goroutines.
\<close>

datatype Background =
    IdempotencyCleanup "64 word"
  | StatsLoop "64 word"
  | CleanupLoop "64 word" int
  | WorkerPool "64 word" "World Worker"

fun ticker_interval :: "Background \<Rightarrow> 64 word" where
  "ticker_interval (IdempotencyCleanup d) = d"
| "ticker_interval (StatsLoop d) = d"
| "ticker_interval (CleanupLoop d n) = d"
| "ticker_interval (WorkerPool d wk) = d"

definition panics :: "Background \<Rightarrow> bool" where
  "panics b \<longleftrightarrow> sint (ticker_interval b) \<le> 0"

text \<open>\<^verbatim>\<open>http.Server\<close>; \<open>srv_TLS\<close>: the files given to \<^verbatim>\<open>ListenAndServeTLS\<close>.\<close>

record HttpServer =
  srv_Addr :: string
  srv_Handler :: "Server Handler"
  srv_ReadHeaderTimeout :: "64 word"
  srv_ReadTimeout :: "64 word"
  srv_WriteTimeout :: "64 word"
  srv_IdleTimeout :: "64 word"
  srv_TLS :: "(string \<times> string) option"

record App =
  app_config :: Config
  app_storage :: "World FileStorage"
  app_queue :: "World JobQueue"
  app_background :: "Background list"
  app_http :: HttpServer
  app_devTenant :: "uuid option"

text \<open>What ends the wait: a signal, or the server's error.\<close>

datatype Stop = Signal | ServerStopped goerr

record Migrator =
  mg_iofs :: "(World, goerr, unit) op"
  mg_driver :: "(World, goerr, unit) op"
  mg_new :: "(World, goerr, unit) op"
  mg_Up :: "(World, goerr, unit) op"

record 'f Platform =
  pf_lib :: "'f Lib"
  pf_migrate :: Migrator
  pf_presign :: "string \<Rightarrow> string \<Rightarrow> time \<Rightarrow> goerr + string"
  pf_cwd :: string
  pf_serve :: "App \<Rightarrow> Server \<Rightarrow> Stop \<times> Server"
  pf_Shutdown :: "64 word \<Rightarrow> (World, goerr, unit) op"

section \<open>Migrations\<close>

definition ErrNoChange :: goerr where "ErrNoChange = Opaque ''no change''"

definition runMigrations :: "Migrator \<Rightarrow> (World, goerr, unit) op" where
  "runMigrations mg =
     and_then (map_err (\<lambda>e. Errorf ''create migration source: '' e '''') (mg_iofs mg)) (\<lambda>_.
     and_then (map_err (\<lambda>e. Errorf ''create migration db driver: '' e '''') (mg_driver mg)) (\<lambda>_.
     and_then (map_err (\<lambda>e. Errorf ''create migrator: '' e '''') (mg_new mg)) (\<lambda>_.
     handle (mg_Up mg) (\<lambda>_. ret ())
       (\<lambda>err. if err \<noteq> ErrNoChange then fail (Errorf ''apply migrations: '' err '''') else ret ()))))"

section \<open>Backends\<close>

definition initStorage :: "Ext \<Rightarrow> 'f Platform \<Rightarrow> Config \<Rightarrow> (World, goerr, World FileStorage) op" where
  "initStorage X pf cfg =
     (if StorageBackend cfg = ''s3'' then
        and_then (map_err (\<lambda>e. Errorf ''init S3 storage: '' e '''')
          (S3_NewStorage \<lparr>s3_Bucket = S3Bucket cfg, s3_Region = S3Region cfg, s3_Endpoint = S3Endpoint cfg,
             s3_AccessKey = S3AccessKey cfg, s3_SecretKey = S3SecretKey cfg, s3_Prefix = S3Prefix cfg,
             s3_CDNURL = S3CDNURL cfg\<rparr>))
          (\<lambda>s. ret (S3FileStorage X (pf_presign pf) s))
      else
        and_then (map_err (\<lambda>e. Errorf ''init local storage: '' e '''')
          (Local_NewStorage (pf_cwd pf) (UploadDir cfg)))
          (\<lambda>s. ret (LocalFileStorage X s)))"

definition newJobQueue :: "Ext \<Rightarrow> Config \<Rightarrow> goerr + World JobQueue \<times> Background list" where
  "newJobQueue X cfg =
     (if JobQueueBackend cfg = ''sqs'' then
        if SQSQueueURL cfg = [] then Inl (Opaque ''JOB_QUEUE_BACKEND=sqs requires SQS_QUEUE_URL'')
        else Inr (SqsJobQueue \<lparr>sqs_QueueURL = SQSQueueURL cfg, sqs_Region = SQSRegion cfg\<rparr>, [])
      else if JobQueueBackend cfg = ''postgres'' \<or> JobQueueBackend cfg = '''' then
        Inr (PostgresJobQueue X,
             [StatsLoop (JobStatsInterval cfg), CleanupLoop (JobCleanupInterval cfg) (JobRetentionDays cfg)])
      else Inl (Opaque (''unknown JOB_QUEUE_BACKEND '' @ x_quote X (JobQueueBackend cfg) @ '' (want postgres|sqs)'')))"

text \<open>A duration in the model's microseconds.\<close>

definition micros :: "64 word \<Rightarrow> time" where
  "micros d = sint d div 1000"

definition start_worker :: "Config \<Rightarrow> World JobQueue \<Rightarrow> Background list" where
  "start_worker cfg jobQueue =
     (if JobQueueBackend cfg = ''postgres'' \<and> JobWorkerEnabled cfg then
        [WorkerPool (JobPollInterval cfg)
          (NewWorker jobQueue default_handlers (micros (JobPollInterval cfg)) (JobWorkerConcurrency cfg))]
      else [])"

section \<open>Start-up and shut-down\<close>

definition db_ping :: "(World, goerr, unit) op" where
  "db_ping = os_call id"

definition legacyCacheTTL :: time where "legacyCacheTTL = 5 * second"

definition wire :: "Ext \<Rightarrow> 'f Platform \<Rightarrow> Config \<Rightarrow> World FileStorage \<Rightarrow> World JobQueue \<Rightarrow> Background list \<Rightarrow> App" where
  "wire X pf cfg storage jobQueue loops =
     (let tagRepo = PostgresTagRepo X;
          mediaRepo = PostgresMediaRepo X;
          tagSvc = NewTagService tagRepo;
          mediaSvc = NewMediaService mediaRepo tagRepo storage (BaseURL cfg);
          tagHandler = NewTagHandler tagSvc;
          mediaHandler = NewMediaHandler mediaSvc (MaxUploadSize cfg);
          healthHandler = NewHealthHandler db_ping;
          devTenantID = (if APIKey cfg = [] then Some LegacyTenantID else None);
          router = NewRouter X (pf_lib pf) \<lparr>hs_health = healthHandler, hs_tag = tagHandler, hs_media = mediaHandler\<rparr>
            devTenantID (CORSOrigins cfg) (micros (RequestTimeout cfg)) PostgresIdempotencyStore
      in \<lparr>app_config = cfg, app_storage = storage, app_queue = jobQueue,
          app_background = IdempotencyCleanup Hour # loops,
          app_http = \<lparr>srv_Addr = ListenAddr cfg, srv_Handler = router,
            srv_ReadHeaderTimeout = ReadHeaderTimeout cfg, srv_ReadTimeout = ReadTimeout cfg,
            srv_WriteTimeout = WriteTimeout cfg, srv_IdleTimeout = IdleTimeout cfg,
            srv_TLS = (if TLSCertFile cfg \<noteq> [] \<and> TLSKeyFile cfg \<noteq> [] then Some (TLSCertFile cfg, TLSKeyFile cfg)
                       else None)\<rparr>,
          app_devTenant = devTenantID\<rparr>)"

definition start :: "Ext \<Rightarrow> 'f Platform \<Rightarrow> environ \<Rightarrow> (World, goerr, App) op" where
  "start X pf env =
     (let cfg = Load env in
      and_then (map_err (\<lambda>e. Errorf ''open database: '' e '''') (os_call id)) (\<lambda>_.
      and_then (map_err (\<lambda>e. Errorf ''ping database: '' e '''') db_ping) (\<lambda>_.
      and_then (map_err (\<lambda>e. Errorf ''run migrations: '' e '''') (runMigrations (pf_migrate pf))) (\<lambda>_.
      and_then (initStorage X pf cfg) (\<lambda>storage.
      and_then (map_err (\<lambda>e. Errorf ''init job queue: '' e '''') (of_result (newJobQueue X cfg)))
        (\<lambda>(jobQueue, loops).
      and_then (map_err (\<lambda>e. Errorf ''ensure legacy tenant: '' e '''') (EnsureLegacyTenant X (APIKey cfg))) (\<lambda>_.
      ret (wire X pf cfg storage jobQueue (loops @ start_worker cfg jobQueue)))))))))"

definition ErrServerClosed :: goerr where "ErrServerClosed = Opaque ''http: Server closed''"

definition run :: "Ext \<Rightarrow> 'f Platform \<Rightarrow> environ \<Rightarrow> (World, goerr, unit) op" where
  "run X pf env =
     and_then (start X pf env) (\<lambda>app w.
       let cfg = app_config app in
       case pf_serve pf app (new_server w legacyCacheTTL (RateLimitRPS cfg) (RateLimitBurst cfg)) of
         (stop, s) \<Rightarrow>
           (case stop of
              ServerStopped err \<Rightarrow>
                if err \<noteq> ErrServerClosed then fail (Errorf ''server error: '' err '''')
                else map_err (\<lambda>e. Errorf ''server shutdown: '' e '''') (pf_Shutdown pf (ShutdownTimeout cfg))
            | Signal \<Rightarrow> map_err (\<lambda>e. Errorf ''server shutdown: '' e '''') (pf_Shutdown pf (ShutdownTimeout cfg)))
           (sv_world s))"

text \<open>\<^verbatim>\<open>main\<close>: the exit status of the process.\<close>

definition main :: "Ext \<Rightarrow> 'f Platform \<Rightarrow> environ \<Rightarrow> World \<Rightarrow> int \<times> World" where
  "main X pf env w = (case run X pf env w of (Inl err, w') \<Rightarrow> (1, w') | (Inr _, w') \<Rightarrow> (0, w'))"

section \<open>Lemmas\<close>

lemma and_then_InrE:
  assumes "and_then f g w = (Inr y, w')"
  obtains x w1 where "f w = (Inr x, w1)" "g x w1 = (Inr y, w')"
  using assms by (auto simp: and_then_Inr)

lemma start_Inr:
  assumes "start X pf env w = (Inr app, w')"
  obtains storage q loops w1 w2 where "fst (initStorage X pf (Load env) w2) = Inr storage" "newJobQueue X (Load env) = Inr (q, loops)"
    "EnsureLegacyTenant X (APIKey (Load env)) w1 = (Inr (), w')"
    "app = wire X pf (Load env) storage q (loops @ start_worker (Load env) q)"
proof -
  obtain storage qs v v1 v2 where st: "initStorage X pf (Load env) v = (Inr storage, v1)"
    and q: "map_err (\<lambda>e. Errorf ''init job queue: '' e '''') (of_result (newJobQueue X (Load env))) v1 = (Inr qs, v2)"
    and r: "(case qs of (jobQueue, loops) \<Rightarrow>
      and_then (map_err (\<lambda>e. Errorf ''ensure legacy tenant: '' e '''') (EnsureLegacyTenant X (APIKey (Load env)))) (\<lambda>_.
      ret (wire X pf (Load env) storage jobQueue (loops @ start_worker (Load env) jobQueue)))) v2 = (Inr app, w')"
    using assms unfolding start_def Let_def by (elim and_then_InrE) (rule that; assumption)
  from q r show thesis
    by (intro that [of v storage "fst qs" "snd qs" v2]) (auto simp: st of_result_def split: sum.splits prod.splits elim!: and_then_InrE)
qed

lemma Load_APIKey: "APIKey (Load env) = env ''API_KEY''"
  by (simp add: Load_def getEnv_def)

lemma wire_devTenant: "app_devTenant (wire X pf cfg st q ls) = (if APIKey cfg = [] then Some LegacyTenantID else None)"
  by (simp add: wire_def Let_def)

lemma wire_background: "app_background (wire X pf cfg st q ls) = IdempotencyCleanup Hour # ls"
  by (simp add: wire_def Let_def)

lemma newJobQueue_loops:
  "newJobQueue X cfg = Inr (q, loops) \<Longrightarrow>
     loops = (if JobQueueBackend cfg = ''sqs'' then []
              else [StatsLoop (JobStatsInterval cfg), CleanupLoop (JobCleanupInterval cfg) (JobRetentionDays cfg)])"
  by (auto simp: newJobQueue_def split: if_splits)

end
