(* ===== verification/Isolation.thy ===== *)
theory Isolation
  imports Replay
begin

text \<open>
  Tenant isolation from the repositories up to the routes: whatever a request of the API does, it
  does to its own tenant's rows and keeps the constraints of the schema.
\<close>

section \<open>Services\<close>

definition pg_handlers :: "Ext \<Rightarrow> Handlers \<Rightarrow> bool" where
  "pg_handlers X hs \<longleftrightarrow> pg_upload X (hs_media hs) \<and> ts_repo (th_service (hs_tag hs)) = PostgresTagRepo X"

lemma keeps_files_op: "files_op f \<Longrightarrow> keeps (\<lambda>w. J (w_db w)) f"
  by (rule keepsI) (simp add: files_opD)

lemma safe_tag_repo:
  assumes "TenantIDFromContext ctx = Inr t"
  shows "db_keeps (tenant_safe t d0) (TagRepo_CreateOrGet ctx n)" "db_keeps (tenant_safe t d0) (TagRepo_List X ctx l c)"
    "db_keeps (tenant_safe t d0) (TagRepo_Rename ctx i n)" "db_keeps (tenant_safe t d0) (TagRepo_Delete ctx i)"
  using keeps_others_TagRepo [OF assms, of d0] unfolding tenant_safe_def by blast+

lemma safe_tag_service:
  assumes "TenantIDFromContext ctx = Inr t" "ts_repo s = PostgresTagRepo X"
  shows "db_keeps (tenant_safe t d0) (TagService_Create X s ctx n)" "db_keeps (tenant_safe t d0) (TagService_List X s ctx l c)"
    "db_keeps (tenant_safe t d0) (TagService_Rename X s ctx i n)" "db_keeps (tenant_safe t d0) (TagService_Delete s ctx i)"
  unfolding TagService_Create_def TagService_List_def TagService_Rename_def TagService_Delete_def assms(2) PostgresTagRepo_sel
  by (intro preserves safe_tag_repo [OF assms(1)])+

lemma safe_media_service:
  assumes t: "TenantIDFromContext ctx = Inr t" and r: "ms_repo s = PostgresMediaRepo X" "ms_tagRepo s = PostgresTagRepo X"
    and f: "\<And>c e. files_op (fs_Save (ms_storage s) ctx c e)" "\<And>p. files_op (fs_Delete (ms_storage s) ctx p)"
  shows "db_keeps (tenant_safe t d0) (MediaService_Create X s ctx input)"
    "db_keeps (tenant_safe t d0) (MediaService_GetByID s ctx i)"
    "db_keeps (tenant_safe t d0) (MediaService_List X s ctx l c q)"
    "db_keeps (tenant_safe t d0) (MediaService_Delete s ctx i)"
    "db_keeps (tenant_safe t d0) (MediaService_AttachTags X s ctx i ids ns)"
    "db_keeps (tenant_safe t d0) (MediaService_DetachTag s ctx i j)"
proof -
  have tag: "db_keeps (tenant_safe t d0) (tr_CreateOrGet (ms_tagRepo s) ctx n)" for n
    by (simp add: r safe_tag_repo [OF t])
  show "db_keeps (tenant_safe t d0) (MediaService_Create X s ctx input)"
    "db_keeps (tenant_safe t d0) (MediaService_GetByID s ctx i)"
    "db_keeps (tenant_safe t d0) (MediaService_List X s ctx l c q)"
    "db_keeps (tenant_safe t d0) (MediaService_Delete s ctx i)"
    "db_keeps (tenant_safe t d0) (MediaService_AttachTags X s ctx i ids ns)"
    "db_keeps (tenant_safe t d0) (MediaService_DetachTag s ctx i j)"
    unfolding MediaService_Create_def MediaService_GetByID_def MediaService_List_def MediaService_Delete_def
      MediaService_AttachTags_def MediaService_DetachTag_def insert_or_undo_def Let_def r(1) PostgresMediaRepo_sel
    by (intro preserves resolve_names_keeps tag f [THEN keeps_files_op] safe_MediaRepo [OF t])+
qed

section \<open>Handlers\<close>

lemma keeps_respond: "keeps (\<lambda>st. J (snd st)) (respond f)"
  by (rule keepsI) (auto simp: respond_def)

lemma keeps_call: "keeps J f \<Longrightarrow> keeps (\<lambda>st. J (snd st)) (call f)"
  by (rule keepsI) (auto simp: call_def dest: keepsD split: prod.splits)

lemma keeps_scoped: "keeps (\<lambda>st. J (snd st)) (h r) \<Longrightarrow> keeps (\<lambda>st. J (snd st)) (scoped sc h r)"
  by (simp add: scoped_def keeps_respond split: option.split)

lemma keeps_case_list:
  "keeps J a \<Longrightarrow> (\<And>x xs. keeps J (g x xs)) \<Longrightarrow> keeps J (case l of [] \<Rightarrow> a | x # xs \<Rightarrow> g x xs)"
  by (cases l) simp_all

lemmas keeps_handler = keeps_respond keeps_call keeps_scoped keeps_case_list preserves

lemma safe_handlers:
  fixes d0
  assumes h: "pg_handlers X hs" and t: "TenantIDFromContext (rq_Ctx r) = Inr t"
  defines "J \<equiv> \<lambda>st. tenant_safe t d0 (w_db (snd st))"
  shows "keeps J (TagHandler_Create X (hs_tag hs) r)" "keeps J (TagHandler_List X (hs_tag hs) r)"
    "keeps J (TagHandler_Update X (hs_tag hs) r)" "keeps J (TagHandler_Delete X (hs_tag hs) r)"
    "keeps J (MediaHandler_Create X (hs_media hs) r)" "keeps J (MediaHandler_List X (hs_media hs) r)"
    "keeps J (MediaHandler_GetByID X (hs_media hs) r)" "keeps J (MediaHandler_Delete X (hs_media hs) r)"
    "keeps J (MediaHandler_AttachTags X (hs_media hs) r)" "keeps J (MediaHandler_DetachTag X (hs_media hs) r)"
proof -
  note tag = safe_tag_service [OF t conjunct2 [OF h [unfolded pg_handlers_def]]]
  have "ms_repo (mh_service (hs_media hs)) = PostgresMediaRepo X" "ms_tagRepo (mh_service (hs_media hs)) = PostgresTagRepo X"
    "\<And>c e. files_op (fs_Save (ms_storage (mh_service (hs_media hs))) (rq_Ctx r) c e)"
    "\<And>p. files_op (fs_Delete (ms_storage (mh_service (hs_media hs))) (rq_Ctx r) p)"
    using h by (simp_all add: pg_handlers_def pg_upload_def Let_def)
  note media = safe_media_service [OF t this]
  show "keeps J (TagHandler_Create X (hs_tag hs) r)" "keeps J (TagHandler_List X (hs_tag hs) r)"
    "keeps J (TagHandler_Update X (hs_tag hs) r)" "keeps J (TagHandler_Delete X (hs_tag hs) r)"
    "keeps J (MediaHandler_Create X (hs_media hs) r)" "keeps J (MediaHandler_List X (hs_media hs) r)"
    "keeps J (MediaHandler_GetByID X (hs_media hs) r)" "keeps J (MediaHandler_Delete X (hs_media hs) r)"
    "keeps J (MediaHandler_AttachTags X (hs_media hs) r)" "keeps J (MediaHandler_DetachTag X (hs_media hs) r)"
    unfolding J_def TagHandler_Create_def TagHandler_List_def TagHandler_Update_def TagHandler_Delete_def
      MediaHandler_Create_def MediaHandler_List_def MediaHandler_GetByID_def MediaHandler_Delete_def
      MediaHandler_AttachTags_def MediaHandler_DetachTag_def upload_file_def Let_def
    by (intro keeps_handler tag media)+
qed


section \<open>Routes\<close>

lemma safe_idem:
  assumes "TenantIDFromContext ctx = Inr t"
  shows "db_keeps (tenant_safe t d0) (IdempotencyStore_Get ctx k)" "db_keeps (tenant_safe t d0) (IdempotencyStore_Set ctx k c b)"
proof -
  show "db_keeps (tenant_safe t d0) (IdempotencyStore_Get ctx k)"
    unfolding IdempotencyStore_Get_def by (intro preserves frame) simp
  show "db_keeps (tenant_safe t d0) (IdempotencyStore_Set ctx k c b)"
  proof (rule keepsI)
    fix w r w' assume w: "tenant_safe t d0 (w_db w)" and r: "IdempotencyStore_Set ctx k c b w = (r, w')"
    have "db_inv (w_db w')" using keepsD [OF keeps_idem(2) _ r] w by (simp add: tenant_safe_def)
    with w set_other_tenant [OF r assms] show "tenant_safe t d0 (w_db w')"
      by (auto simp: tenant_safe_def intro: others_kept_trans)
  qed
qed

lemma keeps_run_and_store:
  assumes "keeps (\<lambda>st. J (snd st)) (h r)" "\<And>k c b. keeps J (is_Set store (rq_Ctx r) k c b)"
  shows "keeps (\<lambda>st. J (snd st)) (run_and_store store k h r)"
proof (rule keepsI)
  fix st x st' assume j: "J (snd st)" and run: "run_and_store store k h r st = (x, st')"
  obtain y wr s where h: "h r st = (y, (wr, s))" by (metis surj_pair)
  with keepsD [OF assms(1) j] have s: "J s" by fastforce
  moreover have "J (snd (is_Set store (rq_Ctx r) k c b s))" for c b
    using assms(2) s by (simp add: keeps_def)
  ultimately show "J (snd st')"
    using run h by (auto simp: run_and_store_def Let_def split: sum.splits if_splits)
qed

lemma keeps_Idempotency:
  assumes "keeps (\<lambda>st. J (snd st)) (h r)" "\<And>k c b. keeps J (is_Set store (rq_Ctx r) k c b)"
    and "\<And>k. keeps J (is_Get store (rq_Ctx r) k)"
  shows "keeps (\<lambda>st. J (snd st)) (Idempotency store h r)"
  unfolding Idempotency_def Let_def
  by (intro keeps_handler assms keeps_run_and_store)

lemma keeps_on_world: "keeps (\<lambda>st. J (snd st)) (h r) \<Longrightarrow> keeps (\<lambda>st. J (sv_world (snd st))) (on_world h r)"
proof (rule keepsI)
  fix st x st' assume k: "keeps (\<lambda>st. J (snd st)) (h r)" and j: "J (sv_world (snd st))" and run: "on_world h r st = (x, st')"
  obtain y wr w where h: "h r (fst st, sv_world (snd st)) = (y, (wr, w))" by (metis surj_pair)
  with keepsD [OF k _ h] j run show "J (sv_world (snd st'))" by (auto simp: on_world_def zoom_def)
qed

definition endpoint :: "Route \<Rightarrow> bool" where
  "endpoint route \<longleftrightarrow> is_api route \<and> route \<noteq> NoApiRoute"

lemma safe_api_route:
  assumes "pg_handlers X hs" "TenantIDFromContext (rq_Ctx r) = Inr t" "endpoint route"
  shows "keeps (\<lambda>st. tenant_safe t d0 (w_db (sv_world (snd st)))) (api_route X lib hs PostgresIdempotencyStore route r)"
proof -
  note h = safe_handlers [OF assms(1,2), of d0]
  note i = keeps_Idempotency [where J = "\<lambda>w. tenant_safe t d0 (w_db w)" and h = "MediaHandler_Create X (hs_media hs)"
      and store = PostgresIdempotencyStore and r = r, unfolded PostgresIdempotencyStore_sel,
      OF h(5) safe_idem(2) [OF assms(2)] safe_idem(1) [OF assms(2)]]
  from assms(3) h i show ?thesis
    by (cases route)
      (simp_all add: endpoint_def is_api_def api_route_def keeps_on_world [where J = "\<lambda>w. tenant_safe t d0 (w_db w)"])
qed

text \<open>The tenant a request is served as, if any.\<close>

definition caller :: "Ext \<Rightarrow> uuid option \<Rightarrow> Request \<Rightarrow> Server \<Rightarrow> uuid option" where
  "caller X dev r s =
     (if extractAPIKey r = [] then dev
      else case fst (av_Verify (server_verify X) (rq_Ctx r) (extractAPIKey r) s) of
        Inl _ \<Rightarrow> None
      | Inr i \<Rightarrow> Some (id_TenantID i))"

lemma request_isolated:
  assumes h: "pg_handlers X hs" and inv: "db_inv (w_db (sv_world s))" and e: "endpoint (fst (lib_match lib r))"
    and c: "caller X dev r s \<noteq> Some u"
    and run: "routes X lib hs dev PostgresIdempotencyStore r (wr, s) = (x, (wr', s'))"
  shows "db_inv (w_db (sv_world s')) \<and> tenant_view u (w_db (sv_world s')) = tenant_view u (w_db (sv_world s))"
proof -
  obtain route params where m: "lib_match lib r = (route, params)" by fastforce
  let ?r = "r\<lparr>rq_Params := params\<rparr>" and ?api = "api_route X lib hs PostgresIdempotencyStore route"
  have k: "extractAPIKey ?r = extractAPIKey r" by (simp add: extractAPIKey_def)
  have auth: "APIKeyAuth (server_verify X) dev (\<lambda>reason. on_metrics (IncAuthFailure reason)) ?api ?r (wr, s) = (x, (wr', s'))"
    using run m e by (simp add: routes_def Let_def endpoint_def)
  have served: ?thesis if a: "?api (as_identity i ?r) (wr, s1) = (x, (wr', s'))" and t: "id_TenantID i \<noteq> u"
    and s1: "w_db (sv_world s1) = w_db (sv_world s)" for i s1
  proof -
    have ctx: "TenantIDFromContext (rq_Ctx (as_identity i ?r)) = Inr (id_TenantID i)" by (simp add: as_identity_def)
    have "tenant_safe (id_TenantID i) (w_db (sv_world s)) (w_db (sv_world (snd (wr', s'))))"
      by (rule keepsD [OF safe_api_route [OF h ctx] _ a]) (use e m inv s1 in \<open>simp_all add: tenant_safe_def\<close>)
    with t show ?thesis by (simp add: tenant_safe_def others_kept_def)
  qed
  show ?thesis
  proof (cases "extractAPIKey r = []")
    case True
    show ?thesis
    proof (cases dev)
      case None
      with auth True inv show ?thesis by (auto simp: auth_missing k on_metrics_def)
    next
      case (Some t)
      with auth True c show ?thesis
        by (intro served [of "dev_identity t" s]) (simp_all add: APIKeyAuth_def k dev_identity_def caller_def)
    qed
  next
    case False
    then have ne: "extractAPIKey ?r \<noteq> []" by (simp add: k)
    obtain q s1 where v: "av_Verify (server_verify X) (rq_Ctx ?r) (extractAPIKey ?r) s = (q, s1)" by fastforce
    have s1: "w_db (sv_world s1) = w_db (sv_world s)" using server_verify_world [OF v] by blast
    show ?thesis
    proof (cases q)
      case (Inl err)
      have "w_db (sv_world s') = w_db (sv_world s1)"
        using auth unfolding auth_refused [OF ne v [unfolded Inl]] by (auto simp: on_metrics_def)
      with s1 inv show ?thesis by simp
    next
      case (Inr i)
      with v c False have "id_TenantID i \<noteq> u" by (simp add: caller_def k)
      with served [OF _ this s1] auth [unfolded auth_passed [OF ne v [unfolded Inr]]] show ?thesis by blast
    qed
  qed
qed

text \<open>
  Histories of the server: requests to the endpoints, none of them served as tenant \<open>u\<close>, from any
  clients and with any calls failing, while time passes.
\<close>

inductive api_run :: "Ext \<Rightarrow> 'f Lib \<Rightarrow> Handlers \<Rightarrow> uuid option \<Rightarrow> uuid \<Rightarrow> Server \<Rightarrow> Server \<Rightarrow> bool"
  for X lib hs dev u s where
  Begin: "api_run X lib hs dev u s s"
| Serve: "api_run X lib hs dev u s v \<Longrightarrow> endpoint (fst (lib_match lib r)) \<Longrightarrow> caller X dev r v \<noteq> Some u \<Longrightarrow>
    routes X lib hs dev PostgresIdempotencyStore r (wr, v) = (x, (wr', v')) \<Longrightarrow> api_run X lib hs dev u s v'"
| Wait: "api_run X lib hs dev u s v \<Longrightarrow>
    api_run X lib hs dev u s (v\<lparr>sv_world := (sv_world v)\<lparr>w_clock := w_clock (sv_world v) + int n\<rparr>\<rparr>)"

lemma api_run_isolated:
  assumes "api_run X lib hs dev u s v" "pg_handlers X hs" "db_inv (w_db (sv_world s))"
  shows "db_inv (w_db (sv_world v)) \<and> tenant_view u (w_db (sv_world v)) = tenant_view u (w_db (sv_world s))"
  using assms
proof (induction rule: api_run.induct)
  case (Serve v r wr x wr' v')
  with request_isolated [OF Serve.prems(1) _ Serve(2-4)] show ?case by simp
qed simp_all

end
