(* ===== verification/Access_Properties.thy ===== *)
theory Access_Properties
  imports App Isolation Demo_Text
begin

text \<open>
  Who may use the API: keys and their revocation, the two refusals of a request (401 and 403), the
  rate limit, and what start-up guarantees about it.
\<close>

section \<open>Keys\<close>

text \<open>A database with one key, whose hash \<open>text_ext\<close> makes the same text.\<close>

definition key_world :: World where
  "key_world = text_world\<lparr>w_db := demo_db\<lparr>api_keys := [new_key_row 7 1 ''k'' ''reader'' [''media:*''] 0]\<rparr>\<rparr>"

lemma key_world_sel [simp]:
  "w_db key_world = demo_db\<lparr>api_keys := [new_key_row 7 1 ''k'' ''reader'' [''media:*''] 0]\<rparr>"
  "w_clock key_world = 50" "no_faults key_world"
  by (simp_all add: key_world_def no_faults_def)

lemma hash_text [simp]: "hashKey text_ext k = k"
  by (simp add: hashKey_def text_ext_sel)

lemma auth_step_ttl: "kc_ttl (vf_cache (fst (auth_step X e st))) = kc_ttl (vf_cache (fst st))"
proof (cases e)
  case (EVerify ctx k)
  obtain v w where st: "st = (v, w)" by fastforce
  obtain r v' w' where r: "Verify X ctx k (v, w) = (r, (v', w'))" by (metis surj_pair)
  from r show ?thesis by (cases rule: Verify_cases) (use st r EVerify in \<open>auto simp: keyCache_put_items\<close>)
qed (auto simp: touchLastUsed_def InvalidateCache_def keyCache_clear_def split: list.splits)

lemma auth_run_ttl: "kc_ttl (vf_cache (fst (auth_run X es st))) = kc_ttl (vf_cache (fst st))"
  by (induction es arbitrary: st) (simp_all only: auth_run.simps auth_step_ttl)

text \<open>C9: revocation takes effect: from a verifier's start, whatever was verified and cached before, once
  the tables stop vouching for a key (deleted, expired or its tenant suspended) and keep doing so, the
  key is refused as soon as the cache's time to live has passed.\<close>

theorem revoked_key_refused:
  assumes "st = auth_run X es0 (NewAuthVerifier ttl, w0)"
    and "refused (hashKey X k) (w_db (snd st)) (w_clock (snd st))"
    and "\<forall>d. ETables d \<in> set es \<longrightarrow> refused (hashKey X k) d (w_clock (snd st))"
    and "w_clock (snd st) + ttl \<le> w_clock (snd (auth_run X es st))"
  shows "\<exists>e. fst (Verify X ctx k (auth_run X es st)) = Inl e"
proof -
  have "kc_ttl (vf_cache (fst st)) = ttl"
    unfolding assms(1) by (simp add: auth_run_ttl NewAuthVerifier_def newKeyCache_def)
  moreover have "cache_fresh st" unfolding assms(1) by (rule cache_fresh_run [OF cache_fresh_start])
  ultimately have "revoked_since (hashKey X k) ttl (w_clock (snd st)) st"
    using assms(2) by (auto simp: revoked_since_def cache_fresh_def)
  from revoked_refused [OF revoked_run [OF this] assms(4)] assms(3) show ?thesis by blast
qed

theorem revoked_key_refused_witness:
  "\<exists>e. fst (Verify text_ext background ''k'' (auth_run text_ext [EWait 5000000]
      (auth_run text_ext [EVerify background ''k'', ETables demo_db] (NewAuthVerifier 5000000, key_world)))) = Inl e"
proof (rule revoked_key_refused [OF refl])
  let ?st = "auth_run text_ext [EVerify background ''k'', ETables demo_db] (NewAuthVerifier 5000000, key_world)"
  show "refused (hashKey text_ext ''k'') (w_db (snd ?st)) (w_clock (snd ?st))"
    by (simp add: refused_def sql_find_key_def demo_db_sel)
qed simp_all

text \<open>A key that was just issued is accepted, with its tenant, its id and exactly its scopes.\<close>

lemma issued_key_verifies:
  assumes "CreateAPIKey X t n sc w = (Inr (i, raw, h), w1)" and "no_faults w"
    and "find (\<lambda>r. tn_id r = t) (tenants (w_db w)) = Some tr" and "tn_status tr = TenantStatusActive"
    and "keyCache_get (vf_cache v) h (w_clock w) = None"
  shows "fst (Verify X ctx raw (v, w1)) = Inr \<lparr>id_TenantID = t, id_KeyID = i, id_Scopes = sc, id_ExpiresAt = None\<rparr>"
  by (rule created_key_verifies [OF assms])

lemma create_key_run:
  "\<exists>i raw h w1. CreateAPIKey text_ext 1 ''n'' [''tags:read''] text_world = (Inr (i, raw, h), w1)"
  by (simp add: CreateAPIKey_def and_then_def uuid_New_def draw_uuid_def map_err_def autocommit_def db_insert_no_faults
      no_faults_def sql_insert_key_def demo_db_sel is_tenant_def ret_def tx_commit_def next_call_def Let_def)

lemma issued_key_verifies_witness:
  "\<exists>i raw h w1. CreateAPIKey text_ext 1 ''n'' [''tags:read''] text_world = (Inr (i, raw, h), w1)
    \<and> fst (Verify text_ext background raw (NewAuthVerifier 5000000, w1))
        = Inr \<lparr>id_TenantID = 1, id_KeyID = i, id_Scopes = [''tags:read''], id_ExpiresAt = None\<rparr>"
proof -
  obtain i raw h w1 where r: "CreateAPIKey text_ext 1 ''n'' [''tags:read''] text_world = (Inr (i, raw, h), w1)"
    using create_key_run by blast
  from r issued_key_verifies [OF r, of "demo_tenant 1" "NewAuthVerifier 5000000" background] show ?thesis
    by (simp add: demo_db_sel demo_tenant_def NewAuthVerifier_def newKeyCache_def keyCache_get_def)
qed

section \<open>Refused requests\<close>

text \<open>C29: a request below /api/v1 whose key is missing (when the development fallback is off) or refused
  by the verifier is answered 401 and changes no table, no file and no object.\<close>

theorem unauthenticated_refused:
  assumes "is_api (fst (lib_match lib r))" and "wr_Sent wr = None"
    and "extractAPIKey r = [] \<longrightarrow> dev = None"
    and "extractAPIKey r \<noteq> [] \<longrightarrow> (\<exists>e. fst (av_Verify (server_verify X) (rq_Ctx r) (extractAPIKey r) s) = Inl e)"
  shows "\<exists>wr' s'. routes X lib hs dev store r (wr, s) = (Inr (), (wr', s')) \<and> final_status wr' = 401
    \<and> w_db (sv_world s') = w_db (sv_world s) \<and> w_disk (sv_world s') = w_disk (sv_world s)
    \<and> w_objects (sv_world s') = w_objects (sv_world s)"
  by (rule api_unauthenticated [OF assms])

text \<open>A routing library that knows one route, and handlers on the local storage.\<close>

definition one_route :: "Route \<Rightarrow> string Lib" where
  "one_route route = \<lparr>lib_match = (\<lambda>_. (route, \<lambda>_. [])), lib_pattern = (\<lambda>_. []), lib_RealIP = (\<lambda>r. r),
     lib_Compress = (\<lambda>h. h), lib_unmatched = (\<lambda>_. respond (WriteHeader 404)), lib_promhttp = (\<lambda>_. respond (WriteHeader 200)),
     lib_files = (\<lambda>fs _. respond (WriteHeader 404)), lib_dir = (\<lambda>_ _. Inl ErrNotExist), lib_stat = (\<lambda>_ _. Inl ErrNotExist)\<rparr>"

definition demo_handlers :: Handlers where
  "demo_handlers = \<lparr>hs_health = NewHealthHandler db_ping, hs_tag = NewTagHandler (NewTagService (PostgresTagRepo text_ext)),
     hs_media = NewMediaHandler (NewMediaService (PostgresMediaRepo text_ext) (PostgresTagRepo text_ext)
       (LocalFileStorage text_ext text_store) []) 1000\<rparr>"

definition key_request :: "string \<Rightarrow> Request" where
  "key_request key = \<lparr>rq_Method = ''GET'', rq_Path = ''/api/v1/tags'', rq_Query = (\<lambda>_. []),
     rq_Header = (\<lambda>h. if h = ''X-API-Key'' then key else []), rq_RemoteAddr = ''10.0.0.1:1'', rq_Body = [],
     rq_Multipart = (\<lambda>_. Inl ''no form''), rq_Params = (\<lambda>_. []), rq_Ctx = background\<rparr>"

lemma key_request_sel [simp]:
  "extractAPIKey (key_request key) = key" "rq_Ctx (key_request key) = background"
  "rq_Header (key_request key) idempotencyKeyHeader = []"
  by (simp_all add: key_request_def extractAPIKey_def has_prefix_def idempotencyKeyHeader_def)

lemma one_route_match [simp]: "lib_match (one_route route) r = (route, \<lambda>_. [])"
  by (simp add: one_route_def)

theorem unauthenticated_refused_witness:
  "\<exists>wr' s'. routes text_ext (one_route GetTags) demo_handlers (Some LegacyTenantID) PostgresIdempotencyStore (key_request ''z'')
      (new_writer, new_server key_world 5000000 10 30) = (Inr (), (wr', s')) \<and> final_status wr' = 401"
proof -
  let ?s = "new_server key_world 5000000 10 30"
  have "fst (Verify text_ext background ''z'' (NewAuthVerifier 5000000, key_world)) = Inl ErrKeyInvalid"
    by (subst Verify_miss)
      (simp_all add: NewAuthVerifier_def newKeyCache_def keyCache_get_def verify_outcome_def sql_find_key_def new_key_row_def)
  then obtain v w where "Verify text_ext background ''z'' (NewAuthVerifier 5000000, key_world) = (Inl ErrKeyInvalid, (v, w))"
    by (metis prod.collapse)
  then have "fst (av_Verify (server_verify text_ext) (rq_Ctx (key_request ''z'')) (extractAPIKey (key_request ''z'')) ?s)
      = Inl ErrKeyInvalid" by (simp add: server_verify_def new_server_def)
  then show ?thesis
    using unauthenticated_refused [of "one_route GetTags" "key_request ''z''" new_writer "Some LegacyTenantID" text_ext ?s
        demo_handlers PostgresIdempotencyStore]
    by (fastforce simp: is_api_def new_writer_def)
qed

lemma key_verified:
  "\<exists>s'. av_Verify (server_verify text_ext) background ''k'' (new_server key_world 5000000 10 30)
    = (Inr \<lparr>id_TenantID = 1, id_KeyID = 7, id_Scopes = [''media:*''], id_ExpiresAt = None\<rparr>, s')"
proof -
  let ?i = "\<lparr>id_TenantID = 1, id_KeyID = 7, id_Scopes = [''media:*''], id_ExpiresAt = None\<rparr>"
  have "fst (Verify text_ext background ''k'' (NewAuthVerifier 5000000, key_world)) = Inr ?i"
    by (subst Verify_miss)
      (simp_all add: NewAuthVerifier_def newKeyCache_def keyCache_get_def verify_outcome_def sql_find_key_def
        new_key_row_def demo_db_sel demo_tenant_def key_expired_def)
  then obtain v w where "Verify text_ext background ''k'' (NewAuthVerifier 5000000, key_world) = (Inr ?i, (v, w))"
    by (metis prod.collapse)
  then show ?thesis by (simp add: server_verify_def new_server_def)
qed

text \<open>C1: tenants are isolated end to end: whatever requests reach the endpoints, with any keys, bodies and
  failing calls, as long as none is served as tenant u every row of u stays as it is, and the
  constraints of the schema hold throughout.\<close>

theorem other_tenants_unaffected:
  assumes "api_run X lib hs dev u s v" and "pg_handlers X hs" and "db_inv (w_db (sv_world s))"
  shows "db_inv (w_db (sv_world v)) \<and> tenant_view u (w_db (sv_world v)) = tenant_view u (w_db (sv_world s))"
  by (rule api_run_isolated [OF assms])

text \<open>The library of \<open>one_route\<close> with the id of a media item in the path.\<close>

definition item_route :: "string Lib" where
  "item_route = (one_route DeleteMedia)\<lparr>lib_match := (\<lambda>_. (DeleteMedia, \<lambda>_. x_uuid_string text_ext 20))\<rparr>"

lemma key_world_inv: "db_inv (w_db key_world)"
  using demo_inv by (simp add: db_inv_def ok_defs is_tenant_def demo_db_sel new_key_row_def)

lemma demo_pg_handlers: "pg_handlers text_ext demo_handlers"
  using pg_upload_local by (simp add: pg_handlers_def demo_handlers_def NewTagHandler_def NewTagService_def)

theorem other_tenants_unaffected_witness:
  "\<exists>x wr' s'. routes text_ext item_route demo_handlers None PostgresIdempotencyStore (key_request ''k'')
      (new_writer, new_server key_world 5000000 10 30) = (x, (wr', s'))
    \<and> tenant_view 2 (w_db (sv_world s')) = tenant_view 2 (w_db key_world)"
proof -
  let ?s = "new_server key_world 5000000 10 30"
  obtain x wr' s' where r: "routes text_ext item_route demo_handlers None PostgresIdempotencyStore (key_request ''k'')
      (new_writer, ?s) = (x, (wr', s'))" by (metis surj_pair)
  have "caller text_ext None (key_request ''k'') ?s \<noteq> Some 2" using key_verified by (auto simp: caller_def)
  moreover have "endpoint (fst (lib_match item_route (key_request ''k'')))"
    by (simp add: item_route_def endpoint_def is_api_def)
  ultimately have "api_run text_ext item_route demo_handlers None 2 ?s s'" using Serve [OF Begin _ _ r] by blast
  from other_tenants_unaffected [OF this demo_pg_handlers] key_world_inv r show ?thesis
    by (simp add: new_server_def)
qed

text \<open>The scope each route of the API asks for.\<close>

definition route_scope :: "Route \<Rightarrow> string option" where
  "route_scope route =
     (case route of
        PostTags \<Rightarrow> Some ScopeTagsWrite | GetTags \<Rightarrow> Some ScopeTagsRead | PatchTag \<Rightarrow> Some ScopeTagsWrite
      | DeleteTag \<Rightarrow> Some ScopeTagsWrite | PostMedia \<Rightarrow> Some ScopeMediaWrite | GetMedia \<Rightarrow> Some ScopeMediaRead
      | GetMediaItem \<Rightarrow> Some ScopeMediaRead | DeleteMedia \<Rightarrow> Some ScopeMediaWrite
      | PostMediaTags \<Rightarrow> Some ScopeMediaWrite | DeleteMediaTag \<Rightarrow> Some ScopeMediaWrite | _ \<Rightarrow> None)"

lemma scoped_forbidden:
  "IdentityFromContext (rq_Ctx r) = Some i \<Longrightarrow> \<not> HasScope i sc \<Longrightarrow>
    on_world (scoped sc h) r (wr, s) = (Inr (), (writeError 403 ''FORBIDDEN'' (''missing scope: '' @ sc) wr, s))"
  by (simp add: scoped_def requireScope_def on_world_eq)

lemmas endpoint_defs = TagHandler_Create_def TagHandler_List_def TagHandler_Update_def TagHandler_Delete_def
  MediaHandler_Create_def MediaHandler_List_def MediaHandler_GetByID_def MediaHandler_Delete_def
  MediaHandler_AttachTags_def MediaHandler_DetachTag_def

text \<open>C12: a request whose key is valid but lacks the scope of its route is answered 403 with the name of
  the missing scope; beyond the lookup of the key nothing changes.  An upload with an idempotency key
  is excepted: the stored answer is looked up before the scope is checked.\<close>

theorem scope_enforced:
  assumes "lib_match lib r = (route, params)" and "route_scope route = Some sc"
    and "extractAPIKey r \<noteq> []" and "av_Verify (server_verify X) (rq_Ctx r) (extractAPIKey r) s = (Inr i, s')"
    and "\<not> HasScope i sc" and "route = PostMedia \<longrightarrow> rq_Header r idempotencyKeyHeader = []"
  shows "routes X lib hs dev store r (wr, s)
    = (Inr (), (writeError 403 ''FORBIDDEN'' (''missing scope: '' @ sc) wr, s'))"
proof -
  let ?r = "r\<lparr>rq_Params := params\<rparr>"
  have k: "extractAPIKey ?r = extractAPIKey r" by (simp add: extractAPIKey_def)
  have api: "is_api route" using assms(2) by (simp add: route_scope_def is_api_def split: Route.splits)
  have i: "IdentityFromContext (rq_Ctx (as_identity i ?r)) = Some i"
    by (simp add: as_identity_def WithIdentity_def IdentityFromContext_def)
  have "routes X lib hs dev store r (wr, s) = api_route X lib hs store route (as_identity i ?r) (wr, s')"
    using assms(1,3,4) api by (simp add: routes_def Let_def auth_passed k)
  moreover have "Idempotency store h (as_identity i ?r) = h (as_identity i ?r)" if "route = PostMedia" for h
    using assms(6) that by (simp add: Idempotency_def as_identity_def)
  then have "api_route X lib hs store route (as_identity i ?r) (wr, s')
      = (Inr (), (writeError 403 ''FORBIDDEN'' (''missing scope: '' @ sc) wr, s'))"
    using assms(2) scoped_forbidden [OF i assms(5)]
    by (cases route) (auto simp: api_route_def route_scope_def endpoint_defs on_world_eq)
  ultimately show ?thesis by simp
qed

theorem scope_enforced_witness:
  "\<exists>s'. routes text_ext (one_route GetTags) demo_handlers None PostgresIdempotencyStore (key_request ''k'')
      (new_writer, new_server key_world 5000000 10 30)
    = (Inr (), (writeError 403 ''FORBIDDEN'' ''missing scope: tags:read'' new_writer, s'))"
proof -
  let ?i = "\<lparr>id_TenantID = 1, id_KeyID = 7, id_Scopes = [''media:*''], id_ExpiresAt = None\<rparr>"
  obtain s' where "av_Verify (server_verify text_ext) (rq_Ctx (key_request ''k'')) (extractAPIKey (key_request ''k''))
      (new_server key_world 5000000 10 30) = (Inr ?i, s')" using key_verified by auto
  moreover have "\<not> HasScope ?i ''tags:read''" by (simp add: HasScope_iff)
  ultimately show ?thesis
    using scope_enforced [of "one_route GetTags" "key_request ''k''" GetTags "\<lambda>_. []" "''tags:read''" text_ext
        "new_server key_world 5000000 10 30" ?i]
    by (simp add: route_scope_def ScopeTagsRead_def)
qed

section \<open>The rate limit\<close>

text \<open>C14: the limit holds: whatever requests of any clients come in and whenever the clean-up runs, up to
  time \<open>T\<close> a client gets at most the burst and what was refilled since the start; when a full bucket
  refills in ten minutes the clean-up gives nobody more.\<close>

theorem rate_limit_bound:
  assumes "0 \<le> burst" and "real_of_int burst \<le> 600 * rps"
    and "sorted (map event_time es)" and "\<forall>e \<in> set es. t \<le> event_time e \<and> event_time e \<le> T" and "t \<le> T"
  shows "real (admitted ip es (newRateLimiterStore rps burst)) \<le> real_of_int burst + Seconds (T - t) * rps"
proof -
  have "0 \<le> 600 * rps" using assms(1,2) by (meson of_int_0_le_iff order_trans)
  then have s: "store_ok t (newRateLimiterStore rps burst)" using assms(1) by simp
  from admitted_bound [OF s _ assms(3) _ assms(5), of ip] assms(2,4) show ?thesis
    by (auto simp: newRateLimiterStore_def available_def)
qed

theorem rate_limit_bound_witness:
  "real (admitted ''a'' [Req ''a'' 0, Req ''a'' 0, Req ''a'' 0, Sweep 10, Req ''b'' 20, Req ''a'' 1000000]
      (newRateLimiterStore 1 2)) \<le> 3"
  using rate_limit_bound [of 2 1 "[Req ''a'' 0, Req ''a'' 0, Req ''a'' 0, Sweep 10, Req ''b'' 20, Req ''a'' 1000000]" 0 1000000 "''a''"]
  by (simp add: Seconds_def)

text \<open>The limiter after a sequence of events.\<close>

fun limiter_run :: "rl_event list \<Rightarrow> rateLimiterStore \<Rightarrow> rateLimiterStore" where
  "limiter_run [] s = s"
| "limiter_run (Req ip t # es) s = limiter_run es (snd (allow_ip ip t s))"
| "limiter_run (Sweep t # es) s = limiter_run es (limiter_cleanup t s)"

lemma limiter_run_ok:
  assumes "store_ok t s" "sorted (t # map event_time es)" "\<And>e. e \<in> set es \<Longrightarrow> event_time e \<le> T" "t \<le> T"
  shows "store_ok T (limiter_run es s) \<and> rl_rps (limiter_run es s) = rl_rps s \<and> rl_burst (limiter_run es s) = rl_burst s"
  using assms
proof (induction es arbitrary: t s)
  case Nil
  then show ?case using store_ok_later by simp
next
  case (Cons e es)
  have s: "store_ok (event_time e) s" "event_time e \<le> T"
    using store_ok_later [OF Cons.prems(1)] Cons.prems(2,3) by simp_all
  show ?case
  proof (cases e)
    case (Req ip u)
    have "store_ok u (snd (allow_ip ip u s)) \<and> rl_rps (snd (allow_ip ip u s)) = rl_rps s
        \<and> rl_burst (snd (allow_ip ip u s)) = rl_burst s"
      using allow_ip_step [of u s ip] s Req by (metis event_time.simps(1) prod.collapse)
    with Cons.IH [of u "snd (allow_ip ip u s)"] Cons.prems Req s show ?thesis by auto
  next
    case (Sweep u)
    have "store_ok u (limiter_cleanup u s)" using s Sweep
      by (auto simp: store_ok_def limiter_cleanup_def bucket_ok_def split: option.splits if_splits)
    with Cons.IH [of u "limiter_cleanup u s"] Cons.prems Sweep s show ?thesis by (auto simp: limiter_cleanup_def)
  qed
qed

text \<open>Nobody is locked out: after any history, a client that stays away for the time one token takes to
  refill has its next request admitted, whatever it and others did before.\<close>

lemma rate_limit_recovers:
  assumes "1 \<le> burst" and "0 < rps" and "sorted (map event_time es)" and "\<forall>e \<in> set es. event_time e \<le> T"
    and "1 \<le> Seconds (now - T) * rps"
  shows "fst (allow_ip ip now (limiter_run es (newRateLimiterStore rps burst)))"
proof -
  let ?s = "limiter_run es (newRateLimiterStore rps burst)"
  define t where "t = (case es of [] \<Rightarrow> T | e # _ \<Rightarrow> event_time e)"
  have t: "sorted (t # map event_time es)" "t \<le> T"
    using assms(3,4) by (auto simp: t_def split: list.splits)
  have ok: "store_ok T ?s" "rl_rps ?s = rps" "rl_burst ?s = burst"
    using limiter_run_ok [OF store_ok_new t(1), of rps burst T] assms t(2) by (auto simp: newRateLimiterStore_def)
  have "0 < Seconds (now - T)" using assms(2,5) by (metis less_le_trans zero_less_mult_pos2 zero_less_one)
  then have later: "T \<le> now" by (simp add: Seconds_def)
  have "1 \<le> available ip now ?s"
  proof (cases "rl_buckets ?s ip")
    case None
    with ok assms(1) show ?thesis by (simp add: available_def)
  next
    case (Some b)
    with ok have b: "bucket_ok T ?s b" by (auto simp: store_ok_def)
    have "Seconds (now - T) * rps \<le> Seconds (now - tb_lastRefill b) * rps"
      using b assms(2) by (intro mult_right_mono Seconds_mono) (simp_all add: bucket_ok_def)
    with b Some ok assms(1,5) show ?thesis by (simp add: available_def bucket_ok_def)
  qed
  with allow_ip_iff [OF store_ok_later [OF ok(1) later]] show ?thesis by blast
qed

lemma rate_limit_recovers_witness:
  "fst (allow_ip ''a'' 500000 (limiter_run [Req ''a'' 0, Req ''a'' 0, Req ''a'' 0] (newRateLimiterStore 2 1)))"
  by (rule rate_limit_recovers [where T = 0]) (simp_all add: Seconds_def)

section \<open>Start-up\<close>

text \<open>C40: the configured origins are well formed for every environment: none is empty, contains a comma or
  has white space at its ends, and written back as a list they are read as the same origins.\<close>

theorem cors_origins_wellformed:
  "list_all clean_origin (CORSOrigins (Load env))
    \<and> parseCORSOrigins (strings_join '','' (CORSOrigins (Load env))) = CORSOrigins (Load env)"
proof -
  have "list_all clean_origin (CORSOrigins (Load env))" by (simp add: Load_def parseCORSOrigins_clean)
  then show ?thesis using parseCORSOrigins_join by blast
qed

text \<open>The handlers are built on the PostgreSQL repositories, with either storage.\<close>

lemma wire_handlers:
  assumes "fst (initStorage X pf cfg w) = Inr storage"
  shows "\<exists>hs. pg_handlers X hs \<and> srv_Handler (app_http (wire X pf cfg storage q loops)) = NewRouter X (pf_lib pf) hs
    (if APIKey cfg = [] then Some LegacyTenantID else None) (CORSOrigins cfg) (micros (RequestTimeout cfg)) PostgresIdempotencyStore"
proof -
  have s: "(\<exists>l. storage = LocalFileStorage X l) \<or> (\<exists>p l. storage = S3FileStorage X p l)"
    using assms by (auto simp: initStorage_def and_then_def ret_def split: if_splits prod.splits sum.splits)
  let ?tag = "NewTagHandler (NewTagService (PostgresTagRepo X))"
  let ?media = "NewMediaHandler (NewMediaService (PostgresMediaRepo X) (PostgresTagRepo X) storage (BaseURL cfg)) (MaxUploadSize cfg)"
  let ?hs = "\<lparr>hs_health = NewHealthHandler db_ping, hs_tag = ?tag, hs_media = ?media\<rparr>"
  have "pg_handlers X ?hs"
    using s pg_upload_local pg_upload_s3 by (auto simp: pg_handlers_def NewTagHandler_def NewTagService_def)
  moreover have "srv_Handler (app_http (wire X pf cfg storage q loops)) = NewRouter X (pf_lib pf) ?hs
      (if APIKey cfg = [] then Some LegacyTenantID else None) (CORSOrigins cfg) (micros (RequestTimeout cfg)) PostgresIdempotencyStore"
    by (simp add: wire_def Let_def)
  ultimately show ?thesis by blast
qed

text \<open>C30: start-up secures the API: once it succeeds the legacy tenant exists; with API_KEY set its key is
  registered and the server runs without the fallback identity, and only without API_KEY is a request
  that brings no key served as the legacy tenant; the handlers work on the PostgreSQL repositories.\<close>

theorem startup_secures_api:
  assumes "start X pf env w = (Inr app, w')"
  shows "is_tenant (w_db w') LegacyTenantID
    \<and> (env ''API_KEY'' \<noteq> [] \<longrightarrow> hashKey X (env ''API_KEY'') \<in> ak_hash ` set (api_keys (w_db w')))
    \<and> (\<exists>hs. pg_handlers X hs \<and> srv_Handler (app_http app) = NewRouter X (pf_lib pf) hs
        (if env ''API_KEY'' = [] then Some LegacyTenantID else None) (CORSOrigins (Load env))
        (micros (RequestTimeout (Load env))) PostgresIdempotencyStore)"
proof -
  obtain storage q loops w1 w2 where e: "EnsureLegacyTenant X (env ''API_KEY'') w1 = (Inr (), w')"
    and app: "app = wire X pf (Load env) storage q loops" and st: "fst (initStorage X pf (Load env) w2) = Inr storage"
    using start_Inr [OF assms] unfolding Load_APIKey by metis
  have "\<exists>hs. pg_handlers X hs \<and> srv_Handler (app_http app) = NewRouter X (pf_lib pf) hs
      (if env ''API_KEY'' = [] then Some LegacyTenantID else None) (CORSOrigins (Load env))
        (micros (RequestTimeout (Load env))) PostgresIdempotencyStore"
    using wire_handlers [OF st] unfolding app Load_APIKey by metis
  with EnsureLegacyTenant_Inr [OF e] show ?thesis by blast
qed

definition demo_platform :: "string Platform" where
  "demo_platform = \<lparr>pf_lib = one_route GetTags,
     pf_migrate = \<lparr>mg_iofs = ret (), mg_driver = ret (), mg_new = ret (), mg_Up = fail ErrNoChange\<rparr>,
     pf_presign = (\<lambda>_ _ _. Inl ErrNotExist), pf_cwd = ''/srv'', pf_serve = (\<lambda>app s. (Signal, s)), pf_Shutdown = (\<lambda>_. ret ())\<rparr>"

definition demo_env :: environ where
  "demo_env = (\<lambda>_. [])(''API_KEY'' := ''secret'')"

lemma commit_runs: "no_faults w \<Longrightarrow> tx_commit w0 x w = (Inr x, w\<lparr>w_calls := Suc (w_calls w)\<rparr>)"
  by (simp add: tx_commit_def next_call_def no_faults_def)

lemma ensure_runs:
  assumes "w_db w = demo_db" "no_faults w"
  shows "\<exists>w'. EnsureLegacyTenant text_ext ''secret'' w = (Inr (), w')"
  using assms
  by (simp add: EnsureLegacyTenant_def and_then_def map_err_def autocommit_def db_exec_no_faults db_insert_no_faults
      sql_ensure_tenant_def sql_ensure_key_def sql_insert_key_def demo_db_sel is_tenant_def ret_def commit_runs
      LegacyTenantID_def)

lemma start_run: "\<exists>app w'. start text_ext demo_platform demo_env text_world = (Inr app, w')"
proof -
  have cfg: "JobQueueBackend (Load demo_env) = ''postgres''" "StorageBackend (Load demo_env) = ''local''"
    "APIKey (Load demo_env) = ''secret''"
    by (simp_all add: Load_def getEnv_def demo_env_def)
  have m: "runMigrations (pf_migrate demo_platform) w = (Inr (), w)" for w
    by (simp add: runMigrations_def demo_platform_def and_then_def map_err_def handle_def ret_def fail_def)
  have s: "initStorage text_ext demo_platform (Load demo_env) w = (Inr (LocalFileStorage text_ext
      \<lparr>ls_basePath = filepath_abs ''/srv'' (UploadDir (Load demo_env))\<rparr>), w\<lparr>w_calls := Suc (w_calls w)\<rparr>)" if "no_faults w" for w
    using that
    by (simp add: initStorage_def cfg Local_NewStorage_def demo_platform_def and_then_def map_err_def os_call_no_faults ret_def Let_def)
  let ?w = "text_world\<lparr>w_calls := 3\<rparr>"
  obtain w' where "EnsureLegacyTenant text_ext ''secret'' ?w = (Inr (), w')" using ensure_runs [of ?w] by auto
  then show ?thesis
    by (simp add: start_def Let_def and_then_def map_err_def db_ping_def os_call_no_faults m s newJobQueue_def cfg of_result_def ret_def
        numeral_3_eq_3)
qed

theorem startup_secures_api_witness:
  "\<exists>app w'. start text_ext demo_platform demo_env text_world = (Inr app, w')
    \<and> ''secret'' \<in> ak_hash ` set (api_keys (w_db w'))"
proof -
  obtain app w' where r: "start text_ext demo_platform demo_env text_world = (Inr app, w')" using start_run by blast
  from r startup_secures_api [OF r] show ?thesis by (simp add: demo_env_def)
qed

text \<open>
  A ticker interval of zero or less, which the settings allow, panics in a goroutine that nothing
  recovers.
\<close>

lemma zero_interval_panics:
  assumes "start X pf env w = (Inr app, w')" "env ''JOB_QUEUE_BACKEND'' = []" "env ''JOB_STATS_INTERVAL'' = ''0''"
  shows "\<exists>b \<in> set (app_background app). panics b"
proof -
  obtain storage q loops w1 where l: "newJobQueue X (Load env) = Inr (q, loops)"
    and app: "app = wire X pf (Load env) storage q (loops @ start_worker (Load env) q)"
    using start_Inr [OF assms(1)] by metis
  have "JobQueueBackend (Load env) = ''postgres''" using assms(2) by (simp add: Load_def getEnv_def)
  with newJobQueue_loops [OF l] have "StatsLoop (JobStatsInterval (Load env)) \<in> set (app_background app)"
    by (simp add: app wire_background)
  moreover have "JobStatsInterval (Load env) = 0"
    using assms(3) by (simp add: Load_def getEnvInt_def duration_def Second_def atoi_def digit_val_def Let_def max_int64_def min_int64_def)
  ultimately show ?thesis by (force simp: panics_def)
qed

end
