(* ===== verification/Idem_Concurrency.thy ===== *)
theory Idem_Concurrency
  imports Replay
begin

text \<open>
  Requests with idempotency keys that run at the same time: \<^verbatim>\<open>middleware/idempotency.go\<close> broken into the
  calls at which other requests get in, on the PostgreSQL store.  What is shown: run alone, the
  steps are the middleware; once a response is stored, it is what every later request with the key
  gets while it lives, whatever happens beside it; before it is stored, any number of requests
  with the key may run the handler.
\<close>

section \<open>Requests and their steps\<close>

text \<open>
  \<open>Running g\<close>: the handler is about to run; \<open>g\<close>: the lookup found nothing, so the answer will be
  stored.  \<open>Ran g x wr\<close>: the handler has returned (or panicked) with \<open>wr\<close> written.
\<close>

datatype rphase =
    Arrived
  | Running bool
  | Ran bool "string + unit" Writer
  | Replayed int string
  | Finished bool "string + unit" Writer

record front =
  fr_world :: World
  fr_phase :: "nat \<Rightarrow> rphase"

definition enter :: "nat \<Rightarrow> rphase \<Rightarrow> World \<Rightarrow> front \<Rightarrow> front" where
  "enter k ph w p = p\<lparr>fr_world := w, fr_phase := (fr_phase p)(k := ph)\<rparr>"

definition idem_key :: "Request \<Rightarrow> string" where
  "idem_key r = rq_Header r idempotencyKeyHeader"

text \<open>The status and the body that \<open>run_and_store\<close> takes from the calls of the handler, if it stores them.\<close>

definition to_store :: "Writer \<Rightarrow> Writer \<Rightarrow> (int \<times> string option) option" where
  "to_store wr0 wr =
     (let cs = calls_made wr0 wr; code = captured_status 0 cs in
      if 200 \<le> code \<and> code < 300 then Some (code, buffer_bytes (captured_body cs)) else None)"

text \<open>
  \<open>h\<close>: the handler; \<open>rq k\<close>, \<open>wrs k\<close>: the request with number \<open>k\<close> and its writer.  Beside the
  requests the hourly clean-up runs, the rest of the program leaves the stored responses alone,
  and time passes.
\<close>

inductive idem_step ::
  "World Handler \<Rightarrow> (nat \<Rightarrow> Request) \<Rightarrow> (nat \<Rightarrow> Writer) \<Rightarrow> front \<Rightarrow> nat option \<Rightarrow> front \<Rightarrow> bool"
  for h rq wrs where
  no_key: "fr_phase p k = Arrived \<Longrightarrow> idem_key (rq k) = [] \<Longrightarrow>
    idem_step h rq wrs p (Some k) (enter k (Running False) (fr_world p) p)"
| lookup_failed: "fr_phase p k = Arrived \<Longrightarrow> idem_key (rq k) \<noteq> [] \<Longrightarrow>
    IdempotencyStore_Get (rq_Ctx (rq k)) (idem_key (rq k)) (fr_world p) = (Inl e, w) \<Longrightarrow>
    idem_step h rq wrs p (Some k) (enter k (Running False) w p)"
| found: "fr_phase p k = Arrived \<Longrightarrow> idem_key (rq k) \<noteq> [] \<Longrightarrow>
    IdempotencyStore_Get (rq_Ctx (rq k)) (idem_key (rq k)) (fr_world p) = (Inr (Some (code, body)), w) \<Longrightarrow>
    idem_step h rq wrs p (Some k) (enter k (Replayed code body) w p)"
| not_found: "fr_phase p k = Arrived \<Longrightarrow> idem_key (rq k) \<noteq> [] \<Longrightarrow>
    IdempotencyStore_Get (rq_Ctx (rq k)) (idem_key (rq k)) (fr_world p) = (Inr None, w) \<Longrightarrow>
    idem_step h rq wrs p (Some k) (enter k (Running True) w p)"
| handled: "fr_phase p k = Running g \<Longrightarrow> h (rq k) (wrs k, fr_world p) = (x, (wr, w)) \<Longrightarrow>
    idem_step h rq wrs p (Some k) (enter k (Ran g x wr) w p)"
| stored: "fr_phase p k = Ran True (Inr ()) wr \<Longrightarrow> to_store (wrs k) wr = Some (code, body) \<Longrightarrow>
    w = snd (IdempotencyStore_Set (rq_Ctx (rq k)) (idem_key (rq k)) code body (fr_world p)) \<Longrightarrow>
    idem_step h rq wrs p (Some k) (enter k (Finished True (Inr ()) wr) w p)"
| unstored: "fr_phase p k = Ran g x wr \<Longrightarrow> \<not> g \<or> x \<noteq> Inr () \<or> to_store (wrs k) wr = None \<Longrightarrow>
    idem_step h rq wrs p (Some k) (enter k (Finished g x wr) (fr_world p) p)"
| cleaned: "IdempotencyStore_Cleanup (fr_world p) = (res, w) \<Longrightarrow> idem_step h rq wrs p None (p\<lparr>fr_world := w\<rparr>)"
| beside: "idem_frame (fr_world p) w \<Longrightarrow> idem_step h rq wrs p None (p\<lparr>fr_world := w\<rparr>)"
| later: "idem_step h rq wrs p None (p\<lparr>fr_world := (fr_world p)\<lparr>w_clock := w_clock (fr_world p) + int n\<rparr>\<rparr>)"

inductive idem_reach for h rq wrs p where
  here: "idem_reach h rq wrs p p"
| on: "idem_reach h rq wrs p q \<Longrightarrow> idem_step h rq wrs q k q' \<Longrightarrow> idem_reach h rq wrs p q'"

inductive_cases request_stepE: "idem_step h rq wrs p (Some k) q"
inductive_cases beside_stepE: "idem_step h rq wrs p None q"

lemma enter_sel [simp]: "fr_world (enter k ph w p) = w" "fr_phase (enter k ph w p) = (fr_phase p)(k := ph)"
  by (simp_all add: enter_def)

section \<open>A request alone\<close>

text \<open>What is left of the middleware's run in each phase.\<close>

fun rest :: "World Handler \<Rightarrow> Request \<Rightarrow> Writer \<Rightarrow> rphase \<Rightarrow> World \<Rightarrow> (string + unit) \<times> Writer \<times> World" where
  "rest h r wr0 Arrived w = Idempotency PostgresIdempotencyStore h r (wr0, w)"
| "rest h r wr0 (Running g) w =
     (if g then run_and_store PostgresIdempotencyStore (idem_key r) h r (wr0, w) else h r (wr0, w))"
| "rest h r wr0 (Ran g x wr) w =
     (case to_store wr0 wr of
        Some (code, body) \<Rightarrow>
          if g \<and> x = Inr () then (x, wr, snd (IdempotencyStore_Set (rq_Ctx r) (idem_key r) code body w)) else (x, wr, w)
      | None \<Rightarrow> (x, wr, w))"
| "rest h r wr0 (Replayed code body) w = (Inr (), replay code body wr0, w)"
| "rest h r wr0 (Finished g x wr) w = (x, wr, w)"

definition answered :: "rphase \<Rightarrow> bool" where
  "answered ph \<longleftrightarrow> (case ph of Replayed c b \<Rightarrow> True | Finished g x wr \<Rightarrow> True | _ \<Rightarrow> False)"

lemma run_and_store_rest:
  "h r (wr0, w) = (x, (wr, w')) \<Longrightarrow>
    run_and_store PostgresIdempotencyStore (idem_key r) h r (wr0, w) = rest h r wr0 (Ran True x wr) w'"
  by (cases x) (simp_all add: run_and_store_def to_store_def Let_def)

lemma request_step_rest:
  "idem_step h rq wrs p (Some k) q \<Longrightarrow>
    rest h (rq k) (wrs k) (fr_phase q k) (fr_world q) = rest h (rq k) (wrs k) (fr_phase p k) (fr_world p)"
proof (erule request_stepE)
  fix g x wr w assume "q = enter k (Ran g x wr) w p" "fr_phase p k = Running g" "h (rq k) (wrs k, fr_world p) = (x, wr, w)"
  then show ?thesis by (cases g) (simp_all add: run_and_store_rest, auto split: option.splits)
qed (auto simp: Idempotency_def and_then_def idem_key_def Let_def split: option.splits)

text \<open>Alone, a request ends after at most three steps, and as the middleware ends.\<close>

definition alone :: "World Handler \<Rightarrow> (nat \<Rightarrow> Request) \<Rightarrow> (nat \<Rightarrow> Writer) \<Rightarrow> nat \<Rightarrow> front \<Rightarrow> front \<Rightarrow> bool" where
  "alone h rq wrs k = (\<lambda>p q. idem_step h rq wrs p (Some k) q)\<^sup>*\<^sup>*"

lemma alone_rest:
  "alone h rq wrs k p q \<Longrightarrow>
    rest h (rq k) (wrs k) (fr_phase q k) (fr_world q) = rest h (rq k) (wrs k) (fr_phase p k) (fr_world p)"
  unfolding alone_def by (induction rule: rtranclp_induct) (auto dest: request_step_rest)

fun steps_left :: "rphase \<Rightarrow> nat" where
  "steps_left Arrived = 3"
| "steps_left (Running g) = 2"
| "steps_left (Ran g x wr) = 1"
| "steps_left _ = 0"

lemma request_step_left: "idem_step h rq wrs p (Some k) q \<Longrightarrow> steps_left (fr_phase q k) < steps_left (fr_phase p k)"
  by (erule request_stepE) auto

lemma request_moves: "\<not> answered (fr_phase p k) \<Longrightarrow> \<exists>q. idem_step h rq wrs p (Some k) q"
proof (cases "fr_phase p k")
  case Arrived
  show ?thesis
  proof (cases "idem_key (rq k) = []")
    case True
    show ?thesis by (rule exI, rule no_key [where rq = rq, OF Arrived True])
  next
    case False
    obtain res w where g: "IdempotencyStore_Get (rq_Ctx (rq k)) (idem_key (rq k)) (fr_world p) = (res, w)" by fastforce
    show ?thesis
    proof (cases res)
      case (Inl e)
      show ?thesis by (rule exI, rule lookup_failed [where rq = rq, OF Arrived False g [unfolded Inl]])
    next
      case (Inr cached)
      show ?thesis
      proof (cases cached)
        case None
        show ?thesis by (rule exI, rule not_found [where rq = rq, OF Arrived False g [unfolded Inr None]])
      next
        case (Some cb)
        obtain c b where cb: "cb = (c, b)" by fastforce
        show ?thesis by (rule exI, rule found [where rq = rq, OF Arrived False g [unfolded Inr Some cb]])
      qed
    qed
  qed
next
  case (Running g)
  obtain x wr w where "h (rq k) (wrs k, fr_world p) = (x, (wr, w))" by (metis surj_pair)
  from handled [where h = h and rq = rq and wrs = wrs, OF Running this] show ?thesis by blast
next
  case (Ran g x wr)
  show ?thesis
  proof (cases "\<not> g \<or> x \<noteq> Inr () \<or> to_store (wrs k) wr = None")
    case True
    show ?thesis by (rule exI, rule unstored [where wrs = wrs, OF Ran True])
  next
    case False
    then obtain cb where "g" "x = Inr ()" "to_store (wrs k) wr = Some cb" by blast
    with Ran stored [of p k wr wrs "fst cb" "snd cb", OF _ _ refl] show ?thesis by fastforce
  qed
qed (simp_all add: answered_def)

lemma alone_ends: "\<exists>q. alone h rq wrs k p q \<and> answered (fr_phase q k)"
proof (induction "steps_left (fr_phase p k)" arbitrary: p rule: less_induct)
  case less
  show ?case
  proof (cases "answered (fr_phase p k)")
    case True
    then show ?thesis by (auto simp: alone_def)
  next
    case False
    then obtain q where q: "idem_step h rq wrs p (Some k) q" using request_moves by blast
    from less [OF request_step_left [OF q]] q show ?thesis
      unfolding alone_def by (blast intro: converse_rtranclp_into_rtranclp)
  qed
qed

text \<open>The answer a phase stands for.\<close>

fun answer_of :: "Writer \<Rightarrow> rphase \<Rightarrow> (string + unit) \<times> Writer" where
  "answer_of wr0 (Replayed code body) = (Inr (), replay code body wr0)"
| "answer_of wr0 (Finished g x wr) = (x, wr)"
| "answer_of wr0 _ = (Inr (), wr0)"

lemma alone_is_middleware:
  assumes "fr_phase p k = Arrived" "alone h rq wrs k p q" "answered (fr_phase q k)"
  shows "Idempotency PostgresIdempotencyStore h (rq k) (wrs k, fr_world p)
    = (fst (answer_of (wrs k) (fr_phase q k)), (snd (answer_of (wrs k) (fr_phase q k)), fr_world q))"
  using alone_rest [OF assms(2)] assms(1,3) by (cases "fr_phase q k") (simp_all add: answered_def)

section \<open>A stored response\<close>

text \<open>The row of a tenant's key.\<close>

definition idem_row_of :: "uuid \<Rightarrow> string \<Rightarrow> World \<Rightarrow> idem_row option" where
  "idem_row_of t key w = find (\<lambda>r. ik_pk r = (t, key)) (idempotency_keys (w_db w))"

lemma idem_row_cached:
  assumes "idem_row_of t key w = Some r" "w_clock w < ik_expires r" "TenantIDFromContext ctx = Inr t"
  shows "idem_cached ctx w key = Some (ik_status r, ik_response r)"
proof -
  have "find (\<lambda>r. ik_tenant r = t \<and> ik_key r = key \<and> w_clock w < ik_expires r) rs = Some r"
    if "find (\<lambda>r. ik_pk r = (t, key)) rs = Some r" for rs
    using that assms(2) by (induction rs) (auto simp: ik_pk_def split: if_splits)
  with assms show ?thesis by (simp add: idem_cached_eq idem_row_of_def)
qed

lemma idem_row_vacant:
  "TenantIDFromContext ctx = Inr t \<Longrightarrow> idem_vacant ctx w key \<longleftrightarrow> idem_row_of t key w = None"
  by (auto simp: idem_vacant_def idem_row_of_def find_None_iff_ex ik_pk_def)

lemma Get_frame: "IdempotencyStore_Get ctx k w = (res, w') \<Longrightarrow> idem_frame w w'"
proof -
  assume g: "IdempotencyStore_Get ctx k w = (res, w')"
  have "db_keeps (\<lambda>d. d = w_db w) (IdempotencyStore_Get ctx k)"
    unfolding IdempotencyStore_Get_def by (intro preserves frame) simp
  from keepsD [OF this _ g] db_opD [OF db_op_idem(1) g] show ?thesis by (simp add: idem_frame_def db_only_iff)
qed

lemma idem_row_frame: "idem_frame w w' \<Longrightarrow> idem_row_of t key w' = idem_row_of t key w \<and> w_clock w' = w_clock w"
  by (simp add: idem_frame_def idem_row_of_def)

lemma Set_row:
  assumes "idem_row_of t key w = Some r"
  shows "idem_row_of t key (snd (IdempotencyStore_Set ctx k c b w)) = Some r"
proof -
  have "find (\<lambda>r. ik_pk r = (t, key)) (idempotency_keys d') = Some r"
    if "find (\<lambda>r. ik_pk r = (t, key)) (idempotency_keys d) = Some r" "sql_set_response s u k c b now d = Inr (x, d')" for d d' s u now x
    using that by (auto simp: sql_set_response_def find_append split: if_splits option.splits)
  then have "db_keeps (\<lambda>d. find (\<lambda>r. ik_pk r = (t, key)) (idempotency_keys d) = Some r) (IdempotencyStore_Set ctx k c b)"
    unfolding IdempotencyStore_Set_def by (intro preserves frame) auto
  with assms show ?thesis by (simp add: keeps_def idem_row_of_def)
qed

lemma find_filter_first: "find P xs = Some x \<Longrightarrow> Q x \<Longrightarrow> find P (filter Q xs) = Some x"
  by (induction xs) (auto split: if_splits)

lemma Cleanup_row:
  assumes "idem_row_of t key w = Some r" "w_clock w < ik_expires r"
  shows "idem_row_of t key (snd (IdempotencyStore_Cleanup w)) = Some r"
proof -
  obtain res w' where c: "IdempotencyStore_Cleanup w = (res, w')" by fastforce
  from c [unfolded IdempotencyStore_Cleanup_def] db_op_exec have "idem_row_of t key w' = Some r"
  proof (cases rule: withSystemTx_cases)
    case (committed w2 x w3)
    have "w_clock w2 = w_clock w" using committed by (simp add: db_only_iff)
    with db_exec_InrD [OF committed(3)] committed(1,4)
    have "w_db w' = (w_db w)\<lparr>idempotency_keys := filter (\<lambda>r. \<not> ik_expires r \<le> w_clock w) (idempotency_keys (w_db w))\<rparr>"
      by (simp add: sql_delete_expired_def)
    with assms show ?thesis by (simp add: idem_row_of_def find_filter_first)
  qed (use assms in \<open>simp_all add: idem_row_of_def\<close>)
  with c show ?thesis by simp
qed

definition leaves_store :: "World Handler \<Rightarrow> bool" where
  "leaves_store h \<longleftrightarrow> (\<forall>r wr w x wr' w'. h r (wr, w) = (x, (wr', w')) \<longrightarrow> idem_frame w w')"

lemma upload_leaves_store: "pg_upload X h \<Longrightarrow> leaves_store (MediaHandler_Create X h)"
  using upload_handler_frame by (simp add: leaves_store_def)

lemma Set_clock: "w_clock (snd (IdempotencyStore_Set ctx k c b w)) = w_clock w"
  using db_only_clock [OF db_op_idem(2)] by (metis prod.collapse)

lemma step_clock:
  assumes "leaves_store h" "idem_step h rq wrs p k q"
  shows "w_clock (fr_world p) \<le> w_clock (fr_world q)"
  using assms(2)
proof cases
  case (handled k g x wr w)
  with assms(1) show ?thesis by (fastforce simp: leaves_store_def idem_frame_def)
next
  case (cleaned res w)
  with db_only_clock [OF db_op_idem(3)] show ?thesis by fastforce
qed (auto simp: Set_clock dest!: Get_frame simp: idem_frame_def)

lemma step_row:
  assumes "leaves_store h" "idem_step h rq wrs p k q" "idem_row_of t key (fr_world p) = Some r"
    and "w_clock (fr_world p) < ik_expires r"
  shows "idem_row_of t key (fr_world q) = Some r"
  using assms(2)
proof cases
  case (handled k g x wr w)
  with assms(1,3) idem_row_frame show ?thesis by (fastforce simp: leaves_store_def)
next
  case (cleaned res w)
  with Cleanup_row [OF assms(3,4)] show ?thesis by simp
next
  case later
  then show ?thesis using assms(3) by (simp add: idem_row_of_def)
qed (use assms(3) in \<open>auto simp: Set_row dest!: Get_frame dest: idem_row_frame [of _ _ t key]\<close>)

text \<open>
  What a request with the key can be, when a response of it is stored: waiting for its lookup,
  answered with the stored response, or beyond a lookup that failed.
\<close>

definition served_from :: "idem_row \<Rightarrow> rphase \<Rightarrow> bool" where
  "served_from r ph \<longleftrightarrow> (case ph of
     Arrived \<Rightarrow> True
   | Replayed code body \<Rightarrow> code = ik_status r \<and> body = ik_response r
   | Running g \<Rightarrow> \<not> g
   | Ran g x wr \<Rightarrow> \<not> g
   | Finished g x wr \<Rightarrow> \<not> g)"

lemma step_served:
  assumes "idem_step h rq wrs p k q" "idem_row_of t key (fr_world p) = Some r" "w_clock (fr_world p) < ik_expires r"
    and "TenantIDFromContext (rq_Ctx (rq l)) = Inr t" "idem_key (rq l) = key"
    and "served_from r (fr_phase p l)"
  shows "served_from r (fr_phase q l)"
  using assms(1)
proof cases
  case (found k code body w)
  show ?thesis
  proof (cases "k = l")
    case True
    with found assms(5) have "IdempotencyStore_Get (rq_Ctx (rq l)) key (fr_world p) = (Inr (Some (code, body)), w)" by simp
    from pg_idem.get_Inr [unfolded PostgresIdempotencyStore_sel, OF this] idem_row_cached [OF assms(2-4)]
    show ?thesis using found True by (simp add: served_from_def)
  qed (use found assms(6) in simp)
next
  case (not_found k w)
  show ?thesis
  proof (cases "k = l")
    case True
    with not_found assms(5) have "IdempotencyStore_Get (rq_Ctx (rq l)) key (fr_world p) = (Inr None, w)" by simp
    from pg_idem.get_Inr [unfolded PostgresIdempotencyStore_sel, OF this] idem_row_cached [OF assms(2-4)]
    show ?thesis by simp
  qed (use not_found assms(6) in simp)
qed (use assms(6) in \<open>auto simp: served_from_def\<close>)

lemma stored_response_stays:
  assumes "idem_reach h rq wrs p q" "leaves_store h" "idem_row_of t key (fr_world p) = Some r"
    and "w_clock (fr_world q) < ik_expires r"
    and "TenantIDFromContext (rq_Ctx (rq l)) = Inr t" "idem_key (rq l) = key" "fr_phase p l = Arrived"
  shows "idem_row_of t key (fr_world q) = Some r \<and> served_from r (fr_phase q l)"
  using assms(1,4)
proof (induction rule: idem_reach.induct)
  case here
  with assms(3,7) show ?case by (simp add: served_from_def)
next
  case (on q k q')
  have "w_clock (fr_world q) < ik_expires r" using step_clock [OF assms(2) on(2)] on.prems by simp
  with on step_row [OF assms(2) on(2)] step_served [OF on(2) _ _ assms(5,6)] show ?case by blast
qed

section \<open>Where a replayed response comes from\<close>

text \<open>Some request of the tenant with the key has run the handler and stored this response.\<close>

definition came_from :: "(nat \<Rightarrow> Request) \<Rightarrow> (nat \<Rightarrow> Writer) \<Rightarrow> front \<Rightarrow> uuid \<Rightarrow> string \<Rightarrow> int \<Rightarrow> string \<Rightarrow> bool" where
  "came_from rq wrs p t key code body \<longleftrightarrow> (\<exists>k wr. fr_phase p k = Finished True (Inr ()) wr
     \<and> to_store (wrs k) wr = Some (code, Some body) \<and> TenantIDFromContext (rq_Ctx (rq k)) = Inr t \<and> idem_key (rq k) = key)"

definition sourced :: "(nat \<Rightarrow> Request) \<Rightarrow> (nat \<Rightarrow> Writer) \<Rightarrow> idem_row set \<Rightarrow> front \<Rightarrow> bool" where
  "sourced rq wrs old p \<longleftrightarrow>
     (\<forall>r \<in> set (idempotency_keys (w_db (fr_world p))).
        r \<in> old \<or> came_from rq wrs p (ik_tenant r) (ik_key r) (ik_status r) (ik_response r)) \<and>
     (\<forall>l code body. fr_phase p l = Replayed code body \<longrightarrow> (\<exists>t. TenantIDFromContext (rq_Ctx (rq l)) = Inr t \<and>
        ((\<exists>r \<in> old. ik_tenant r = t \<and> ik_key r = idem_key (rq l) \<and> ik_status r = code \<and> ik_response r = body)
         \<or> came_from rq wrs p t (idem_key (rq l)) code body)))"

lemma step_finished: "idem_step h rq wrs p k q \<Longrightarrow> fr_phase p l = Finished g x wr \<Longrightarrow> fr_phase q l = Finished g x wr"
  by (erule idem_step.cases) auto

lemma step_came_from: "idem_step h rq wrs p k q \<Longrightarrow> came_from rq wrs p t key c b \<Longrightarrow> came_from rq wrs q t key c b"
  unfolding came_from_def using step_finished by metis

lemma Set_rows:
  assumes "r \<in> set (idempotency_keys (w_db (snd (IdempotencyStore_Set ctx k c b w))))"
  shows "r \<in> set (idempotency_keys (w_db w))
    \<or> TenantIDFromContext ctx = Inr (ik_tenant r) \<and> ik_key r = k \<and> ik_status r = c \<and> b = Some (ik_response r)"
proof -
  have "db_keeps (\<lambda>d. \<forall>r \<in> set (idempotency_keys d). r \<in> set (idempotency_keys (w_db w))
      \<or> TenantIDFromContext ctx = Inr (ik_tenant r) \<and> ik_key r = k \<and> ik_status r = c \<and> b = Some (ik_response r))
    (IdempotencyStore_Set ctx k c b)"
    unfolding IdempotencyStore_Set_def
    by (intro preserves frame) (auto simp: sql_set_response_def split: if_splits option.splits)
  from keepsD [OF this _ prod.collapse [symmetric], of w] assms show ?thesis by blast
qed

lemma Cleanup_rows: "set (idempotency_keys (w_db (snd (IdempotencyStore_Cleanup w)))) \<subseteq> set (idempotency_keys (w_db w))"
proof -
  have "db_keeps (\<lambda>d. set (idempotency_keys d) \<subseteq> set (idempotency_keys (w_db w))) IdempotencyStore_Cleanup"
    unfolding IdempotencyStore_Cleanup_def by (intro preserves frame) (auto simp: sql_delete_expired_def)
  then show ?thesis by (simp add: keeps_def)
qed

lemma step_rows:
  assumes "leaves_store h" "idem_step h rq wrs p k q" "r \<in> set (idempotency_keys (w_db (fr_world q)))"
  shows "r \<in> set (idempotency_keys (w_db (fr_world p)))
    \<or> came_from rq wrs q (ik_tenant r) (ik_key r) (ik_status r) (ik_response r)"
  using assms(2)
proof cases
  case (stored k wr code body w)
  with assms(3) Set_rows [of r "rq_Ctx (rq k)" "idem_key (rq k)" code body "fr_world p"]
  show ?thesis unfolding came_from_def by (auto intro!: exI [of _ k])
next
  case (handled k g x wr w)
  with assms(1,3) show ?thesis by (fastforce simp: leaves_store_def idem_frame_def)
next
  case (cleaned res w)
  with assms(3) Cleanup_rows [of "fr_world p"] show ?thesis by auto
qed (use assms(3) in \<open>auto simp: idem_frame_def dest!: Get_frame\<close>)

lemma Get_some:
  assumes "IdempotencyStore_Get ctx k w = (Inr (Some (c, b)), w')"
  obtains r where "r \<in> set (idempotency_keys (w_db w))" "TenantIDFromContext ctx = Inr (ik_tenant r)" "ik_key r = k"
    "ik_status r = c" "ik_response r = b"
proof -
  have c: "idem_cached ctx w k = Some (c, b)"
    using pg_idem.get_Inr [unfolded PostgresIdempotencyStore_sel, OF assms] by simp
  then obtain t where t: "TenantIDFromContext ctx = Inr t"
    by (cases "TenantIDFromContext ctx") (simp_all add: idem_cached_def)
  from c obtain r where r: "find (\<lambda>r. ik_tenant r = t \<and> ik_key r = k \<and> w_clock w < ik_expires r) (idempotency_keys (w_db w)) = Some r"
    "ik_status r = c" "ik_response r = b"
    by (auto simp: idem_cached_eq [OF t])
  from find_Some_in [OF r(1)] r(2,3) t that show thesis by blast
qed

lemma step_sourced:
  assumes "leaves_store h" "idem_step h rq wrs p k q" "sourced rq wrs old p"
  shows "sourced rq wrs old q"
  unfolding sourced_def
proof (intro conjI ballI allI impI)
  fix r assume "r \<in> set (idempotency_keys (w_db (fr_world q)))"
  from step_rows [OF assms(1,2) this] assms(3) step_came_from [OF assms(2)]
  show "r \<in> old \<or> came_from rq wrs q (ik_tenant r) (ik_key r) (ik_status r) (ik_response r)"
    by (auto simp: sourced_def)
next
  fix l code body assume rep: "fr_phase q l = Replayed code body"
  let ?goal = "\<lambda>p. \<exists>t. TenantIDFromContext (rq_Ctx (rq l)) = Inr t \<and>
    ((\<exists>r \<in> old. ik_tenant r = t \<and> ik_key r = idem_key (rq l) \<and> ik_status r = code \<and> ik_response r = body)
     \<or> came_from rq wrs p t (idem_key (rq l)) code body)"
  have "?goal p"
  proof (cases "fr_phase p l = Replayed code body")
    case True
    with assms(3) show ?thesis by (simp add: sourced_def)
  next
    case False
    with assms(2) rep obtain w where
      "IdempotencyStore_Get (rq_Ctx (rq l)) (idem_key (rq l)) (fr_world p) = (Inr (Some (code, body)), w)"
      by (cases rule: idem_step.cases) (auto split: if_splits)
    then show ?thesis by (rule Get_some) (use assms(3) in \<open>auto simp: sourced_def\<close>)
  qed
  then show "?goal q" using step_came_from [OF assms(2)] by blast
qed

lemma reach_sourced:
  assumes "idem_reach h rq wrs p q" "leaves_store h" "\<And>k. fr_phase p k = Arrived"
  shows "sourced rq wrs (set (idempotency_keys (w_db (fr_world p)))) q"
  using assms(1)
proof (induction rule: idem_reach.induct)
  case here
  with assms(3) show ?case by (simp add: sourced_def)
qed (rule step_sourced [OF assms(2)])

section \<open>Before a response is stored\<close>

text \<open>
  Two requests with the same fresh key: both may find nothing and both run the handler, so the
  handler is executed more than once for the key.
\<close>

lemma both_run:
  assumes "no_faults (fr_world p)" "k \<noteq> l" "fr_phase p k = Arrived" "fr_phase p l = Arrived"
    and "TenantIDFromContext (rq_Ctx (rq k)) = Inr t" "TenantIDFromContext (rq_Ctx (rq l)) = Inr t"
    and "idem_key (rq k) = key" "idem_key (rq l) = key" "key \<noteq> []" "idem_row_of t key (fr_world p) = None"
  shows "\<exists>q x wr y wr'. idem_reach h rq wrs p q \<and> fr_phase q k = Ran True x wr \<and> fr_phase q l = Ran True y wr'"
proof -
  have none: "idem_cached ctx w key = None" if "TenantIDFromContext ctx = Inr t" "idem_row_of t key w = None" for ctx w
    using that idem_row_vacant [of ctx t w key] pg_idem.vacant_uncached by blast
  obtain w1 where 1: "IdempotencyStore_Get (rq_Ctx (rq k)) key (fr_world p) = (Inr None, w1)" "w_db w1 = w_db (fr_world p)"
    "db_only (fr_world p) w1"
    using idem_get_no_faults [OF assms(1,5), of key] none [OF assms(5,10)] by auto
  have "idem_row_of t key w1 = None" using 1(2) assms(10) by (simp add: idem_row_of_def)
  then obtain w2 where 2: "IdempotencyStore_Get (rq_Ctx (rq l)) key w1 = (Inr None, w2)"
    using idem_get_no_faults [OF no_faults_db_only [OF 1(3) assms(1)] assms(6), of key] none [OF assms(6)] by auto
  define p1 where "p1 = enter k (Running True) w1 p"
  define p2 where "p2 = enter l (Running True) w2 p1"
  obtain x wr w3 where 3: "h (rq k) (wrs k, w2) = (x, (wr, w3))" by (metis surj_pair)
  define p3 where "p3 = enter k (Ran True x wr) w3 p2"
  obtain y wr' w4 where 4: "h (rq l) (wrs l, w3) = (y, (wr', w4))" by (metis surj_pair)
  define p4 where "p4 = enter l (Ran True y wr') w4 p3"
  have "idem_step h rq wrs p (Some k) p1" unfolding p1_def
    by (rule not_found) (use assms 1 in simp_all)
  moreover have "idem_step h rq wrs p1 (Some l) p2" unfolding p2_def
    by (rule not_found) (use assms 2 in \<open>simp_all add: p1_def\<close>)
  moreover have "idem_step h rq wrs p2 (Some k) p3" unfolding p3_def
    by (rule handled) (use assms 3 in \<open>simp_all add: p1_def p2_def\<close>)
  moreover have "idem_step h rq wrs p3 (Some l) p4" unfolding p4_def
    by (rule handled) (use assms 4 in \<open>simp_all add: p1_def p2_def p3_def\<close>)
  ultimately have "idem_reach h rq wrs p p4" using idem_reach.here idem_reach.on by metis
  then show ?thesis using assms(2) by (intro exI [of _ p4] exI) (simp add: p3_def p4_def)
qed

end
