(* ===== verification/Media_Concurrency.thy ===== *)
theory Media_Concurrency
  imports Media_Files
begin

text \<open>
  Uploads and deletions that run at the same time: \<open>MediaService_Create\<close> and \<open>MediaService_Delete\<close>
  (\<^verbatim>\<open>service/media_service.go\<close>) broken into their calls of the repositories and of the storage,
  between which the other requests get in.  What is shown: run alone, the steps are the operations;
  however they are interleaved, every media row keeps its file.
\<close>

section \<open>Requests and their steps\<close>

text \<open>
  \<open>Naming input name ns ids\<close>: the tag names \<open>ns\<close> are still to be resolved.  \<open>Saved m ids\<close>: the file is
  stored, the row is not.  \<open>Undoing m err\<close>: the insert failed with \<open>err\<close>.  \<open>Removing path\<close>: the row is
  deleted, its file is not.
\<close>

datatype mphase =
    Fresh
  | Naming CreateInput string "string list" "uuid list"
  | Saved Media "uuid list"
  | Undoing Media goerr
  | Removing string
  | Uploaded "goerr + Media"
  | Deleted "goerr + unit"

record 'w site =
  up_world :: 'w
  up_phase :: "nat \<Rightarrow> mphase"

definition move :: "nat \<Rightarrow> mphase \<Rightarrow> 'w \<Rightarrow> 'w site \<Rightarrow> 'w site" where
  "move k ph w p = p\<lparr>up_world := w, up_phase := (up_phase p)(k := ph)\<rparr>"

text \<open>Steps 1 and 2 of \<^verbatim>\<open>Create\<close>.\<close>

definition check_input :: "Ext \<Rightarrow> CreateInput \<Rightarrow> goerr + string" where
  "check_input X input =
     (case SanitizeName (x_nfc X) (ci_Name input) of
        Inl e \<Rightarrow> Inl e
      | Inr name \<Rightarrow> if length (ci_TagIDs input) + length (ci_TagNames input) > maxTagsPerMedia then Inl too_many_tags
                    else Inr name)"

text \<open>\<open>c k\<close>: the context of request \<open>k\<close>; \<open>env\<close>: what the rest of the program does.\<close>

inductive media_step ::
  "Ext \<Rightarrow> 'w MediaService \<Rightarrow> (nat \<Rightarrow> Ctx) \<Rightarrow> ('w \<Rightarrow> 'w \<Rightarrow> bool) \<Rightarrow> 'w site \<Rightarrow> nat option \<Rightarrow> 'w site \<Rightarrow> bool"
  for X s c env where
  refused: "up_phase p k = Fresh \<Longrightarrow> check_input X input = Inl e \<Longrightarrow>
    media_step X s c env p (Some k) (move k (Uploaded (Inl e)) (up_world p) p)"
| begun: "up_phase p k = Fresh \<Longrightarrow> check_input X input = Inr name \<Longrightarrow>
    media_step X s c env p (Some k) (move k (Naming input name (ci_TagNames input) []) (up_world p) p)"
| tag_refused: "up_phase p k = Naming input name (n # ns) ids \<Longrightarrow> SanitizeName (x_nfc X) n = Inl e \<Longrightarrow>
    media_step X s c env p (Some k) (move k (Uploaded (Inl e)) (up_world p) p)"
| tag_failed: "up_phase p k = Naming input name (n # ns) ids \<Longrightarrow> SanitizeName (x_nfc X) n = Inr t \<Longrightarrow>
    tr_CreateOrGet (ms_tagRepo s) (c k) t (up_world p) = (Inl e, w) \<Longrightarrow>
    media_step X s c env p (Some k) (move k (Uploaded (Inl (Errorf (''resolve tag '' @ x_quote X t @ '': '') e ''''))) w p)"
| tag_resolved: "up_phase p k = Naming input name (n # ns) ids \<Longrightarrow> SanitizeName (x_nfc X) n = Inr t \<Longrightarrow>
    tr_CreateOrGet (ms_tagRepo s) (c k) t (up_world p) = (Inr (tag, new), w) \<Longrightarrow>
    media_step X s c env p (Some k) (move k (Naming input name ns (ids @ [tag_ID tag])) w p)"
| type_refused: "up_phase p k = Naming input name [] ids \<Longrightarrow>
    classifyContentType (ci_ContentType input) (ci_FileName input) = Inl e \<Longrightarrow>
    media_step X s c env p (Some k) (move k (Uploaded (Inl e)) (up_world p) p)"
| save_failed: "up_phase p k = Naming input name [] ids \<Longrightarrow>
    classifyContentType (ci_ContentType input) (ci_FileName input) = Inr (ty, ext) \<Longrightarrow>
    fs_Save (ms_storage s) (c k) (ci_File input) ext (up_world p) = (Inl e, w) \<Longrightarrow>
    media_step X s c env p (Some k) (move k (Uploaded (Inl (Errorf ''save file to storage: '' e ''''))) w p)"
| saved: "up_phase p k = Naming input name [] ids \<Longrightarrow>
    classifyContentType (ci_ContentType input) (ci_FileName input) = Inr (ty, ext) \<Longrightarrow>
    fs_Save (ms_storage s) (c k) (ci_File input) ext (up_world p) = (Inr path, w) \<Longrightarrow>
    media_step X s c env p (Some k)
      (move k (Saved (new_media name ty path input) (deduplicateUUIDs (ci_TagIDs input @ ids))) w p)"
| inserted: "up_phase p k = Saved m ids \<Longrightarrow> mr_Create (ms_repo s) (c k) m ids (up_world p) = (Inr m', w) \<Longrightarrow>
    media_step X s c env p (Some k) (move k (Uploaded (Inr m')) w p)"
| insert_failed: "up_phase p k = Saved m ids \<Longrightarrow> mr_Create (ms_repo s) (c k) m ids (up_world p) = (Inl e, w) \<Longrightarrow>
    media_step X s c env p (Some k) (move k (Undoing m e) w p)"
| undone: "up_phase p k = Undoing m e \<Longrightarrow> fs_Delete (ms_storage s) (c k) (media_FilePath m) (up_world p) = (u, w) \<Longrightarrow>
    media_step X s c env p (Some k) (move k (Uploaded (Inl (Errorf ''create media record: '' e ''''))) w p)"
| row_removed: "up_phase p k = Fresh \<Longrightarrow> mr_Delete (ms_repo s) (c k) i (up_world p) = (Inr path, w) \<Longrightarrow>
    media_step X s c env p (Some k) (move k (Removing path) w p)"
| remove_failed: "up_phase p k = Fresh \<Longrightarrow> mr_Delete (ms_repo s) (c k) i (up_world p) = (Inl e, w) \<Longrightarrow>
    media_step X s c env p (Some k) (move k (Deleted (Inl e)) w p)"
| file_removed: "up_phase p k = Removing path \<Longrightarrow> fs_Delete (ms_storage s) (c k) path (up_world p) = (u, w) \<Longrightarrow>
    media_step X s c env p (Some k) (move k (Deleted (Inr ())) w p)"
| beside: "env (up_world p) w \<Longrightarrow> media_step X s c env p None (p\<lparr>up_world := w\<rparr>)"

inductive media_reach for X s c env p where
  here: "media_reach X s c env p p"
| on: "media_reach X s c env p q \<Longrightarrow> media_step X s c env q k q' \<Longrightarrow> media_reach X s c env p q'"

inductive_cases media_stepE: "media_step X s c env p (Some k) q"

lemma move_sel [simp]: "up_world (move k ph w p) = w" "up_phase (move k ph w p) = (up_phase p)(k := ph)"
  by (simp_all add: move_def)

section \<open>A request alone\<close>

text \<open>The outcome an operation has from a phase on, when no other request gets in.\<close>

fun upload_rest :: "Ext \<Rightarrow> 'w MediaService \<Rightarrow> Ctx \<Rightarrow> mphase \<Rightarrow> 'w \<Rightarrow> (goerr + Media) \<times> 'w" where
  "upload_rest X s ctx (Naming input name ns ids) w =
     and_then (resolve_names X (ms_tagRepo s) ctx ns) (\<lambda>rs.
       let tagIDs = deduplicateUUIDs (ci_TagIDs input @ ids @ rs) in
       and_then (of_result (classifyContentType (ci_ContentType input) (ci_FileName input))) (\<lambda>(mediaType, ext).
       and_then (map_err (\<lambda>e. Errorf ''save file to storage: '' e '''') (fs_Save (ms_storage s) ctx (ci_File input) ext))
         (\<lambda>storedPath. insert_or_undo s ctx (new_media name mediaType storedPath input) tagIDs))) w"
| "upload_rest X s ctx (Saved m ids) w = insert_or_undo s ctx m ids w"
| "upload_rest X s ctx (Undoing m e) w =
     (Inl (Errorf ''create media record: '' e ''''), snd (fs_Delete (ms_storage s) ctx (media_FilePath m) w))"
| "upload_rest X s ctx (Uploaded r) w = (r, w)"
| "upload_rest X s ctx _ w = (Inl too_many_tags, w)"

definition uploading :: "mphase \<Rightarrow> bool" where
  "uploading ph \<longleftrightarrow> (case ph of Fresh \<Rightarrow> False | Removing p \<Rightarrow> False | Deleted r \<Rightarrow> False | _ \<Rightarrow> True)"

lemma upload_step_rest:
  "media_step X s c env p (Some k) q \<Longrightarrow> uploading (up_phase p k) \<Longrightarrow>
    uploading (up_phase q k) \<and> upload_rest X s (c k) (up_phase q k) (up_world q) = upload_rest X s (c k) (up_phase p k) (up_world p)"
  by (erule media_stepE)
    (auto simp: uploading_def and_then_def of_result_def map_err_def ret_def insert_or_undo_def handle_def fail_def Let_def
      split: sum.splits prod.splits)

text \<open>A request's own steps.\<close>

definition media_alone :: "Ext \<Rightarrow> 'w MediaService \<Rightarrow> (nat \<Rightarrow> Ctx) \<Rightarrow> nat \<Rightarrow> 'w site \<Rightarrow> 'w site \<Rightarrow> bool" where
  "media_alone X s c k = (\<lambda>p q. media_step X s c (\<lambda>_ _. False) p (Some k) q)\<^sup>*\<^sup>*"

lemma upload_alone_rest:
  "media_alone X s c k p q \<Longrightarrow> uploading (up_phase p k) \<Longrightarrow>
    uploading (up_phase q k) \<and> upload_rest X s (c k) (up_phase q k) (up_world q) = upload_rest X s (c k) (up_phase p k) (up_world p)"
  unfolding media_alone_def by (induction rule: rtranclp_induct) (auto dest: upload_step_rest)

lemma begun_rest:
  "check_input X input = Inr name \<Longrightarrow>
    upload_rest X s ctx (Naming input name (ci_TagNames input) []) w = MediaService_Create X s ctx input w"
  by (simp add: check_input_def MediaService_Create_def and_then_def of_result_def split: sum.splits if_splits)

lemma refused_result: "check_input X input = Inl e \<Longrightarrow> MediaService_Create X s ctx input w = (Inl e, w)"
  by (auto simp: check_input_def MediaService_Create_def and_then_def of_result_def fail_def split: sum.splits if_splits)

text \<open>How many of its own steps a request still has to do.\<close>

fun media_left :: "mphase \<Rightarrow> nat" where
  "media_left (Naming input name ns ids) = length ns + 4"
| "media_left (Saved m ids) = 3"
| "media_left (Undoing m e) = 2"
| "media_left (Removing path) = 2"
| "media_left _ = 0"

lemma upload_moves:
  assumes "uploading (up_phase p k)" "\<nexists>r. up_phase p k = Uploaded r"
  shows "\<exists>q. media_step X s c env p (Some k) q \<and> media_left (up_phase q k) < media_left (up_phase p k)"
proof (cases "up_phase p k")
  case (Naming input name ns ids)
  show ?thesis
  proof (cases ns)
    case Nil
    note ph = Naming [unfolded Nil]
    show ?thesis
    proof (cases "classifyContentType (ci_ContentType input) (ci_FileName input)")
      case (Inl e)
      from type_refused [where env = env and c = c and s = s and X = X, OF ph this] ph show ?thesis by fastforce
    next
      case (Inr te)
      obtain ty ext where te: "te = (ty, ext)" by fastforce
      obtain r w where r: "fs_Save (ms_storage s) (c k) (ci_File input) ext (up_world p) = (r, w)" by fastforce
      note cl = Inr [unfolded te]
      show ?thesis
      proof (cases r)
        case (Inl e)
        from save_failed [where env = env and c = c and X = X, OF ph cl r [unfolded Inl]] ph show ?thesis by fastforce
      next
        case (Inr path)
        from saved [where env = env and c = c and X = X, OF ph cl r [unfolded Inr]] ph show ?thesis by fastforce
      qed
    qed
  next
    case (Cons n ns')
    note ph = Naming [unfolded Cons]
    show ?thesis
    proof (cases "SanitizeName (x_nfc X) n")
      case (Inl e)
      from tag_refused [where env = env and c = c and s = s, OF ph this] ph show ?thesis by fastforce
    next
      case (Inr t)
      obtain r w where r: "tr_CreateOrGet (ms_tagRepo s) (c k) t (up_world p) = (r, w)" by fastforce
      note t = Inr
      show ?thesis
      proof (cases r)
        case (Inl e)
        from tag_failed [where env = env and c = c, OF ph t r [unfolded Inl]] ph show ?thesis by fastforce
      next
        case (Inr tb)
        obtain tag b where "tb = (tag, b)" by fastforce
        from tag_resolved [where env = env and c = c, OF ph t r [unfolded Inr this]] ph show ?thesis by fastforce
      qed
    qed
  qed
next
  case (Saved m ids)
  obtain r w where r: "mr_Create (ms_repo s) (c k) m ids (up_world p) = (r, w)" by fastforce
  show ?thesis
  proof (cases r)
    case (Inl e)
    from insert_failed [where env = env and c = c and X = X, OF Saved r [unfolded Inl]] Saved show ?thesis by fastforce
  next
    case (Inr m')
    from inserted [where env = env and c = c and X = X, OF Saved r [unfolded Inr]] Saved show ?thesis by fastforce
  qed
next
  case (Undoing m e)
  obtain u w where u: "fs_Delete (ms_storage s) (c k) (media_FilePath m) (up_world p) = (u, w)" by fastforce
  from undone [where env = env and c = c and X = X, OF Undoing u] Undoing show ?thesis by fastforce
qed (use assms in \<open>auto simp: uploading_def\<close>)

lemma upload_ends:
  "uploading (up_phase p k) \<Longrightarrow> \<exists>q r. media_alone X s c k p q \<and> up_phase q k = Uploaded r"
proof (induction "media_left (up_phase p k)" arbitrary: p rule: less_induct)
  case less
  show ?case
  proof (cases "\<exists>r. up_phase p k = Uploaded r")
    case True
    then show ?thesis by (auto simp: media_alone_def)
  next
    case False
    with upload_moves [OF less.prems] obtain q where
      q: "media_step X s c (\<lambda>_ _. False) p (Some k) q" "media_left (up_phase q k) < media_left (up_phase p k)" by blast
    from less.hyps [OF q(2)] upload_step_rest [OF q(1) less.prems] q(1) show ?thesis
      unfolding media_alone_def by (meson converse_rtranclp_into_rtranclp)
  qed
qed

text \<open>The steps of an upload that nobody interrupts are \<open>MediaService_Create\<close>.\<close>

lemma upload_alone:
  assumes "up_phase p k = Fresh"
  shows "\<exists>q. media_alone X s c k p q \<and> up_phase q k = Uploaded (fst (MediaService_Create X s (c k) input (up_world p)))
    \<and> up_world q = snd (MediaService_Create X s (c k) input (up_world p))"
proof (cases "check_input X input")
  case (Inl e)
  from refused [where env = "\<lambda>_ _. False" and c = c and s = s, OF assms Inl] refused_result [OF Inl, of s "c k" "up_world p"] show ?thesis
    unfolding media_alone_def by (intro exI [of _ "move k (Uploaded (Inl e)) (up_world p) p"]) (auto intro: r_into_rtranclp)
next
  case (Inr name)
  let ?p = "move k (Naming input name (ci_TagNames input) []) (up_world p) p"
  have b: "media_step X s c (\<lambda>_ _. False) p (Some k) ?p" by (rule begun [OF assms Inr])
  have u: "uploading (up_phase ?p k)" by (simp add: uploading_def)
  obtain q r where q: "media_alone X s c k ?p q" "up_phase q k = Uploaded r" using upload_ends [OF u] by blast
  from upload_alone_rest [OF q(1) u] q(2) begun_rest [OF Inr, of s "c k" "up_world p"]
  have "MediaService_Create X s (c k) input (up_world p) = (r, up_world q)" by simp
  moreover have "media_alone X s c k p q" using b q(1) unfolding media_alone_def by (rule converse_rtranclp_into_rtranclp)
  ultimately show ?thesis using q(2) by auto
qed

text \<open>The same for a deletion.\<close>

lemma remove_alone:
  assumes "up_phase p k = Fresh"
  shows "\<exists>q. media_alone X s c k p q \<and> up_phase q k = Deleted (fst (MediaService_Delete s (c k) i (up_world p)))
    \<and> up_world q = snd (MediaService_Delete s (c k) i (up_world p))"
proof -
  obtain r w where r: "mr_Delete (ms_repo s) (c k) i (up_world p) = (r, w)" by fastforce
  show ?thesis
  proof (cases r)
    case (Inl e)
    have "MediaService_Delete s (c k) i (up_world p) = (Inl e, w)" using r Inl by (simp add: MediaService_Delete_def and_then_def)
    with remove_failed [where env = "\<lambda>_ _. False" and c = c and X = X, OF assms r [unfolded Inl]] show ?thesis
      unfolding media_alone_def by (intro exI [of _ "move k (Deleted (Inl e)) w p"]) (auto intro: r_into_rtranclp)
  next
    case (Inr path)
    let ?p = "move k (Removing path) w p"
    obtain u w2 where u: "fs_Delete (ms_storage s) (c k) path w = (u, w2)" by fastforce
    have "MediaService_Delete s (c k) i (up_world p) = (Inr (), w2)"
      using r Inr u by (cases u) (simp_all add: MediaService_Delete_def and_then_def handle_def ret_def)
    moreover have "media_step X s c (\<lambda>_ _. False) p (Some k) ?p" by (rule row_removed [where c = c, OF assms r [unfolded Inr]])
    moreover have "media_step X s c (\<lambda>_ _. False) ?p (Some k) (move k (Deleted (Inr ())) w2 ?p)"
      by (rule file_removed) (use u in simp_all)
    ultimately show ?thesis unfolding media_alone_def
      by (intro exI [of _ "move k (Deleted (Inr ())) w2 ?p"]) (auto intro: converse_rtranclp_into_rtranclp)
  qed
qed

text \<open>And nothing else comes of the steps: a request that ended alone was one of the two operations.\<close>

fun removal_rest :: "'w MediaService \<Rightarrow> Ctx \<Rightarrow> mphase \<Rightarrow> 'w \<Rightarrow> (goerr + unit) \<times> 'w" where
  "removal_rest s ctx (Removing path) w = (Inr (), snd (fs_Delete (ms_storage s) ctx path w))"
| "removal_rest s ctx (Deleted r) w = (r, w)"
| "removal_rest s ctx _ w = (Inr (), w)"

definition deleting :: "mphase \<Rightarrow> bool" where
  "deleting ph \<longleftrightarrow> (case ph of Removing p \<Rightarrow> True | Deleted r \<Rightarrow> True | _ \<Rightarrow> False)"

lemma removal_alone_rest:
  "media_alone X s c k p q \<Longrightarrow> deleting (up_phase p k) \<Longrightarrow>
    deleting (up_phase q k) \<and> removal_rest s (c k) (up_phase q k) (up_world q) = removal_rest s (c k) (up_phase p k) (up_world p)"
  unfolding media_alone_def
  by (induction rule: rtranclp_induct) (auto simp: deleting_def elim!: media_stepE split: mphase.splits)

lemma first_step:
  "media_step X s c env p (Some k) q \<Longrightarrow> up_phase p k = Fresh \<Longrightarrow>
    (\<exists>input. uploading (up_phase q k) \<and>
       upload_rest X s (c k) (up_phase q k) (up_world q) = MediaService_Create X s (c k) input (up_world p)) \<or>
    (\<exists>i. deleting (up_phase q k) \<and>
       removal_rest s (c k) (up_phase q k) (up_world q) = MediaService_Delete s (c k) i (up_world p))"
proof (erule media_stepE)
  fix input e assume "q = move k (Uploaded (Inl e)) (up_world p) p" "check_input X input = Inl e"
  then show ?thesis by (intro disjI1 exI [of _ input]) (simp add: uploading_def refused_result)
next
  fix input name assume "q = move k (Naming input name (ci_TagNames input) []) (up_world p) p" "check_input X input = Inr name"
  then show ?thesis by (intro disjI1 exI [of _ input]) (simp add: uploading_def begun_rest del: upload_rest.simps)
next
  fix i path w assume "q = move k (Removing path) w p" "mr_Delete (ms_repo s) (c k) i (up_world p) = (Inr path, w)"
  moreover from this have "MediaService_Delete s (c k) i (up_world p) = removal_rest s (c k) (Removing path) w"
    by (auto simp: MediaService_Delete_def and_then_def handle_def ret_def split: sum.splits prod.splits)
  ultimately show ?thesis by (intro disjI2 exI [of _ i]) (simp add: deleting_def del: removal_rest.simps)
next
  fix i e w assume "q = move k (Deleted (Inl e)) w p" "mr_Delete (ms_repo s) (c k) i (up_world p) = (Inl e, w)"
  moreover from this have "MediaService_Delete s (c k) i (up_world p) = (Inl e, w)"
    by (simp add: MediaService_Delete_def and_then_def)
  ultimately show ?thesis by (intro disjI2 exI [of _ i]) (simp add: deleting_def)
qed simp_all

lemma alone_is_operation:
  assumes run: "media_alone X s c k p q" and fresh: "up_phase p k = Fresh"
  shows "up_phase q k = Uploaded r \<Longrightarrow> \<exists>input. MediaService_Create X s (c k) input (up_world p) = (r, up_world q)"
    and "up_phase q k = Deleted d \<Longrightarrow> \<exists>i. MediaService_Delete s (c k) i (up_world p) = (d, up_world q)"
proof -
  have "up_phase q k = Fresh \<or> (\<exists>q'. media_step X s c (\<lambda>_ _. False) p (Some k) q' \<and> media_alone X s c k q' q)"
    using run fresh unfolding media_alone_def by (metis converse_rtranclpE)
  then consider "up_phase q k = Fresh"
    | q' input where "media_alone X s c k q' q" "uploading (up_phase q' k)"
      "upload_rest X s (c k) (up_phase q' k) (up_world q') = MediaService_Create X s (c k) input (up_world p)"
    | q' i where "media_alone X s c k q' q" "deleting (up_phase q' k)"
      "removal_rest s (c k) (up_phase q' k) (up_world q') = MediaService_Delete s (c k) i (up_world p)"
    using first_step [OF _ fresh] by metis
  then have "(\<forall>r. up_phase q k = Uploaded r \<longrightarrow> (\<exists>input. MediaService_Create X s (c k) input (up_world p) = (r, up_world q)))
    \<and> (\<forall>d. up_phase q k = Deleted d \<longrightarrow> (\<exists>i. MediaService_Delete s (c k) i (up_world p) = (d, up_world q)))"
  proof cases
    case 2
    from upload_alone_rest [OF 2(1,2)] 2(3) show ?thesis by (auto simp: uploading_def)
  next
    case 3
    from removal_alone_rest [OF 3(1,2)] 3(3) show ?thesis by (auto simp: deleting_def)
  qed simp
  then show "up_phase q k = Uploaded r \<Longrightarrow> \<exists>input. MediaService_Create X s (c k) input (up_world p) = (r, up_world q)"
    and "up_phase q k = Deleted d \<Longrightarrow> \<exists>i. MediaService_Delete s (c k) i (up_world p) = (d, up_world q)" by blast+
qed

lemma own_step: "media_step X s c env p j q \<Longrightarrow> j \<noteq> None \<Longrightarrow> media_step X s c env' p j q"
  by (induction rule: media_step.induct) ((rule media_step.intros; assumption)+, simp)

lemma media_alone_reach: "media_alone X s c k p q \<Longrightarrow> media_reach X s c env p q"
  unfolding media_alone_def
proof (induction rule: rtranclp_induct)
  case (step q q')
  have "media_step X s c env q (Some k) q'"
    using step(2) by (rule own_step) simp
  with step(3) show ?case by (rule media_reach.on)
qed (rule media_reach.here)

section \<open>Rows and files\<close>

text \<open>
  The contract of \<open>upload_service\<close> for every context, and what the calls leave alone.  The path a
  request holds: its file is stored, and no row has it.
\<close>

locale concurrent_uploads =
  fixes repo :: "'w MediaRepository" and tags :: "'w TagRepository" and st :: "'w FileStorage"
    and inv finv :: "'w \<Rightarrow> bool" and get :: "Ctx \<Rightarrow> 'w \<Rightarrow> uuid \<rightharpoonup> Media" and lost :: "'w \<Rightarrow> bool"
    and ext_ok path_ok :: "string \<Rightarrow> bool" and files :: "'w \<Rightarrow> string \<rightharpoonup> string" and plenty :: "'w \<Rightarrow> bool"
    and stored :: "'w \<Rightarrow> uuid \<rightharpoonup> string" and works :: "'w \<Rightarrow> bool" and env :: "'w \<Rightarrow> 'w \<Rightarrow> bool"
  assumes svc: "upload_service repo ctx inv (get ctx) lost st finv ext_ok path_ok files plenty tags stored works"
    and lost_same: "mr_Create repo ctx m ids w = (z, w') \<Longrightarrow> lost w' = lost w" "mr_Delete repo ctx i w = (q, w') \<Longrightarrow> lost w' = lost w"
      "fs_Delete st ctx p w = (u, w') \<Longrightarrow> lost w' = lost w"
    and plenty_back: "tr_CreateOrGet tags ctx n w = (r, w') \<Longrightarrow> plenty w' \<Longrightarrow> plenty w"
      "mr_Delete repo ctx i w = (q, w') \<Longrightarrow> plenty w' \<Longrightarrow> plenty w" "fs_Save st ctx f e w = (v, w') \<Longrightarrow> plenty w' \<Longrightarrow> plenty w"
      "env w w' \<Longrightarrow> plenty w' \<Longrightarrow> plenty w"
    and env_frame: "env w w' \<Longrightarrow> inv w \<Longrightarrow> finv w \<Longrightarrow>
      inv w' \<and> finv w' \<and> stored w' = stored w \<and> files w' = files w \<and> lost w' = lost w"

sublocale concurrent_uploads \<subseteq> each: upload_service repo ctx inv "get ctx" lost st finv ext_ok path_ok files plenty tags stored works
  for ctx
  by (rule svc)

fun held_path :: "mphase \<Rightarrow> string option" where
  "held_path (Saved m ids) = Some (media_FilePath m)"
| "held_path (Undoing m e) = Some (media_FilePath m)"
| "held_path (Removing path) = Some path"
| "held_path _ = None"

context concurrent_uploads begin

definition rows_ok :: "'w \<Rightarrow> bool" where
  "rows_ok w \<longleftrightarrow> inv w \<and> finv w \<and> \<not> lost w \<and> inj_on (stored w) (dom (stored w))
     \<and> (\<forall>i p. stored w i = Some p \<longrightarrow> path_ok p \<and> files w p \<noteq> None)"

definition held_ok :: "(nat \<Rightarrow> mphase) \<Rightarrow> 'w \<Rightarrow> bool" where
  "held_ok ph w \<longleftrightarrow>
     (\<forall>k p. held_path (ph k) = Some p \<longrightarrow> path_ok p \<and> files w p \<noteq> None \<and> p \<notin> ran (stored w))
     \<and> (\<forall>k l p. held_path (ph k) = Some p \<and> held_path (ph l) = Some p \<longrightarrow> k = l)"

definition site_ok :: "'w site \<Rightarrow> bool" where
  "site_ok p \<longleftrightarrow> rows_ok (up_world p) \<and> held_ok (up_phase p) (up_world p)"

text \<open>Calls that leave rows and files alone.\<close>

lemma site_ok_frame:
  assumes "site_ok p" "stored w = stored (up_world p)" "\<And>q. files (up_world p) q \<noteq> None \<Longrightarrow> files w q \<noteq> None"
    and "inv w" "finv w" "\<not> lost w" "held_path ph = None \<or> held_path ph = held_path (up_phase p k)"
  shows "site_ok (move k ph w p)"
proof -
  have r: "rows_ok w" using assms(1-6) unfolding site_ok_def rows_ok_def by (auto; metis option.distinct(1) option.exhaust)
  have "held_path (((up_phase p)(k := ph)) l) = Some q \<Longrightarrow> held_path (up_phase p l) = Some q" for l q
    using assms(7) by (auto split: if_splits)
  with assms(1-3) have "held_ok ((up_phase p)(k := ph)) w"
    unfolding site_ok_def held_ok_def by metis
  with r show ?thesis by (simp add: site_ok_def)
qed

lemma site_ok_same:
  "site_ok p \<Longrightarrow> held_path ph = None \<or> held_path ph = held_path (up_phase p k) \<Longrightarrow> site_ok (move k ph (up_world p) p)"
  by (rule site_ok_frame) (auto simp: site_ok_def rows_ok_def)

text \<open>The file of a path that is held goes away.\<close>

lemma site_ok_remove:
  assumes ok: "site_ok p" and held: "held_path (up_phase p k) = Some q" and new: "held_path ph = None"
    and run: "fs_Delete st ctx q (up_world p) = (u, w)"
  shows "site_ok (move k ph w p)"
proof -
  let ?w = "up_world p"
  have w: "inv ?w" "finv ?w" "\<not> lost ?w" using ok by (simp_all add: site_ok_def rows_ok_def)
  have q: "path_ok q" "q \<notin> ran (stored ?w)" using ok held unfolding site_ok_def held_ok_def by blast+
  note f = each.remove_sub [OF w(2) q(1) run] each.remove_frame [OF run] lost_same(3) [OF run]
  have keep: "files w x \<noteq> None" if "files ?w x \<noteq> None" "x \<noteq> q" for x using f that by auto
  have "rows_ok w"
    using ok f w q keep unfolding site_ok_def rows_ok_def ran_def by (auto; metis option.distinct(1) option.exhaust)
  moreover have "held_ok ((up_phase p)(k := ph)) w"
  proof -
    have "held_path (up_phase p l) = Some x \<and> x \<noteq> q" if "held_path (((up_phase p)(k := ph)) l) = Some x" for l x
      using that new held ok unfolding site_ok_def held_ok_def by (auto split: if_splits)
    with ok f keep show ?thesis unfolding site_ok_def held_ok_def by (metis (no_types, lifting))
  qed
  ultimately show ?thesis by (simp add: site_ok_def)
qed

lemma site_ok_saved:
  assumes ok: "site_ok p" and none: "held_path (up_phase p k) = None" and e: "ext_ok ext"
    and run: "fs_Save st ctx c ext (up_world p) = (Inr path, w)" "plenty w" and ph: "held_path ph = Some path"
  shows "site_ok (move k ph w p)"
proof -
  let ?w = "up_world p"
  have w: "inv ?w" "finv ?w" "\<not> lost ?w" using ok by (simp_all add: site_ok_def rows_ok_def)
  note f = each.fs.save_Inr [OF w(2) e run(1,2)] each.save_frame [OF run(1)] each.fs.save_keeps [OF e, THEN keepsD, OF w(2) run(1)]
  have free: "path \<notin> ran (stored ?w)" using ok f(1) unfolding site_ok_def rows_ok_def ran_def by blast
  have mine: "held_path (up_phase p l) \<noteq> Some path" for l using ok f(1) unfolding site_ok_def held_ok_def by blast
  have "rows_ok w" using ok f w unfolding site_ok_def rows_ok_def by auto
  moreover have "held_ok ((up_phase p)(k := ph)) w"
    using ok f mine free ph unfolding site_ok_def held_ok_def by (auto split: if_splits)
  ultimately show ?thesis by (simp add: site_ok_def)
qed

lemma site_ok_inserted:
  assumes ok: "site_ok p" and held: "held_path (up_phase p k) = Some (media_FilePath m)" and new: "held_path ph = None"
    and run: "mr_Create repo ctx m ids (up_world p) = (Inr m', w)"
  shows "site_ok (move k ph w p)"
proof -
  let ?w = "up_world p"
  have w: "inv ?w" "finv ?w" "\<not> lost ?w" using ok by (simp_all add: site_ok_def rows_ok_def)
  note f = each.create_stored [OF w(1) run] each.repo_keeps [OF run] each.rows.create_keeps [THEN keepsD, OF w(1) run]
    lost_same(1) [OF run]
  have q: "path_ok (media_FilePath m)" "files ?w (media_FilePath m) \<noteq> None" "media_FilePath m \<notin> ran (stored ?w)"
    using ok held unfolding site_ok_def held_ok_def by blast+
  have "inj_on (stored w) (dom (stored w))"
    using ok f q(3) by (auto simp: site_ok_def rows_ok_def inj_on_def ran_def)
  then have "rows_ok w" using ok f w q unfolding site_ok_def rows_ok_def by auto
  moreover have "held_ok ((up_phase p)(k := ph)) w"
  proof -
    have "held_path (up_phase p l) = Some x \<and> x \<noteq> media_FilePath m"
      if "held_path (((up_phase p)(k := ph)) l) = Some x" for l x
      using that new held ok unfolding site_ok_def held_ok_def by (auto split: if_splits)
    moreover have "ran (stored w) = insert (media_FilePath m) (ran (stored ?w))" using f by (simp add: ran_map_upd)
    ultimately show ?thesis using ok f unfolding site_ok_def held_ok_def by (metis insert_iff)
  qed
  ultimately show ?thesis by (simp add: site_ok_def)
qed

lemma site_ok_row_removed:
  assumes ok: "site_ok p" and none: "held_path (up_phase p k) = None" and ph: "held_path ph = Some path"
    and run: "mr_Delete repo ctx i (up_world p) = (Inr path, w)"
  shows "site_ok (move k ph w p)"
proof -
  let ?w = "up_world p"
  have w: "inv ?w" "finv ?w" "\<not> lost ?w" using ok by (simp_all add: site_ok_def rows_ok_def)
  note f = each.delete_stored [OF w(1) run] each.repo_delete_keeps [OF run] each.rows.delete_keeps [THEN keepsD, OF w(1) run]
    lost_same(2) [OF run]
  have inj: "inj_on (stored w) (dom (stored w))" using ok f by (auto simp: site_ok_def rows_ok_def inj_on_def dom_def)
  then have "rows_ok w" using ok f w unfolding site_ok_def rows_ok_def by (auto split: if_splits)
  moreover have free: "path \<notin> ran (stored w)"
    using ok f by (auto simp: site_ok_def rows_ok_def inj_on_def dom_def ran_def)
  moreover have "held_ok ((up_phase p)(k := ph)) w"
  proof -
    have q: "path_ok path" "files ?w path \<noteq> None" "path \<in> ran (stored ?w)"
      using ok f unfolding site_ok_def rows_ok_def ran_def by blast+
    then have mine: "held_path (up_phase p l) \<noteq> Some path" for l using ok unfolding site_ok_def held_ok_def by blast
    have "ran (stored w) \<subseteq> ran (stored ?w)" using f by (auto simp: ran_def)
    with ok f q free mine ph show ?thesis unfolding site_ok_def held_ok_def by (auto split: if_splits)
  qed
  ultimately show ?thesis by (simp add: site_ok_def)
qed

end

context concurrent_uploads begin

lemma site_ok_world: "site_ok p \<Longrightarrow> inv (up_world p) \<and> finv (up_world p) \<and> \<not> lost (up_world p)"
  by (simp add: site_ok_def rows_ok_def)

lemma kind_ext: "classifyContentType ty name = Inr (mt, ext) \<Longrightarrow> ext_ok ext"
  using classify_Inr each.exts by blast

lemma site_ok_step:
  assumes s: "ms_repo s = repo" "ms_tagRepo s = tags" "ms_storage s = st"
    and step: "media_step X s c env p k q" and ok: "site_ok p" and left: "plenty (up_world q)"
  shows "site_ok q"
proof -
  note w = site_ok_world [OF ok]
  show ?thesis using step
  proof cases
    case (tag_failed k input name n ns ids t e w')
    with each.tags_keep [of "c k" t "up_world p" "Inl e" w'] s w show ?thesis
      by (auto intro!: site_ok_frame [OF ok])
  next
    case (tag_resolved k input name n ns ids t tag new w')
    with each.tags_keep [of "c k" t "up_world p" "Inr (tag, new)" w'] s w show ?thesis
      by (auto intro!: site_ok_frame [OF ok])
  next
    case (save_failed k input name ids ty ext e w')
    then have r: "fs_Save st (c k) (ci_File input) ext (up_world p) = (Inl e, w')" "plenty w'" using s left by simp_all
    have "files (up_world p) x \<noteq> None \<Longrightarrow> files w' x \<noteq> None" for x
      using each.fs.save_keeps_others [OF _ kind_ext [OF save_failed(4)] r] w by blast
    with each.save_frame [OF r(1)] each.fs.save_keeps [OF kind_ext [OF save_failed(4)], THEN keepsD, OF _ r(1)] save_failed w
    show ?thesis by (auto intro!: site_ok_frame [OF ok])
  next
    case (saved k input name ids ty ext path w')
    with s left show ?thesis
      by (auto intro!: site_ok_saved [OF ok _ kind_ext] simp: new_media_def)
  next
    case (inserted k m ids m' w')
    with s show ?thesis by (auto intro!: site_ok_inserted [OF ok])
  next
    case (insert_failed k m ids e w')
    then have r: "mr_Create repo (c k) m ids (up_world p) = (Inl e, w')" using s by simp
    with each.create_failed [OF r] each.repo_keeps [OF r] each.rows.create_keeps [THEN keepsD, OF _ r] lost_same(1) [OF r] w insert_failed
    show ?thesis by (auto intro!: site_ok_frame [OF ok])
  next
    case (undone k m e u w')
    with s show ?thesis by (auto intro!: site_ok_remove [OF ok])
  next
    case (row_removed k i path w')
    with s show ?thesis by (auto intro!: site_ok_row_removed [OF ok])
  next
    case (remove_failed k i e w')
    then have r: "mr_Delete repo (c k) i (up_world p) = (Inl e, w')" using s by simp
    with each.delete_failed [OF r] each.repo_delete_keeps [OF r] each.rows.delete_keeps [THEN keepsD, OF _ r] lost_same(2) [OF r] w remove_failed
    show ?thesis by (auto intro!: site_ok_frame [OF ok])
  next
    case (file_removed k path u w')
    with s show ?thesis by (auto intro!: site_ok_remove [OF ok])
  next
    case (beside w')
    with env_frame [OF beside(3)] ok w show ?thesis by (simp add: site_ok_def rows_ok_def held_ok_def)
  qed (auto intro!: site_ok_same [OF ok])
qed

lemma plenty_step:
  assumes s: "ms_repo s = repo" "ms_tagRepo s = tags" "ms_storage s = st"
    and step: "media_step X s c env p k q" and left: "plenty (up_world q)"
  shows "plenty (up_world p)"
  using step
proof cases
  case (inserted k m ids m' w')
  with each.repo_keeps left s show ?thesis by fastforce
next
  case (insert_failed k m ids e w')
  with each.repo_keeps left s show ?thesis by fastforce
qed (use left s plenty_back each.fs.delete_supply in auto)

lemma site_ok_reach:
  assumes s: "ms_repo s = repo" "ms_tagRepo s = tags" "ms_storage s = st"
    and run: "media_reach X s c env p q" and ok: "site_ok p" and left: "plenty (up_world q)"
  shows "site_ok q"
  using run left
proof (induction rule: media_reach.induct)
  case (on q k q')
  from site_ok_step [OF s on(2) on.IH [OF plenty_step [OF s on(2) on.prems]] on.prems] show ?case .
qed (rule ok)

end

section \<open>On the two storages\<close>

text \<open>The rest of the program: time passes, and the tables may change but for the media rows.\<close>

definition tables_beside :: "World \<Rightarrow> World \<Rightarrow> bool" where
  "tables_beside w w' \<longleftrightarrow> (\<exists>n. db_only (w\<lparr>w_clock := w_clock w + int n\<rparr>) w') \<and> db_inv (w_db w')
     \<and> media (w_db w') = media (w_db w)"

lemma tables_besideD:
  assumes "tables_beside w w'"
  shows "db_inv (w_db w')" "stored_paths w' = stored_paths w" "w_disk w' = w_disk w" "w_objects w' = w_objects w"
    "w_uuids w' = w_uuids w" "w_faults w' = w_faults w" "w_drawn w \<le> w_drawn w'"
  using assms stored_paths_cong [of w' w] by (auto simp: tables_beside_def db_only_iff)

lemma repo_lost:
  "MediaRepo_Create X ctx m ids w = (z, w') \<Longrightarrow> lost_ack w' = lost_ack w"
  "MediaRepo_Delete ctx i w = (q, w') \<Longrightarrow> lost_ack w' = lost_ack w"
  using db_opD [OF db_op_MediaRepo(1)] db_opD [OF db_op_MediaRepo(4)] by (fastforce simp: lost_ack_def db_only_iff)+

lemma repo_supply:
  "TagRepo_CreateOrGet ctx n w = (r, w') \<Longrightarrow> in_supply N w' \<Longrightarrow> in_supply N w"
  "MediaRepo_Delete ctx i w = (q, w') \<Longrightarrow> in_supply N w' \<Longrightarrow> in_supply N w"
  using db_opD [OF db_op_TagRepo(1)] db_opD [OF db_op_MediaRepo(4)] in_supply_db_only by blast+

lemma files_lost: "files_op f \<Longrightarrow> f w = (r, w') \<Longrightarrow> lost_ack w' = lost_ack w"
  using files_opD by (fastforce simp: lost_ack_def)

lemma files_supply: "files_op f \<Longrightarrow> f w = (r, w') \<Longrightarrow> in_supply N w' \<Longrightarrow> in_supply N w"
  using files_opD by (fastforce simp: in_supply_def)

interpretation local_conc: concurrent_uploads "PostgresMediaRepo X" "PostgresTagRepo X" "LocalFileStorage X s"
  "\<lambda>w. db_inv (w_db w)" "local_ready N X s" "ctx_media X" lost_ack plain_ext rel_path "local_files s" "in_supply N"
  stored_paths no_faults tables_beside for X s N
proof (rule concurrent_uploads.intro, unfold PostgresMediaRepo_sel PostgresTagRepo_sel LocalFileStorage_sel)
  fix ctx
  show "upload_service (PostgresMediaRepo X) ctx (\<lambda>w. db_inv (w_db w)) (ctx_media X ctx) lost_ack (LocalFileStorage X s)
      (local_ready N X s) plain_ext rel_path (local_files s) (in_supply N) (PostgresTagRepo X) stored_paths no_faults"
    by unfold_locales
next
  fix w w' assume "tables_beside w w'" "local_ready N X s w"
  moreover from this have "local_files s w' = local_files s w" by (simp add: local_files_def tables_besideD(3) fun_eq_iff)
  ultimately show "db_inv (w_db w') \<and> local_ready N X s w' \<and> stored_paths w' = stored_paths w
      \<and> local_files s w' = local_files s w \<and> lost_ack w' = lost_ack w"
    using tables_besideD [of w w'] by (auto simp: local_ready_def local_inv_def fresh_ids_def lost_ack_def)
qed (erule repo_lost repo_supply files_lost [OF files_op_local(2)] files_supply [OF files_op_local(1)] | assumption | (drule tables_besideD(7), simp add: in_supply_def))+

interpretation s3_conc: concurrent_uploads "PostgresMediaRepo X" "PostgresTagRepo X" "S3FileStorage X ps s"
  "\<lambda>w. db_inv (w_db w)" "s3_ready N X s" "ctx_media X" lost_ack "\<lambda>_. True" "\<lambda>_. True" w_objects "in_supply N"
  stored_paths no_faults tables_beside for X ps s N
proof (rule concurrent_uploads.intro, unfold PostgresMediaRepo_sel PostgresTagRepo_sel S3FileStorage_sel)
  fix ctx
  show "upload_service (PostgresMediaRepo X) ctx (\<lambda>w. db_inv (w_db w)) (ctx_media X ctx) lost_ack (S3FileStorage X ps s)
      (s3_ready N X s) (\<lambda>_. True) (\<lambda>_. True) w_objects (in_supply N) (PostgresTagRepo X) stored_paths no_faults"
    by unfold_locales
next
  fix w w' assume "tables_beside w w'" "s3_ready N X s w"
  with tables_besideD [OF this(1)] show "db_inv (w_db w') \<and> s3_ready N X s w' \<and> stored_paths w' = stored_paths w
      \<and> w_objects w' = w_objects w \<and> lost_ack w' = lost_ack w"
    by (auto simp: s3_ready_def fresh_ids_def lost_ack_def)
qed (erule repo_lost repo_supply files_lost [OF files_op_s3(2)] files_supply [OF files_op_s3(1)] | assumption | (drule tables_besideD(7), simp add: in_supply_def))+

end
