(* ===== verification/Concurrency_Properties.thy ===== *)
theory Concurrency_Properties
  imports Http_Properties Idem_Concurrency Media_Concurrency
begin

text \<open>
  The properties of requests that run at the same time: those with idempotency keys, and uploads
  and deletions.
\<close>

section \<open>The steps are the middleware\<close>

text \<open>C19: the interleaved steps of a request are those of the middleware: run without the others, a request
  always comes to an end, and however it got there, the answer, the writer and the world are what
  the middleware returns as a whole.\<close>

theorem idempotency_steps_refine:
  assumes "fr_phase p k = Arrived"
  shows "(\<exists>q. alone h rq wrs k p q \<and> answered (fr_phase q k)) \<and>
    (\<forall>q. alone h rq wrs k p q \<and> answered (fr_phase q k) \<longrightarrow>
      Idempotency PostgresIdempotencyStore h (rq k) (wrs k, fr_world p)
        = (fst (answer_of (wrs k) (fr_phase q k)), (snd (answer_of (wrs k) (fr_phase q k)), fr_world q)))"
  using alone_ends alone_is_middleware [where h = h and rq = rq and wrs = wrs, OF assms] by blast

theorem idempotency_steps_refine_witness:
  "\<exists>q j. alone (MediaHandler_Create text_ext upload_handler) (\<lambda>_. upload_request) (\<lambda>_. new_writer) 0
      \<lparr>fr_world = upload_world, fr_phase = (\<lambda>_. Arrived)\<rparr> q
    \<and> answer_of new_writer (fr_phase q 0) = (Inr (), writeJSON 201 (Some j) new_writer)"
proof -
  let ?p = "\<lparr>fr_world = upload_world, fr_phase = (\<lambda>_. Arrived)\<rparr>"
  have "fr_phase ?p 0 = Arrived" by simp
  from idempotency_steps_refine [where h = "MediaHandler_Create text_ext upload_handler" and rq = "\<lambda>_. upload_request"
      and wrs = "\<lambda>_. new_writer", OF this] first_upload
  show ?thesis by (metis fst_conv prod.collapse prod.inject front.select_convs(1))
qed

section \<open>Once a response is stored\<close>

text \<open>C6: once a response is stored it wins: until it expires, whatever other requests, clean-ups and the rest
  of the program do in between and whichever calls fail, the row stays as it is, and a request of
  the tenant with the key that had not looked it up before gets exactly this response and does not
  run the handler, unless its own lookup fails.\<close>

theorem stored_response_wins:
  assumes "pg_upload X h" and "idem_reach (MediaHandler_Create X h) rq wrs p q"
    and "idem_row_of t key (fr_world p) = Some r" and "w_clock (fr_world q) < ik_expires r"
    and "TenantIDFromContext (rq_Ctx (rq l)) = Inr t" and "idem_key (rq l) = key" and "fr_phase p l = Arrived"
  shows "idem_row_of t key (fr_world q) = Some r \<and>
    (fr_phase q l = Arrived \<or> fr_phase q l = Replayed (ik_status r) (ik_response r)
     \<or> fr_phase q l = Running False \<or> (\<exists>x wr. fr_phase q l = Ran False x wr \<or> fr_phase q l = Finished False x wr))"
  using stored_response_stays [OF assms(2) upload_leaves_store [OF assms(1)] assms(3-7)]
  by (cases "fr_phase q l") (auto simp: served_from_def)

definition stored_row :: idem_row where
  "stored_row = \<lparr>ik_tenant = 1, ik_key = ''key-1'', ik_status = 201, ik_response = ''body'', ik_created = 0, ik_expires = 100\<rparr>"

definition stored_front :: front where
  "stored_front = \<lparr>fr_world = text_world\<lparr>w_db := demo_db\<lparr>idempotency_keys := [stored_row]\<rparr>\<rparr>, fr_phase = (\<lambda>_. Arrived)\<rparr>"

lemma upload_handler_pg: "pg_upload text_ext upload_handler"
  unfolding upload_handler_def pg_service_def by (rule pg_upload_local)

lemma stored_found:
  "\<exists>w. IdempotencyStore_Get (demo_ctx 1) ''key-1'' (fr_world stored_front) = (Inr (Some (201, ''body'')), w)
    \<and> w_clock w = 50"
proof -
  have nf: "no_faults (fr_world stored_front)" by (simp add: stored_front_def no_faults_def)
  have "idem_row_of 1 ''key-1'' (fr_world stored_front) = Some stored_row"
    by (simp add: idem_row_of_def stored_front_def stored_row_def ik_pk_def)
  from idem_row_cached [OF this _ demo_ctx_tenant [of 1]]
  have "idem_cached (demo_ctx 1) (fr_world stored_front) ''key-1'' = Some (201, ''body'')"
    by (simp add: stored_front_def stored_row_def)
  with idem_get_no_faults [OF nf demo_ctx_tenant [of 1], of "''key-1''"] show ?thesis
    by (auto simp: db_only_iff stored_front_def)
qed

theorem stored_response_wins_witness:
  "\<exists>q. idem_reach (MediaHandler_Create text_ext upload_handler) (\<lambda>_. upload_request) (\<lambda>_. new_writer) stored_front q
    \<and> fr_phase q 0 = Replayed 201 ''body'' \<and> idem_row_of 1 ''key-1'' (fr_world q) = Some stored_row"
proof -
  obtain w where g: "IdempotencyStore_Get (demo_ctx 1) ''key-1'' (fr_world stored_front) = (Inr (Some (201, ''body'')), w)"
    "w_clock w = 50" using stored_found by blast
  let ?q = "enter 0 (Replayed 201 ''body'') w stored_front"
  have "idem_step (MediaHandler_Create text_ext upload_handler) (\<lambda>_. upload_request) (\<lambda>_. new_writer) stored_front (Some 0) ?q"
    by (rule found) (use g in \<open>simp_all add: stored_front_def idem_key_def\<close>)
  then have r: "idem_reach (MediaHandler_Create text_ext upload_handler) (\<lambda>_. upload_request) (\<lambda>_. new_writer) stored_front ?q"
    using idem_reach.here idem_reach.on by metis
  have "idem_row_of 1 ''key-1'' (fr_world stored_front) = Some stored_row" "w_clock (fr_world ?q) < ik_expires stored_row"
    using g(2) by (simp_all add: idem_row_of_def stored_front_def stored_row_def ik_pk_def)
  from stored_response_wins [OF upload_handler_pg r this, of 0] r show ?thesis
    by (auto simp: idem_key_def stored_front_def)
qed

section \<open>Whose response is replayed\<close>

text \<open>C17: a replayed response is never anyone else's: when no response was stored for the tenant's key at
  the start, what a request with the key gets replayed is the answer of a request of the same
  tenant with the same key, which ran the handler without a panic, succeeded with a status of 2xx
  and wrote exactly this status and body.\<close>

theorem replay_has_source:
  assumes "pg_upload X h" and "idem_reach (MediaHandler_Create X h) rq wrs p q" and "\<And>k. fr_phase p k = Arrived"
    and "TenantIDFromContext (rq_Ctx (rq l)) = Inr t" and "idem_row_of t (idem_key (rq l)) (fr_world p) = None"
    and "fr_phase q l = Replayed code body"
  shows "200 \<le> code \<and> code < 300 \<and> (\<exists>k wr. fr_phase q k = Finished True (Inr ()) wr
    \<and> TenantIDFromContext (rq_Ctx (rq k)) = Inr t \<and> idem_key (rq k) = idem_key (rq l)
    \<and> captured_status 0 (calls_made (wrs k) wr) = code \<and> captured_body (calls_made (wrs k) wr) = body)"
proof -
  have "came_from rq wrs q t (idem_key (rq l)) code body"
  proof -
    have "ik_pk r \<noteq> (t, idem_key (rq l))" if "r \<in> set (idempotency_keys (w_db (fr_world p)))" for r
      using that assms(5) by (auto simp: idem_row_of_def find_None_iff_ex)
    then show ?thesis
      using reach_sourced [OF assms(2) upload_leaves_store [OF assms(1)] assms(3)] assms(4,6)
      unfolding sourced_def ik_pk_def by (metis sum.inject(2))
  qed
  then show ?thesis
    by (auto simp: came_from_def to_store_def Let_def buffer_bytes_def split: if_splits)
qed


text \<open>One upload from arrival to its stored answer, then another request with the key.\<close>

abbreviation uploads_reach :: "front \<Rightarrow> front \<Rightarrow> bool" where
  "uploads_reach \<equiv> idem_reach (MediaHandler_Create text_ext upload_handler) (\<lambda>_. upload_request) (\<lambda>_. new_writer)"

abbreviation uploads_step :: "front \<Rightarrow> nat option \<Rightarrow> front \<Rightarrow> bool" where
  "uploads_step \<equiv> idem_step (MediaHandler_Create text_ext upload_handler) (\<lambda>_. upload_request) (\<lambda>_. new_writer)"

lemma upload_stored:
  "\<exists>q body. uploads_reach \<lparr>fr_world = upload_world, fr_phase = (\<lambda>_. Arrived)\<rparr> q \<and> fr_phase q 1 = Arrived
    \<and> no_faults (fr_world q) \<and> idem_cached (demo_ctx 1) (fr_world q) ''key-1'' = Some (201, body)"
proof -
  let ?p = "\<lparr>fr_world = upload_world, fr_phase = (\<lambda>_. Arrived)\<rparr>"
  obtain w where g: "IdempotencyStore_Get (demo_ctx 1) ''key-1'' upload_world = (Inr None, w)"
    and w: "db_only upload_world w" "w_db w = w_db upload_world" using idem_get_upload by blast
  have nf: "no_faults w" using no_faults_db_only [OF w(1)] by simp
  obtain m w' where m: "MediaService_Create text_ext (pg_service text_ext text_store []) (demo_ctx 1) upload_input w = (Inr m, w')"
    "media_CreatedAt m = 50" "set (media_Tags m) \<subseteq> tag_of_row ` set (tags demo_db)"
    using upload_run_at [OF nf w(2), of "[]"] w(1) by (auto simp: db_only_iff)
  obtain j where j: "media_data text_ext upload_handler m = Some j" using upload_json [OF m(2,3)] by blast
  let ?wr = "writeJSON 201 (Some j) new_writer" and ?b = "string_of (json_text j) @ [CHR 0x0A]"
  have h: "MediaHandler_Create text_ext upload_handler upload_request (new_writer, w) = (Inr (), (?wr, w'))"
    using upload_handled [OF m(1)] j by simp
  have st: "to_store new_writer ?wr = Some (201, Some ?b)"
    by (simp add: to_store_def writeJSON_def Let_def calls_made_def new_writer_def buffer_bytes_def)
  have fr: "idem_frame w w'" by (rule upload_handler_frame [OF upload_handler_pg h])
  have w': "no_faults w'" "is_tenant (w_db w') 1" "idem_vacant (demo_ctx 1) w' ''key-1''"
    using fr nf w by (simp_all add: idem_frame_def no_faults_def is_tenant_def idem_vacant_def demo_db_sel)
  obtain v where s: "IdempotencyStore_Set (demo_ctx 1) ''key-1'' 201 (Some ?b) w' = (Inr (), v)" and v: "db_only w' v"
    using idem_set_no_faults [OF w'(1) demo_ctx_tenant w'(2,3), of 201 ?b] by blast
  have "w_clock v = w_clock w'" using v by (simp add: db_only_iff)
  then have c: "idem_cached (demo_ctx 1) v ''key-1'' = Some (201, ?b)"
    using cached_until [OF demo_ctx_tenant w'(3) s refl] by (simp add: idempotencyTTL_def)
  define p1 where "p1 = enter 0 (Running True) w ?p"
  define p2 where "p2 = enter 0 (Ran True (Inr ()) ?wr) w' p1"
  define p3 where "p3 = enter 0 (Finished True (Inr ()) ?wr) v p2"
  have "uploads_step ?p (Some 0) p1" unfolding p1_def by (rule not_found) (use g in \<open>simp_all add: idem_key_def\<close>)
  moreover have "uploads_step p1 (Some 0) p2" unfolding p2_def by (rule handled) (use h in \<open>simp_all add: p1_def\<close>)
  moreover have "uploads_step p2 (Some 0) p3" unfolding p3_def
    by (rule stored [OF _ st]) (use s in \<open>simp_all add: p2_def idem_key_def\<close>)
  ultimately have "uploads_reach ?p p3" using idem_reach.here idem_reach.on by metis
  with c no_faults_db_only [OF v w'(1)] show ?thesis
    by (intro exI [of _ p3] exI [of _ ?b]) (simp add: p3_def p2_def p1_def)
qed

theorem replay_has_source_witness:
  "\<exists>q body k wr. uploads_reach \<lparr>fr_world = upload_world, fr_phase = (\<lambda>_. Arrived)\<rparr> q \<and> fr_phase q 1 = Replayed 201 body
    \<and> fr_phase q k = Finished True (Inr ()) wr \<and> captured_body (calls_made new_writer wr) = body"
proof -
  let ?p = "\<lparr>fr_world = upload_world, fr_phase = (\<lambda>_. Arrived)\<rparr>"
  obtain q body where q: "uploads_reach ?p q" "fr_phase q 1 = Arrived" "no_faults (fr_world q)"
    "idem_cached (demo_ctx 1) (fr_world q) ''key-1'' = Some (201, body)" using upload_stored by blast
  obtain w where g: "IdempotencyStore_Get (demo_ctx 1) ''key-1'' (fr_world q) = (Inr (Some (201, body)), w)"
    using idem_get_no_faults [OF q(3) demo_ctx_tenant [of 1], of "''key-1''"] q(4) by auto
  let ?q = "enter 1 (Replayed 201 body) w q"
  have "uploads_step q (Some 1) ?q" by (rule found) (use g q(2) in \<open>simp_all add: idem_key_def\<close>)
  with q(1) have r: "uploads_reach ?p ?q" by (rule idem_reach.on)
  have "idem_row_of 1 (idem_key upload_request) (fr_world ?p) = None" by (simp add: idem_row_of_def demo_db_sel)
  with replay_has_source [OF upload_handler_pg r, of 1 1 201 body] obtain k wr where
    "fr_phase ?q k = Finished True (Inr ()) wr" "captured_body (calls_made new_writer wr) = body" by auto
  moreover have "fr_phase ?q 1 = Replayed 201 body" by simp
  ultimately show ?thesis using r by blast
qed

section \<open>Uploads and deletions at the same time\<close>

text \<open>C18: the interleaved steps of an upload and of a deletion are those of the service: run without the
  others, an upload of any input and a deletion of any id come to an end with the result and the
  world that the operation returns as a whole, and a request that has ended so was one of the two.\<close>

theorem media_steps_refine:
  assumes "up_phase p k = Fresh"
  shows "(\<exists>q. media_alone X s c k p q \<and> up_phase q k = Uploaded (fst (MediaService_Create X s (c k) input (up_world p)))
      \<and> up_world q = snd (MediaService_Create X s (c k) input (up_world p)))
    \<and> (\<exists>q. media_alone X s c k p q \<and> up_phase q k = Deleted (fst (MediaService_Delete s (c k) i (up_world p)))
      \<and> up_world q = snd (MediaService_Delete s (c k) i (up_world p)))
    \<and> (\<forall>q. media_alone X s c k p q \<longrightarrow>
         (\<forall>r. up_phase q k = Uploaded r \<longrightarrow> (\<exists>input. MediaService_Create X s (c k) input (up_world p) = (r, up_world q)))
       \<and> (\<forall>r. up_phase q k = Deleted r \<longrightarrow> (\<exists>i. MediaService_Delete s (c k) i (up_world p) = (r, up_world q))))"
  using upload_alone [OF assms] remove_alone [OF assms] alone_is_operation [OF _ assms] by blast

abbreviation upload_site :: "World site" where
  "upload_site \<equiv> \<lparr>up_world = upload_world, up_phase = (\<lambda>_. Fresh)\<rparr>"

theorem media_steps_refine_witness:
  "\<exists>q m. media_alone text_ext (pg_service text_ext text_store []) (\<lambda>_. demo_ctx 1) 0 upload_site q
    \<and> up_phase q 0 = Uploaded (Inr m)"
proof -
  obtain m w' where "MediaService_Create text_ext (pg_service text_ext text_store []) (demo_ctx 1) upload_input upload_world = (Inr m, w')"
    using upload_run by blast
  moreover have "up_phase upload_site 0 = Fresh" by simp
  ultimately show ?thesis
    using media_steps_refine [of upload_site 0 text_ext "pg_service text_ext text_store []" "\<lambda>_. demo_ctx 1" upload_input 0]
    by auto
qed

lemma site_files:
  "local_conc.site_ok N X s p \<longleftrightarrow> files_consistent N X s (up_world p) \<and> \<not> lost_ack (up_world p)
    \<and> local_conc.held_ok s (up_phase p) (up_world p)"
  unfolding local_conc.site_ok_def local_conc.rows_ok_def files_consistent_def by blast


lemma upload_reaches:
  assumes "MediaService_Create X s ctx input w = (Inr m, w')"
  shows "\<exists>q. media_reach X s (\<lambda>_. ctx) env \<lparr>up_world = w, up_phase = (\<lambda>_. Fresh)\<rparr> q \<and> up_phase q 0 = Uploaded (Inr m) \<and> up_world q = w'"
proof -
  let ?p = "\<lparr>up_world = w, up_phase = (\<lambda>_. Fresh)\<rparr>"
  obtain q where "media_alone X s (\<lambda>_. ctx) 0 ?p q" "up_phase q 0 = Uploaded (Inr m)" "up_world q = w'"
    using upload_alone [of ?p 0 X s "\<lambda>_. ctx" input] assms by auto
  with media_alone_reach show ?thesis by blast
qed

text \<open>C4: no dangling rows under concurrency, unless a COMMIT takes effect and is reported as failed: whatever
  uploads and deletions of any tenants run at the same time, however their calls are interleaved with
  each other and with the rest of the program, every media row keeps its file under a path no other row
  has, and a file that a request is about to remove belongs to no row.  Statements and system calls may
  fail before or after their effect, a COMMIT only by rolling back (\<open>lost_ack\<close>); the random UUIDs
  drawn are distinct (\<open>in_supply\<close>).\<close>

theorem interleaved_rows_keep_files:
  assumes "media_reach X (pg_service X s b) c tables_beside p q" and "\<And>k. up_phase p k = Fresh"
    and "files_consistent N X s (up_world p)" and "\<not> lost_ack (up_world p)" and "in_supply N (up_world q)"
  shows "files_consistent N X s (up_world q) \<and>
    (\<forall>k path. up_phase q k = Removing path \<longrightarrow> path \<notin> ran (stored_paths (up_world q)))"
proof -
  have "local_conc.site_ok N X s p" using assms(2-4) by (simp add: site_files local_conc.held_ok_def)
  from local_conc.site_ok_reach [OF _ _ _ assms(1) this assms(5)]
  have q: "local_conc.site_ok N X s q" by simp
  have "path \<notin> ran (stored_paths (up_world q))" if "up_phase q k = Removing path" for k path
  proof -
    have "held_path (up_phase q k) = Some path" using that by simp
    with q show ?thesis unfolding site_files local_conc.held_ok_def by blast
  qed
  with q show ?thesis by (simp add: site_files)
qed

theorem interleaved_rows_keep_files_witness:
  "\<exists>q m. media_reach text_ext (pg_service text_ext text_store []) (\<lambda>_. demo_ctx 1) tables_beside upload_site q
    \<and> up_phase q 0 = Uploaded (Inr m) \<and> files_consistent 1000 text_ext text_store (up_world q)"
proof -
  obtain m w' where m: "MediaService_Create text_ext (pg_service text_ext text_store []) (demo_ctx 1) upload_input upload_world = (Inr m, w')"
    using upload_run by blast
  obtain q where q: "media_reach text_ext (pg_service text_ext text_store []) (\<lambda>_. demo_ctx 1) tables_beside upload_site q"
    "up_phase q 0 = Uploaded (Inr m)" "up_world q = w'" using upload_reaches [OF m] by blast
  have "in_supply 1000 (up_world q)" unfolding q(3) by (rule ids_left [OF m]) simp
  with interleaved_rows_keep_files [OF q(1), of 1000] upload_world_consistent q show ?thesis by auto
qed

lemma site_objects:
  "s3_conc.site_ok N X s p \<longleftrightarrow> objects_consistent N X s (up_world p) \<and> \<not> lost_ack (up_world p)
    \<and> s3_conc.held_ok (up_phase p) (up_world p)"
  unfolding s3_conc.site_ok_def s3_conc.rows_ok_def objects_consistent_def by blast

text \<open>C20: the same on S3: unless a COMMIT takes effect and is reported as failed, every media row keeps its
  object, under a key no other row has, through all interleavings of uploads and deletions, and a key
  that a request is about to delete belongs to no row.  Statements and S3 requests may fail before or after their effect,
  a COMMIT only by rolling back (\<open>lost_ack\<close>); the random UUIDs drawn are distinct (\<open>in_supply\<close>).\<close>

theorem interleaved_rows_keep_objects:
  assumes "media_reach X (s3_service X ps s b) c tables_beside p q" and "\<And>k. up_phase p k = Fresh"
    and "objects_consistent N X s (up_world p)" and "\<not> lost_ack (up_world p)" and "in_supply N (up_world q)"
  shows "objects_consistent N X s (up_world q) \<and>
    (\<forall>k path. up_phase q k = Removing path \<longrightarrow> path \<notin> ran (stored_paths (up_world q)))"
proof -
  have "s3_conc.site_ok N X s p" using assms(2-4) by (simp add: site_objects s3_conc.held_ok_def)
  from s3_conc.site_ok_reach [OF _ _ _ assms(1) this assms(5)]
  have q: "s3_conc.site_ok N X s q" by simp
  have "path \<notin> ran (stored_paths (up_world q))" if "up_phase q k = Removing path" for k path
  proof -
    have "held_path (up_phase q k) = Some path" using that by simp
    with q show ?thesis unfolding site_objects s3_conc.held_ok_def by blast
  qed
  with q show ?thesis by (simp add: site_objects)
qed

theorem interleaved_rows_keep_objects_witness:
  "\<exists>q m. media_reach text_ext (s3_service text_ext (\<lambda>_ _ _. Inl SqlErrNoRows) text_bucket []) (\<lambda>_. demo_ctx 1) tables_beside upload_site q
    \<and> up_phase q 0 = Uploaded (Inr m) \<and> objects_consistent 1000 text_ext text_bucket (up_world q)"
proof -
  let ?sv = "s3_service text_ext (\<lambda>_ _ _. Inl SqlErrNoRows) text_bucket []"
  obtain m w' where m: "MediaService_Create text_ext ?sv (demo_ctx 1) upload_input upload_world = (Inr m, w')" "w_drawn w' \<le> 1000"
    using s3_upload_run by blast
  obtain q where q: "media_reach text_ext ?sv (\<lambda>_. demo_ctx 1) tables_beside upload_site q"
    "up_phase q 0 = Uploaded (Inr m)" "up_world q = w'" using upload_reaches [OF m(1)] by blast
  have "in_supply 1000 (up_world q)" using q(3) m(2) by (simp add: in_supply_def)
  with interleaved_rows_keep_objects [OF q(1), of 1000] upload_world_objects upload_world_consistent q show ?thesis by auto
qed

end
