(* ===== verification/Shutdown.thy ===== *)
theory Shutdown
  imports App
begin

text \<open>
  The end of the process: step 8 of \<^verbatim>\<open>run\<close> in \<^verbatim>\<open>cmd/api/main.go\<close> beside the requests in flight and
  the goroutines of \<^verbatim>\<open>service/worker.go\<close> and of the background loops, as a step relation.  What is
  shown: the order of the shut-down, that nothing that hangs holds it up for longer than twice the
  timeout, and that its outcomes are those of \<open>run\<close>.
\<close>

section \<open>The process\<close>

text \<open>A goroutine with a ticker loop: in its \<^verbatim>\<open>select\<close>, inside its action, or returned.\<close>

datatype goroutine = Selecting | Processing | Returned

inductive goroutine_step :: "bool \<Rightarrow> goroutine \<Rightarrow> goroutine \<Rightarrow> bool" where
  tick: "goroutine_step cancelled Selecting Processing"
| finish: "goroutine_step cancelled Processing Selecting"
| stop: "goroutine_step True Selecting Returned"

text \<open>
  Where \<^verbatim>\<open>run\<close> is: waiting for a signal; inside \<^verbatim>\<open>srv.Shutdown\<close> with a context that ends at a
  time; inside \<^verbatim>\<open>waitWithTimeout\<close> with a timer that fires at a time; returned.
\<close>

datatype stage = Serving | Draining time | Waiting time | Exited "goerr + unit"

record process =
  pc_stage :: stage
  pc_now :: time
  pc_listening :: bool
  pc_requests :: nat
  pc_cancelled :: bool
  pc_workers :: "goroutine list"
  pc_loops :: "goroutine list"

text \<open>\<open>waitWithTimeout\<close> may return when the pool has, or when its timer has fired.\<close>

definition waitWithTimeout :: "goroutine list \<Rightarrow> time \<Rightarrow> time \<Rightarrow> bool" where
  "waitWithTimeout wg deadline now \<longleftrightarrow> list_all (\<lambda>g. g = Returned) wg \<or> deadline \<le> now"

definition DeadlineExceeded :: goerr where "DeadlineExceeded = Opaque ''context deadline exceeded''"

definition deadline_of :: "stage \<Rightarrow> time option" where
  "deadline_of s = (case s of Draining d \<Rightarrow> Some d | Waiting d \<Rightarrow> Some d | _ \<Rightarrow> None)"

definition running :: "process \<Rightarrow> bool" where
  "running p \<longleftrightarrow> (\<forall>res. pc_stage p \<noteq> Exited res)"

text \<open>
  \<open>T\<close>: the shut-down timeout.  \<^verbatim>\<open>srv.Shutdown\<close> closes the listener, returns nil or the error of
  closing it once no request is in flight, or the context's error when that has ended.  A return of
  \<^verbatim>\<open>run\<close> cancels the background context in a deferred call and ends the process.  Timers are
  prompt: time does not pass a deadline that is waited for.
\<close>

inductive shutdown_step :: "time \<Rightarrow> process \<Rightarrow> process \<Rightarrow> bool" for T where
  arrive: "pc_stage p = Serving \<Longrightarrow> pc_listening p \<Longrightarrow> shutdown_step T p (p\<lparr>pc_requests := pc_requests p + 1\<rparr>)"
| answer: "running p \<Longrightarrow> 0 < pc_requests p \<Longrightarrow> shutdown_step T p (p\<lparr>pc_requests := pc_requests p - 1\<rparr>)"
| worker: "running p \<Longrightarrow> i < length (pc_workers p) \<Longrightarrow> goroutine_step (pc_cancelled p) (pc_workers p ! i) g \<Longrightarrow>
    shutdown_step T p (p\<lparr>pc_workers := (pc_workers p)[i := g]\<rparr>)"
| loop: "running p \<Longrightarrow> i < length (pc_loops p) \<Longrightarrow> goroutine_step (pc_cancelled p) (pc_loops p ! i) g \<Longrightarrow>
    shutdown_step T p (p\<lparr>pc_loops := (pc_loops p)[i := g]\<rparr>)"
| stopped: "pc_stage p = Serving \<Longrightarrow> stop = Signal \<or> stop = ServerStopped ErrServerClosed \<Longrightarrow>
    shutdown_step T p (p\<lparr>pc_stage := Draining (pc_now p + T), pc_listening := False\<rparr>)"
| server_error: "pc_stage p = Serving \<Longrightarrow> err \<noteq> ErrServerClosed \<Longrightarrow>
    shutdown_step T p (p\<lparr>pc_stage := Exited (Inl (Errorf ''server error: '' err '''')), pc_listening := False, pc_cancelled := True\<rparr>)"
| drained: "pc_stage p = Draining d \<Longrightarrow> pc_requests p = 0 \<Longrightarrow>
    shutdown_step T p (p\<lparr>pc_stage := Waiting (pc_now p + T), pc_cancelled := True\<rparr>)"
| close_error: "pc_stage p = Draining d \<Longrightarrow> pc_requests p = 0 \<Longrightarrow>
    shutdown_step T p (p\<lparr>pc_stage := Exited (Inl (Errorf ''server shutdown: '' err '''')), pc_cancelled := True\<rparr>)"
| drain_expired: "pc_stage p = Draining d \<Longrightarrow> d \<le> pc_now p \<Longrightarrow>
    shutdown_step T p (p\<lparr>pc_stage := Exited (Inl (Errorf ''server shutdown: '' DeadlineExceeded '''')), pc_cancelled := True\<rparr>)"
| waited: "pc_stage p = Waiting d \<Longrightarrow> waitWithTimeout (pc_workers p) d (pc_now p) \<Longrightarrow>
    shutdown_step T p (p\<lparr>pc_stage := Exited (Inr ())\<rparr>)"
| pass: "running p \<Longrightarrow> (\<And>d. deadline_of (pc_stage p) = Some d \<Longrightarrow> pc_now p + int n \<le> d) \<Longrightarrow>
    shutdown_step T p (p\<lparr>pc_now := pc_now p + int n\<rparr>)"

abbreviation shutdown_steps :: "time \<Rightarrow> process \<Rightarrow> process \<Rightarrow> bool" where
  "shutdown_steps T \<equiv> (shutdown_step T)\<^sup>*\<^sup>*"

inductive_cases shutdown_stepE: "shutdown_step T p q"

text \<open>The process that \<open>start\<close> has set up; the statistics loop takes a first sample at once.\<close>

fun pool_of :: "Background \<Rightarrow> goroutine list" where
  "pool_of (WorkerPool d wk) = replicate (nat (wk_concurrency wk)) Selecting"
| "pool_of _ = []"

fun loops_of :: "Background \<Rightarrow> goroutine list" where
  "loops_of (WorkerPool d wk) = []"
| "loops_of (StatsLoop d) = [Processing]"
| "loops_of _ = [Selecting]"

definition started :: "App \<Rightarrow> time \<Rightarrow> process" where
  "started app now = \<lparr>pc_stage = Serving, pc_now = now, pc_listening = True, pc_requests = 0, pc_cancelled = False,
     pc_workers = concat (map pool_of (app_background app)), pc_loops = concat (map loops_of (app_background app))\<rparr>"

definition shutdown_timeout :: "App \<Rightarrow> time" where
  "shutdown_timeout app = micros (ShutdownTimeout (app_config app))"

section \<open>The order of the steps\<close>

text \<open>
  The listener is open exactly while the process serves; the background context is cancelled only
  when the listener is closed and every request was answered, or when \<^verbatim>\<open>run\<close> returns an error;
  goroutines return only after that.
\<close>

definition stage_ok :: "process \<Rightarrow> bool" where
  "stage_ok p \<longleftrightarrow> (case pc_stage p of
     Serving \<Rightarrow> pc_listening p \<and> \<not> pc_cancelled p
   | Draining d \<Rightarrow> \<not> pc_listening p \<and> \<not> pc_cancelled p
   | Waiting d \<Rightarrow> \<not> pc_listening p \<and> pc_cancelled p \<and> pc_requests p = 0
   | Exited res \<Rightarrow> \<not> pc_listening p \<and> pc_cancelled p \<and> (res = Inr () \<longrightarrow> pc_requests p = 0))"

definition returned_ok :: "process \<Rightarrow> bool" where
  "returned_ok p \<longleftrightarrow> Returned \<in> set (pc_workers p) \<union> set (pc_loops p) \<longrightarrow> pc_cancelled p"

inductive_simps goroutine_step_iff: "goroutine_step c g h"

lemma stage_ok_step: "shutdown_step T p q \<Longrightarrow> stage_ok p \<Longrightarrow> stage_ok q"
  by (erule shutdown_stepE) (auto simp: stage_ok_def running_def split: stage.splits)

lemma goroutine_returns: "goroutine_step c g Returned \<Longrightarrow> c"
  by (simp add: goroutine_step_iff)

lemma set_update_member: "x \<in> set (xs[i := y]) \<Longrightarrow> x \<in> set xs \<or> x = y"
  using set_update_subset_insert by fastforce

lemma returned_ok_step: "shutdown_step T p q \<Longrightarrow> returned_ok p \<Longrightarrow> returned_ok q"
  by (erule shutdown_stepE) (auto simp: returned_ok_def dest!: set_update_member dest: goroutine_returns)

lemma started_ok: "stage_ok (started app now)" "returned_ok (started app now)"
proof -
  have "Returned \<notin> set (pool_of b)" "Returned \<notin> set (loops_of b)" for b by (cases b; simp)+
  then show "returned_ok (started app now)" by (auto simp: returned_ok_def started_def)
qed (simp add: stage_ok_def started_def)

lemma shutdown_ok: "shutdown_steps T p q \<Longrightarrow> stage_ok p \<Longrightarrow> returned_ok p \<Longrightarrow> stage_ok q \<and> returned_ok q"
  by (induction rule: rtranclp_induct) (auto intro: stage_ok_step returned_ok_step)

lemma background_after_requests:
  assumes "shutdown_steps T (started app now) q" "pc_cancelled q" "\<nexists>e. pc_stage q = Exited (Inl e)"
  shows "pc_requests q = 0 \<and> \<not> pc_listening q"
  using shutdown_ok [OF assms(1) started_ok] assms(2,3)
  by (cases "pc_stage q") (auto simp: stage_ok_def, metis (full_types) old.sum.exhaust old.unit.exhaust)

lemma goroutines_outlast_requests:
  assumes "shutdown_steps T (started app now) q" "Returned \<in> set (pc_workers q) \<union> set (pc_loops q)"
    and "\<nexists>e. pc_stage q = Exited (Inl e)"
  shows "pc_requests q = 0 \<and> \<not> pc_listening q"
  using shutdown_ok [OF assms(1) started_ok] background_after_requests [OF assms(1) _ assms(3)] assms(2)
  by (auto simp: returned_ok_def)

section \<open>The time it takes\<close>

definition in_time :: "time \<Rightarrow> time \<Rightarrow> process \<Rightarrow> bool" where
  "in_time T t0 p \<longleftrightarrow> (case pc_stage p of
     Serving \<Rightarrow> False
   | Draining d \<Rightarrow> d = t0 + T \<and> pc_now p \<le> d
   | Waiting d \<Rightarrow> pc_now p \<le> d \<and> d \<le> t0 + 2 * T
   | Exited res \<Rightarrow> pc_now p \<le> t0 + 2 * T)"

lemma in_time_step: "shutdown_step T p q \<Longrightarrow> 0 \<le> T \<Longrightarrow> in_time T t0 p \<Longrightarrow> in_time T t0 q"
  by (erule shutdown_stepE) (auto simp: in_time_def running_def deadline_of_def split: stage.splits)

lemma in_time_steps: "shutdown_steps T p q \<Longrightarrow> 0 \<le> T \<Longrightarrow> in_time T t0 p \<Longrightarrow> in_time T t0 q"
  by (induction rule: rtranclp_induct) (auto intro: in_time_step)

lemma in_time_bound: "0 \<le> T \<Longrightarrow> in_time T t0 p \<Longrightarrow> pc_now p \<le> t0 + 2 * T"
  by (auto simp: in_time_def split: stage.splits)

text \<open>Requests, workers and loops that never do another step do not keep the process from its end.\<close>

lemma exits_alone:
  assumes "in_time T t0 p"
  shows "\<exists>q. shutdown_steps T p q \<and> \<not> running q \<and> pc_requests q = pc_requests p \<and> pc_workers q = pc_workers p
    \<and> pc_loops q = pc_loops p"
proof (cases "deadline_of (pc_stage p)")
  case None
  with assms show ?thesis by (intro exI [of _ p]) (auto simp: in_time_def deadline_of_def running_def split: stage.splits)
next
  case (Some d)
  define n where "n = nat (d - pc_now p)"
  let ?p = "p\<lparr>pc_now := pc_now p + int n\<rparr>"
  have n: "pc_now p + int n = d" using Some assms by (auto simp: n_def in_time_def deadline_of_def split: stage.splits)
  have 1: "shutdown_step T p ?p"
    by (rule pass) (use Some n in \<open>auto simp: running_def deadline_of_def\<close>)
  obtain res c where 2: "shutdown_step T ?p (?p\<lparr>pc_stage := Exited res, pc_cancelled := c\<rparr>)"
  proof (cases "pc_stage p")
    case (Draining e)
    with Some n that drain_expired [of ?p e T] show thesis by (simp add: deadline_of_def)
  next
    case (Waiting e)
    with Some n that [of "pc_cancelled p" "Inr ()"] waited [of ?p e T] show thesis
      by (simp add: deadline_of_def waitWithTimeout_def)
  qed (use Some in \<open>auto simp: deadline_of_def\<close>)
  from 1 2 show ?thesis
    by (intro exI [of _ "?p\<lparr>pc_stage := Exited res, pc_cancelled := c\<rparr>"])
      (auto simp: running_def intro: converse_rtranclp_into_rtranclp)
qed

section \<open>A clean end\<close>

lemma answer_all:
  "running p \<Longrightarrow> shutdown_steps T p (p\<lparr>pc_requests := 0\<rparr>)"
proof (induction "pc_requests p" arbitrary: p)
  case (Suc n)
  let ?q = "p\<lparr>pc_requests := pc_requests p - 1\<rparr>"
  have "shutdown_step T p ?q" by (rule answer) (use Suc in auto)
  moreover have "shutdown_steps T ?q (?q\<lparr>pc_requests := 0\<rparr>)"
    by (rule Suc.hyps(1)) (use Suc in \<open>auto simp: running_def\<close>)
  ultimately show ?case by (simp add: converse_rtranclp_into_rtranclp)
next
  case 0
  then have "p\<lparr>pc_requests := 0\<rparr> = p" by (cases p) simp
  then show ?case by simp
qed

lemma return_one:
  assumes "running p" "pc_cancelled p" "i < length (pc_workers p)"
  shows "shutdown_steps T p (p\<lparr>pc_workers := (pc_workers p)[i := Returned]\<rparr>)"
proof -
  have s: "shutdown_steps T q (q\<lparr>pc_workers := (pc_workers q)[i := Returned]\<rparr>)"
    if "running q" "pc_cancelled q" "i < length (pc_workers q)" "pc_workers q ! i = Selecting" for q
    by (rule r_into_rtranclp, rule worker) (use that in \<open>auto simp: goroutine_step_iff\<close>)
  show ?thesis
  proof (cases "pc_workers p ! i")
    case Selecting
    with s assms show ?thesis by blast
  next
    case Processing
    let ?q = "p\<lparr>pc_workers := (pc_workers p)[i := Selecting]\<rparr>"
    have "shutdown_step T p ?q" by (rule worker) (use assms Processing in \<open>auto simp: goroutine_step_iff\<close>)
    moreover have "shutdown_steps T ?q (?q\<lparr>pc_workers := (pc_workers ?q)[i := Returned]\<rparr>)"
      by (rule s) (use assms in \<open>auto simp: running_def\<close>)
    ultimately show ?thesis by (simp add: converse_rtranclp_into_rtranclp)
  next
    case Returned
    have "(pc_workers p)[i := Returned] = pc_workers p" unfolding Returned [symmetric] by (rule list_update_id)
    then show ?thesis by simp
  qed
qed

lemma return_all:
  assumes "running p" "pc_cancelled p" "n \<le> length (pc_workers p)"
  shows "shutdown_steps T p (p\<lparr>pc_workers := replicate n Returned @ drop n (pc_workers p)\<rparr>)"
  using assms(3)
proof (induction n)
  case (Suc n)
  let ?q = "p\<lparr>pc_workers := replicate n Returned @ drop n (pc_workers p)\<rparr>"
  have "shutdown_steps T ?q (?q\<lparr>pc_workers := (pc_workers ?q)[n := Returned]\<rparr>)"
    by (rule return_one) (use assms Suc.prems in \<open>auto simp: running_def\<close>)
  moreover have "(pc_workers ?q)[n := Returned] = replicate (Suc n) Returned @ drop (Suc n) (pc_workers p)"
    using Suc.prems by (simp add: list_update_append Cons_nth_drop_Suc [symmetric] replicate_append_same [symmetric])
  ultimately show ?case using Suc by simp
qed simp

text \<open>Whatever is in flight when the drain begins, the process can answer it, stop its workers and end without error.\<close>

lemma can_end_cleanly:
  assumes "pc_stage p = Draining d"
  shows "\<exists>q. shutdown_steps T p q \<and> pc_stage q = Exited (Inr ()) \<and> pc_requests q = 0
    \<and> pc_workers q = replicate (length (pc_workers p)) Returned \<and> pc_now q = pc_now p"
proof -
  let ?a = "p\<lparr>pc_requests := 0\<rparr>"
  let ?b = "?a\<lparr>pc_stage := Waiting (pc_now p + T), pc_cancelled := True\<rparr>"
  let ?c = "?b\<lparr>pc_workers := replicate (length (pc_workers p)) Returned\<rparr>"
  have "shutdown_steps T p ?a" by (rule answer_all) (simp add: running_def assms)
  moreover have "shutdown_step T ?a ?b" using drained [of ?a d T] assms by simp
  moreover have "shutdown_steps T ?b ?c"
    using return_all [of ?b "length (pc_workers p)" T] by (simp add: running_def)
  moreover have "shutdown_step T ?c (?c\<lparr>pc_stage := Exited (Inr ())\<rparr>)"
    by (rule waited) (simp_all add: waitWithTimeout_def list_all_iff)
  ultimately have "shutdown_steps T p (?c\<lparr>pc_stage := Exited (Inr ())\<rparr>)"
    by (meson rtranclp.rtrancl_into_rtrancl rtranclp_trans)
  then show ?thesis by fastforce
qed

section \<open>The outcomes are those of run\<close>

text \<open>What \<open>run\<close> makes of the end of the wait and of the result of \<^verbatim>\<open>srv.Shutdown\<close>.\<close>

definition run_result :: "Stop \<Rightarrow> goerr + unit \<Rightarrow> goerr + unit" where
  "run_result stop down =
     (if \<exists>err. stop = ServerStopped err \<and> err \<noteq> ErrServerClosed
      then (case stop of ServerStopped err \<Rightarrow> Inl (Errorf ''server error: '' err '''') | Signal \<Rightarrow> down)
      else map_sum (\<lambda>e. Errorf ''server shutdown: '' e '''') id down)"

lemma run_result_simps [simp]:
  "err \<noteq> ErrServerClosed \<Longrightarrow> run_result (ServerStopped err) down = Inl (Errorf ''server error: '' err '''')"
  "run_result Signal (Inl e) = Inl (Errorf ''server shutdown: '' e '''')" "run_result Signal (Inr ()) = Inr ()"
  by (simp_all add: run_result_def)

lemma run_run_result:
  assumes "start X pf env w = (Inr app, w1)"
    and "pf_serve pf app (new_server w1 legacyCacheTTL (RateLimitRPS (app_config app)) (RateLimitBurst (app_config app))) = (stop, s)"
  shows "fst (run X pf env w) = run_result stop (fst (pf_Shutdown pf (ShutdownTimeout (app_config app)) (sv_world s)))"
  using assms
  by (auto simp: run_def and_then_def run_result_def map_err_def fail_def Let_def split: Stop.splits prod.splits sum.splits)

definition result_ok :: "process \<Rightarrow> bool" where
  "result_ok p \<longleftrightarrow> (\<forall>res. pc_stage p = Exited res \<longrightarrow> (\<exists>stop down. res = run_result stop down))"

lemma exit_step:
  "shutdown_step T p q \<Longrightarrow> pc_stage q = Exited res \<Longrightarrow> pc_stage p = Exited res \<or> res = Inr ()
    \<or> (\<exists>e. res = Inl (Errorf ''server shutdown: '' e ''''))
    \<or> (\<exists>e. e \<noteq> ErrServerClosed \<and> res = Inl (Errorf ''server error: '' e ''''))"
  by (erule shutdown_stepE) auto

lemma result_ok_step: "shutdown_step T p q \<Longrightarrow> result_ok p \<Longrightarrow> result_ok q"
  unfolding result_ok_def using exit_step run_result_simps by metis

lemma steps_result_ok: "shutdown_steps T p q \<Longrightarrow> result_ok p \<Longrightarrow> result_ok q"
  by (induction rule: rtranclp_induct) (auto intro: result_ok_step)

lemma exit_reachable: "\<exists>q. shutdown_steps T (started app now) q \<and> pc_stage q = Exited (run_result stop down)"
proof (cases "\<exists>err. stop = ServerStopped err \<and> err \<noteq> ErrServerClosed")
  case True
  then obtain err where "stop = ServerStopped err" "err \<noteq> ErrServerClosed" by blast
  with server_error [of "started app now" err T] show ?thesis
    by (intro exI [of _ "(started app now)\<lparr>pc_stage := Exited (run_result stop down), pc_listening := False, pc_cancelled := True\<rparr>"])
      (simp add: started_def r_into_rtranclp)
next
  case False
  let ?d = "(started app now)\<lparr>pc_stage := Draining (now + T), pc_listening := False\<rparr>"
  have d: "shutdown_step T (started app now) ?d"
    using stopped [of "started app now" Signal T] by (simp add: started_def)
  show ?thesis
  proof (cases down)
    case (Inl e)
    have "shutdown_step T ?d (?d\<lparr>pc_stage := Exited (Inl (Errorf ''server shutdown: '' e '''')), pc_cancelled := True\<rparr>)"
      by (rule close_error) (simp_all add: started_def)
    with d have "shutdown_steps T (started app now)
        (?d\<lparr>pc_stage := Exited (Inl (Errorf ''server shutdown: '' e '''')), pc_cancelled := True\<rparr>)"
      by (meson converse_rtranclp_into_rtranclp r_into_rtranclp)
    with False Inl show ?thesis by (intro exI) (erule conjI, auto simp: run_result_def)
  next
    case (Inr u)
    obtain q where "shutdown_steps T ?d q" "pc_stage q = Exited (Inr ())"
      using can_end_cleanly [of ?d "now + T" T] by auto
    with d have "shutdown_steps T (started app now) q" by (meson converse_rtranclp_into_rtranclp)
    with \<open>pc_stage q = _\<close> False Inr show ?thesis by (intro exI [of _ q]) (auto simp: run_result_def)
  qed
qed

lemma exits_are_run_results:
  "(\<exists>q. shutdown_steps T (started app now) q \<and> pc_stage q = Exited res) \<longleftrightarrow> (\<exists>stop down. res = run_result stop down)"
proof
  assume "\<exists>q. shutdown_steps T (started app now) q \<and> pc_stage q = Exited res"
  then obtain q where q: "shutdown_steps T (started app now) q" "pc_stage q = Exited res" by blast
  from steps_result_ok [OF q(1)] have "result_ok q" by (simp add: result_ok_def started_def)
  with q(2) show "\<exists>stop down. res = run_result stop down" by (simp add: result_ok_def)
qed (use exit_reachable in blast)

end
