(* ===== verification/Stuck_Jobs.thy ===== *)
theory Stuck_Jobs
  imports Worker Job_Concurrency
begin

text \<open>
  What becomes of a job whose worker went away: nothing in the queue looks at running jobs again,
  so a row in that state stays as it is until the holder of the job settles it.
\<close>

section \<open>Running rows\<close>

text \<open>The calls that settle job \<open>i\<close>, and the state after a list of calls.\<close>

definition settles :: "uuid \<Rightarrow> queue_call \<Rightarrow> bool" where
  "settles i c = (case c of QComplete k res \<Rightarrow> k = i | QFail k msg \<Rightarrow> k = i | _ \<Rightarrow> False)"

definition queue_run :: "Ext \<Rightarrow> queue_call list \<Rightarrow> World \<Rightarrow> World" where
  "queue_run X cs w = fold (queue_step X) cs w"

definition parked :: "job_row \<Rightarrow> db \<Rightarrow> bool" where
  "parked r d \<longleftrightarrow> job_inv d \<and> jb_status r = JobStatusRunning \<and> find (\<lambda>q. jb_id q = jb_id r) (jobs d) = Some r"

lemma parked_update:
  assumes "parked r d" "job_inv (d\<lparr>jobs := update_where P f (jobs d)\<rparr>)" "\<not> P r" "\<And>q. jb_id (f q) = jb_id q"
  shows "parked r (d\<lparr>jobs := update_where P f (jobs d)\<rparr>)"
  using assms by (simp add: parked_def find_job_update_where)

lemma parked_start:
  assumes "parked r d" "sql_dequeue s now d = Inr (x, d')"
  shows "parked r d'"
proof (cases "sql_next_job s now d")
  case None
  with assms show ?thesis by (simp add: sql_dequeue_def)
next
  case (Some q)
  have "job_inv d" using assms(1) by (simp add: parked_def)
  from sql_next_job_SomeD [OF Some] have "q \<in> set (jobs d)" "jb_status q = JobStatusPending" by (auto simp: due_def)
  with find_job [OF \<open>job_inv d\<close>] assms(1) have "jb_id r \<noteq> jb_id q" by (auto simp: parked_def)
  with parked_update [OF assms(1) job_inv_start [OF \<open>job_inv d\<close> Some]] assms(2) Some show ?thesis
    by (auto simp: sql_dequeue_def start_job_def)
qed

lemma parked_settle:
  "parked r d \<Longrightarrow> k \<noteq> jb_id r \<Longrightarrow> sql_complete X s k res now d = Inr (x, d') \<Longrightarrow> parked r d'"
  "parked r d \<Longrightarrow> k \<noteq> jb_id r \<Longrightarrow> sql_fail s k msg now d = Inr (x, d') \<Longrightarrow> parked r d'"
proof -
  assume p: "parked r d" and k: "k \<noteq> jb_id r"
  then have d: "job_inv d" by (simp add: parked_def)
  show "parked r d'" if c: "sql_complete X s k res now d = Inr (x, d')"
  proof -
    obtain v where "d' = d\<lparr>jobs := update_where (\<lambda>r. rls s (jb_tenant r) \<and> jb_id r = k) (complete_job v now) (jobs d)\<rparr>"
      using c by (auto simp: sql_complete_def Let_def split: option.splits)
    with parked_update [OF p, of "\<lambda>r. rls s (jb_tenant r) \<and> jb_id r = k" "complete_job v now"] job_inv_complete [OF d c] k
    show ?thesis by (simp add: complete_job_def)
  qed
  show "parked r d'" if c: "sql_fail s k msg now d = Inr (x, d')"
    using parked_update [OF p, of "\<lambda>r. rls s (jb_tenant r) \<and> jb_id r = k" "fail_job msg now"] job_inv_fail [OF d c] k c
    by (auto simp: sql_fail_def fail_job_def)
qed

lemma find_filter_kept: "find Q xs = Some x \<Longrightarrow> P x \<Longrightarrow> find Q (filter P xs) = Some x"
  by (induction xs) (auto split: if_splits)

lemma parked_cleanup: "parked r d \<Longrightarrow> sql_cleanup_jobs s n now d = Inr (x, d') \<Longrightarrow> parked r d'"
  by (auto simp: sql_cleanup_jobs_def Let_def parked_def job_inv_filter finished_before_def intro!: find_filter_kept)

lemma parked_enqueue: "parked r d \<Longrightarrow> sql_enqueue X s t ty p u now d = Inr (x, d') \<Longrightarrow> parked r d'"
  using job_inv_enqueue [of d X s t ty p u now x d']
  by (auto simp: parked_def find_append elim!: sql_enqueue_InrD)

lemma parked_keeps:
  "db_keeps (parked r) (JobQueue_Enqueue X ctx ty p)" "db_keeps (parked r) JobQueue_Dequeue"
  "k \<noteq> jb_id r \<Longrightarrow> db_keeps (parked r) (JobQueue_Complete X k res)"
  "k \<noteq> jb_id r \<Longrightarrow> db_keeps (parked r) (JobQueue_Fail k msg)"
  "db_keeps (parked r) (JobQueue_Cleanup n)"
proof -
  have scan: "db_keeps I (case row of None \<Rightarrow> ret None
      | Some r \<Rightarrow> (case scan_job r of Inl e \<Rightarrow> fail e | Inr job \<Rightarrow> ret (Some job)))" for I row
    by (intro preserves)
  show "db_keeps (parked r) JobQueue_Dequeue"
    unfolding JobQueue_Dequeue_def
    by (intro db_keeps_withSystemTx frame, unfold Dequeue_tx_def, intro keeps_and_then scan db_keeps_exec) (rule parked_start)
qed (unfold JobQueue_Enqueue_def JobQueue_Complete_def JobQueue_Fail_def JobQueue_Cleanup_def Let_def,
     (intro preserves frame; blast intro: parked_enqueue parked_settle parked_cleanup)+)

lemma parked_step: "parked r (w_db w) \<Longrightarrow> \<not> settles (jb_id r) c \<Longrightarrow> parked r (w_db (queue_step X c w))"
  using parked_keeps by (cases c) (auto simp: settles_def keeps_def)

lemma parked_not_delivered: "parked r (w_db w) \<Longrightarrow> \<not> delivers (jb_id r) c w"
proof
  assume p: "parked r (w_db w)" and "delivers (jb_id r) c w"
  then obtain j where "fst (JobQueue_Dequeue w) = Inr (Some j)" "job_ID j = jb_id r"
    by (auto simp: delivers_def split: sum.splits option.splits)
  then have "JobQueue_Dequeue w = (Inr (Some j), snd (JobQueue_Dequeue w))" by (simp add: prod_eq_iff)
  with pg_jobs.dequeue_Some [of w _ undefined j] p \<open>job_ID j = jb_id r\<close> show False
    by (auto simp: parked_def job_look_def)
qed

lemma parked_run:
  "parked r (w_db w) \<Longrightarrow> \<not> list_ex (settles (jb_id r)) cs \<Longrightarrow>
    parked r (w_db (queue_run X cs w)) \<and> deliveries X (jb_id r) cs w = 0"
  unfolding queue_run_def
  by (induction cs arbitrary: w) (auto simp: parked_not_delivered parked_step)

section \<open>An interrupted iteration\<close>

text \<open>
  From some point on every call fails: the context of the worker was cancelled, or the connection
  to the database is gone.
\<close>

definition all_fail :: "World \<Rightarrow> bool" where
  "all_fail w \<longleftrightarrow> (\<forall>k. \<forall>n \<ge> w_calls w. \<exists>msg. w_faults w k n = Fault msg)"

lemma all_fail_system:
  "all_fail w \<Longrightarrow> \<exists>e w'. withSystemTx fn w = (Inl e, w') \<and> w_db w' = w_db w"
  by (auto simp: all_fail_def withSystemTx_def run_tx_def tx_call_def next_call_def split: fault.splits
      dest!: spec [of _ OtherCall] spec [of _ "w_calls w"])

lemma interrupted_iteration:
  assumes "JobQueue_Dequeue w = (Inr (Some j), w1)" "all_fail w1"
    and "processOne (NewWorker (PostgresJobQueue X) default_handlers poll n) ctx (m, w) = (m', w')"
  shows "w_db w' = w_db w1 \<and> wm_processed m' (job_Type j, ''completed'') = wm_processed m (job_Type j, ''completed'')"
proof -
  have c: "\<exists>e v. JobQueue_Complete X i res w1 = (Inl e, v) \<and> w_db v = w_db w1" for i res
    unfolding JobQueue_Complete_def by (rule all_fail_system [OF assms(2)])
  have f: "\<exists>e v. JobQueue_Fail i msg w1 = (Inl e, v) \<and> w_db v = w_db w1" for i msg
    unfolding JobQueue_Fail_def by (rule all_fail_system [OF assms(2)])
  have h: "h = NoopJobHandler_Execute" if "default_handlers (job_Type j) = Some h" for h :: "World JobHandler"
    using that by (simp add: default_handlers_def split: if_splits)
  show ?thesis
  proof (cases "default_handlers (job_Type j) :: World JobHandler option")
    case None
    with assms(1,3) f [of "job_ID j" "''unknown job type: '' @ job_Type j"] show ?thesis
      by (auto simp: processOne_def NewWorker_def Let_def count_job_def)
  next
    case (Some h)
    obtain res where "h (handler_ctx ctx j) (job_Payload j) w1 = (Inr res, w1)"
      unfolding h [OF Some]
      by (cases "job_Payload j = []") (auto simp: NoopJobHandler_Execute_def ret_def)
    with Some assms(1,3) c [of "job_ID j" res] show ?thesis
      by (auto simp: processOne_def NewWorker_def Let_def observe_job_def)
  qed
qed

lemma delivered_parked:
  assumes "job_inv (w_db w)" "JobQueue_Dequeue w = (Inr (Some j), w1)"
  obtains r where "jb_id r = job_ID j" "parked r (w_db w1)"
proof -
  have "job_inv (w_db w1)" using keepsD [OF keeps_queue(2) assms] .
  moreover obtain m where "job_look w1 (job_ID j) = Some (JobStatusRunning, job_Attempts j, m)"
    using pg_jobs.dequeue_Some [of w _ undefined j w1] assms by auto
  then obtain r where r: "find (\<lambda>r. jb_id r = job_ID j) (jobs (w_db w1)) = Some r" "jb_status r = JobStatusRunning"
    by (auto simp: job_look_Some)
  moreover have "jb_id r = job_ID j" using find_Some_in [OF r(1)] by simp
  ultimately show thesis using that [of r] by (simp add: parked_def)
qed

lemma interrupted_never_again:
  assumes "job_inv (w_db w)" "JobQueue_Dequeue w = (Inr (Some j), w1)" "all_fail w1"
    and "processOne (NewWorker (PostgresJobQueue X) default_handlers poll n) ctx (m, w) = (m', w')"
    and "w_db w2 = w_db w'" "\<not> list_ex (settles (job_ID j)) cs"
  shows "deliveries X (job_ID j) cs w2 = 0
    \<and> (\<exists>a mx. job_look (queue_run X cs w2) (job_ID j) = Some (JobStatusRunning, a, mx))"
proof -
  obtain r where r: "jb_id r = job_ID j" "parked r (w_db w1)" using delivered_parked [OF assms(1,2)] .
  with interrupted_iteration [OF assms(2-4)] assms(5) have "parked r (w_db w2)" by simp
  from parked_run [OF this, of cs X] assms(6) r(1) show ?thesis by (auto simp: parked_def job_look_def)
qed

section \<open>Among concurrent workers\<close>

text \<open>A running row that no worker holds is out of every worker's reach.\<close>

definition orphan :: "job_row \<Rightarrow> pool \<Rightarrow> bool" where
  "orphan r p \<longleftrightarrow> pool_inv p \<and> jb_status r = JobStatusRunning \<and> row_of p (jb_id r) = Some r
     \<and> (\<forall>k a. p_phase p k \<noteq> Working (jb_id r) a)"

lemma orphan_not_locked: "orphan r p \<Longrightarrow> p_phase p k \<noteq> Locked (jb_id r)"
  by (fastforce simp: orphan_def pool_inv_def held_def)

lemma orphan_step: "pool_step p k q \<Longrightarrow> orphan r p \<Longrightarrow> orphan r q"
proof -
  assume st: "pool_step p k q" and o: "orphan r p"
  have inv: "pool_inv q" using pool_inv_step [OF st] o by (simp add: orphan_def)
  note l = orphan_not_locked [OF o]
  have "row_of q (jb_id r) = Some r \<and> (\<forall>k a. p_phase q k \<noteq> Working (jb_id r) a)"
    using st
  proof cases
    case (enqueue row)
    then show ?thesis using o by (auto simp: orphan_def row_of_def find_append)
  next
    case (cleanup P)
    have "P r" using cleanup o by (auto simp: orphan_def row_of_mem pool_inv_def)
    with cleanup o show ?thesis by (auto simp: orphan_def row_of_def intro: find_filter_kept)
  next
    case (commit k i row)
    then have "i \<noteq> jb_id r" using l by auto
    with commit o show ?thesis by (auto simp: orphan_def row_of_upd start_job_def)
  next
    case (complete k i a res)
    then have "i \<noteq> jb_id r" using o by (auto simp: orphan_def)
    with complete o show ?thesis by (auto simp: orphan_def row_of_upd complete_job_def)
  next
    case (failed k i a msg)
    then have "i \<noteq> jb_id r" using o by (auto simp: orphan_def)
    with failed o show ?thesis by (auto simp: orphan_def row_of_upd fail_job_def)
  qed (use o in \<open>auto simp: orphan_def row_of_def\<close>)
  with inv o show ?thesis by (simp add: orphan_def)
qed

lemma orphan_forever: "pool_reach p q \<Longrightarrow> orphan r p \<Longrightarrow> orphan r q"
  by (induction rule: pool_reach.induct) (auto intro: orphan_step)

text \<open>A worker that drops its job, as one does whose closing call fails, leaves an orphan.\<close>

lemma abandoned_orphan:
  assumes "pool_inv p" "p_phase p k = Working i a"
  shows "\<exists>r. jb_id r = i \<and> orphan r (set_phase k Idle p)"
proof -
  obtain r where r: "row_of p i = Some r" "jb_status r = JobStatusRunning"
    using assms by (fastforce simp: pool_inv_def held_def)
  have i: "jb_id r = i" using r(1) by (auto simp: row_of_def dest: find_Some_in)
  have "pool_inv (set_phase k Idle p)" using pool_inv_step [OF abandon [OF assms(2)] assms(1)] .
  moreover have "p_phase p l = Working i b \<Longrightarrow> l = k" for l b
    using assms by (metis excl_def pool_inv_def)
  ultimately show ?thesis using r i by (intro exI [of _ r]) (auto simp: orphan_def)
qed

end
