(* ===== verification/Process_Properties.thy ===== *)
theory Process_Properties
  imports Access_Properties Job_Properties Shutdown Stuck_Jobs
begin

text \<open>
  The properties of the end of the process: the order of the shut-down and the time it takes, and
  what becomes of a job it interrupts.
\<close>

section \<open>The shut-down\<close>

text \<open>C16: the background goroutines outlive the requests: they are told to stop, and stop, only when the
  listener is closed and every accepted request was answered, unless the process ends with an error;
  and it never ends without error while a request is in flight.\<close>

theorem shutdown_order:
  assumes "shutdown_steps (shutdown_timeout app) (started app now) q"
  shows "(\<exists>e. pc_stage q = Exited (Inl e)) \<or>
    ((pc_cancelled q \<or> Returned \<in> set (pc_workers q) \<union> set (pc_loops q) \<or> pc_stage q = Exited (Inr ())) \<longrightarrow>
      pc_requests q = 0 \<and> \<not> pc_listening q)"
proof (cases "\<exists>e. pc_stage q = Exited (Inl e)")
  case False
  have "pc_stage q = Exited (Inr ()) \<Longrightarrow> pc_cancelled q"
    using shutdown_ok [OF assms started_ok] by (simp add: stage_ok_def)
  with background_after_requests [OF assms _ False] goroutines_outlast_requests [OF assms _ False] show ?thesis by blast
qed simp

text \<open>A process with one worker.\<close>

definition demo_app :: App where
  "demo_app = wire text_ext demo_platform (Load demo_env) (LocalFileStorage text_ext \<lparr>ls_basePath = ''/srv''\<rparr>)
     (PostgresJobQueue text_ext) [WorkerPool 1 (NewWorker (PostgresJobQueue text_ext) default_handlers 1 1)]"

lemma demo_started:
  "started demo_app 5 = \<lparr>pc_stage = Serving, pc_now = 5, pc_listening = True, pc_requests = 0, pc_cancelled = False,
     pc_workers = [Selecting], pc_loops = [Selecting]\<rparr>"
  by (simp add: started_def demo_app_def wire_background NewWorker_def)

theorem shutdown_order_witness:
  "\<exists>q. shutdown_steps (shutdown_timeout demo_app) (started demo_app 5) q \<and> pc_workers q = [Returned]
    \<and> pc_requests q = 0 \<and> \<not> pc_listening q"
proof -
  let ?T = "shutdown_timeout demo_app" and ?p = "started demo_app 5"
  define a where "a = ?p\<lparr>pc_stage := Draining (5 + ?T), pc_listening := False\<rparr>"
  define b where "b = a\<lparr>pc_stage := Waiting (5 + ?T), pc_cancelled := True\<rparr>"
  define c where "c = b\<lparr>pc_workers := [Returned]\<rparr>"
  have "shutdown_step ?T ?p a" using stopped [of ?p Signal ?T] by (simp add: a_def demo_started)
  moreover have "shutdown_step ?T a b" using drained [of a "5 + ?T" ?T] by (simp add: a_def b_def demo_started)
  moreover have "shutdown_step ?T b c"
    using worker [of b 0 Returned ?T] by (simp add: a_def b_def c_def demo_started running_def goroutine_step_iff)
  ultimately have s: "shutdown_steps ?T ?p c" by (meson converse_rtranclp_into_rtranclp rtranclp.rtrancl_refl)
  from shutdown_order [OF s] s show ?thesis by (auto simp: c_def b_def)
qed

text \<open>C21: from the signal on the shut-down takes at most twice the timeout; at any moment of it the
  process still ends although no request, worker or loop does another step; and it can always end
  without error, every request answered and every worker returned, without any delay.\<close>

theorem shutdown_bounded:
  assumes "0 \<le> T" and "pc_stage p = Serving" and "shutdown_step T p p'" and "pc_stage p' = Draining d"
    and "shutdown_steps T p' q"
  shows "pc_now q \<le> pc_now p + 2 * T
    \<and> (\<exists>r. shutdown_steps T q r \<and> \<not> running r \<and> pc_requests r = pc_requests q \<and> pc_workers r = pc_workers q
         \<and> pc_loops r = pc_loops q)
    \<and> (\<exists>r. shutdown_steps T p' r \<and> pc_stage r = Exited (Inr ()) \<and> pc_requests r = 0
         \<and> set (pc_workers r) \<subseteq> {Returned} \<and> pc_now r = pc_now p)"
proof -
  have p': "pc_now p' = pc_now p" "d = pc_now p + T" using assms(2-4) by (auto elim!: shutdown_stepE)
  then have "in_time T (pc_now p) p'" using assms(1,4) by (simp add: in_time_def)
  from in_time_steps [OF assms(5,1) this] have q: "in_time T (pc_now p) q" .
  from can_end_cleanly [OF assms(4), of T] p'(1) obtain r where
    "shutdown_steps T p' r \<and> pc_stage r = Exited (Inr ()) \<and> pc_requests r = 0
      \<and> set (pc_workers r) \<subseteq> {Returned} \<and> pc_now r = pc_now p"
    by (metis insertCI set_replicate_conv_if subset_insertI subset_refl empty_subsetI)
  with in_time_bound [OF assms(1) q] exits_alone [OF q] show ?thesis by blast
qed

theorem shutdown_bounded_witness:
  "\<exists>p'. shutdown_step 10 (started demo_app 5) p' \<and> pc_now p' \<le> 25
    \<and> (\<exists>r. shutdown_steps 10 p' r \<and> \<not> running r \<and> pc_workers r = [Selecting])"
proof -
  let ?p = "started demo_app 5"
  define p' where "p' = ?p\<lparr>pc_stage := Draining 15, pc_listening := False\<rparr>"
  have s: "shutdown_step 10 ?p p'" using stopped [of ?p Signal 10] by (simp add: p'_def demo_started)
  have "pc_stage ?p = Serving" "pc_stage p' = Draining 15" by (simp_all add: p'_def demo_started)
  from shutdown_bounded [OF _ this(1) s this(2) rtranclp.rtrancl_refl] s show ?thesis
    by (auto simp: p'_def demo_started)
qed

section \<open>Interrupted jobs\<close>

text \<open>C22: a job whose worker is cut off while it handles it, as the end of the process does, stays running
  for ever: after a restart, whatever the clients of the queue do and whichever calls fail, it is not
  delivered again and no clean-up removes it, unless someone settles it by its id.\<close>

theorem interrupted_job_lost:
  assumes "job_inv (w_db w)" and "JobQueue_Dequeue w = (Inr (Some j), w1)" and "all_fail w1"
    and "processOne (NewWorker (PostgresJobQueue X) default_handlers poll n) ctx (m, w) = (m', w')"
    and "w_db w2 = w_db w'" and "\<not> list_ex (settles (job_ID j)) cs"
  shows "deliveries X (job_ID j) cs w2 = 0
    \<and> (\<exists>a mx. job_look (queue_run X cs w2) (job_ID j) = Some (JobStatusRunning, a, mx))"
  by (rule interrupted_never_again [OF assms])

definition cut_world :: World where
  "cut_world = (job_world [demo_job 30 1 (Some ''e'') 40])\<lparr>w_faults := (\<lambda>_ n. if n < 4 then NoFault else Fault ''cut'')\<rparr>"

lemma cut_dequeue:
  "\<exists>w1. JobQueue_Dequeue cut_world = (Inr (Some (deliver (start_job 50 (demo_job 30 1 (Some ''e'') 40)) ''e'')), w1)
    \<and> all_fail w1"
proof -
  have "sql_dequeue (system_session cut_world) 50 (w_db cut_world)
      = Inr (Some (start_job 50 (demo_job 30 1 (Some ''e'') 40)),
          (w_db cut_world)\<lparr>jobs := update_where (\<lambda>q. jb_id q = 30) (start_job 50) (jobs (w_db cut_world))\<rparr>)"
    using job_world_next by (simp add: sql_dequeue_def cut_world_def system_session_def)
  moreover have "scan_job (start_job 50 (demo_job 30 1 (Some ''e'') 40))
      = Inr (deliver (start_job 50 (demo_job 30 1 (Some ''e'') 40)) ''e'')"
    by (simp add: scan_job_Inr start_job_def)
  moreover have "w_calls cut_world = 0" "w_clock cut_world = 50"
    "w_faults cut_world = (\<lambda>_ n. if n < 4 then NoFault else Fault ''cut'')"
    by (simp_all add: cut_world_def job_world_def)
  ultimately show ?thesis
    by (simp add: JobQueue_Dequeue_def withSystemTx_def run_tx_def tx_call_def next_call_def Dequeue_tx_def and_then_def
        db_exec_def db_stmt_def tx_commit_def ret_def all_fail_def)
qed

theorem interrupted_job_lost_witness:
  "\<exists>m' w'. processOne (NewWorker (PostgresJobQueue demo_ext) default_handlers 1 1) background
      (\<lparr>wm_processed = \<lambda>_. 0, wm_durations = \<lambda>_. 0\<rparr>, cut_world) = (m', w')
    \<and> deliveries demo_ext 30 [QWait 1000, QDequeue, QCleanup 0, QDequeue] (w'\<lparr>w_faults := \<lambda>_ _. NoFault\<rparr>) = 0"
proof -
  obtain w1 where d: "JobQueue_Dequeue cut_world = (Inr (Some (deliver (start_job 50 (demo_job 30 1 (Some ''e'') 40)) ''e'')), w1)"
    "all_fail w1" using cut_dequeue by blast
  obtain m' w' where r: "processOne (NewWorker (PostgresJobQueue demo_ext) default_handlers 1 1) background
      (\<lparr>wm_processed = \<lambda>_. 0, wm_durations = \<lambda>_. 0\<rparr>, cut_world) = (m', w')" by fastforce
  have i: "job_inv (w_db cut_world)" using job_world_inv [of 1 30 "Some ''e''" 40] by (simp add: cut_world_def)
  have "w_db (w'\<lparr>w_faults := \<lambda>_ _. NoFault\<rparr>) = w_db w'" by simp
  from interrupted_job_lost [OF i d r this, of "[QWait 1000, QDequeue, QCleanup 0, QDequeue]"] r show ?thesis
    by (auto simp: settles_def deliver_def start_job_def)
qed

end
