(* ===== verification/Spec2Isabelle.thy ===== *)
theory Spec2Isabelle
  imports Data_Properties Job_Properties Service_Properties Http_Properties Access_Properties
    Concurrency_Properties Process_Properties
begin

text \<open>
  A model of the media API (Go, below \<^verbatim>\<open>src/\<close>) and the proofs that it does what it promises: a
  multi-tenant service that stores media files with tags, over PostgreSQL and a local or S3 file
  store, behind an HTTP interface with API keys, rate limits and idempotent uploads, with a
  background job queue.

  \<^bold>\<open>The program and its parts.\<close>  A request passes the middleware (request id, panic recovery, timeout,
  metrics, log, CORS, rate limit, security headers), is authenticated by its API key, and reaches a handler,
  which checks the scope, reads the request and calls a service.  The services validate, call the
  repositories (each call one transaction that is bound to the tenant of the context) and the file
  storage, and undo the file when the row cannot be written.  Workers poll the job queue beside that.

  \<^bold>\<open>How the code is modelled.\<close>  Everything that outlives a call is in the record \<open>World\<close>: the tables
  of \<^verbatim>\<open>migrations/\<close> as lists of row records, the files below the base directory, the objects of the
  bucket, the clock, the supply of random UUIDs and the outcomes of external calls.  Each external
  call (a statement, BEGIN, COMMIT, a system call, an S3 request) takes the next outcome: it works, it
  fails without effect, or it fails after its effect; the outcomes of COMMIT are given apart from those
  of the other calls (\<open>call\<close>).  So every theorem about a run covers all patterns of failures, lost
  commit acknowledgements included, unless it assumes otherwise: \<open>no_faults\<close> says that no call fails,
  the negation of \<open>lost_ack\<close> only that a COMMIT that is reported as failed had no effect.  An operation is a function \<open>'w \<Rightarrow> (error + result) \<times> 'w\<close>; every
  early return of the code is a branch with \<open>Inl\<close>.  Go's error values are the datatype \<open>goerr\<close>, with
  \<open>Errorf\<close> for a wrapped error, so that \<^verbatim>\<open>errors.Is\<close> and \<^verbatim>\<open>errors.As\<close> are functions.  A panic is the
  error of a handler.  Row-level security is the predicate \<open>rls\<close> on the session of a transaction, and
  every statement is written with the policy and with the tenant condition the code adds itself; a
  role that bypasses the policies is covered.  Strings are byte lists, names are decoded from UTF-8,
  JSON and base64 are written out, durations of the settings are 64-bit words.

  \<^bold>\<open>Theories, in the order of the code.\<close>
  \<^item> \<open>Prelude\<close>, \<open>Go_Lib\<close>, \<open>Go_Path\<close>, \<open>Go_Json\<close>: operations with errors and the rules for
    invariants (\<open>keeps\<close>, the collections \<open>frame\<close> and \<open>preserves\<close>), lists and sorting; the parts of
    Go's standard library that decisions rest on (\<^verbatim>\<open>strings\<close>, \<^verbatim>\<open>strconv.Atoi\<close>, UTF-8,
    \<^verbatim>\<open>path/filepath\<close>, \<^verbatim>\<open>encoding/json\<close>, \<^verbatim>\<open>encoding/base64\<close>), each with its round trips.
  \<^item> \<open>Domain\<close>, \<open>Port\<close>: \<^verbatim>\<open>internal/domain\<close> and \<^verbatim>\<open>internal/port\<close>.  Entities and errors under
    their names; each Go interface is a record of operations, and what its implementations promise is
    a locale: \<open>tag_repository\<close>, \<open>media_repository\<close>, \<open>job_queue\<close>, \<open>idempotency_store\<close>, \<open>file_storage\<close>.
  \<^item> \<open>Sanitize\<close>: \<^verbatim>\<open>service/sanitize.go\<close>, with the canonical form of names.
  \<^item> \<open>World\<close>, \<open>Schema\<close>: \<^verbatim>\<open>postgres/tx.go\<close> and the tables; \<open>db_inv\<close> is what the constraints
    enforce and that links stay within a tenant, \<open>others_kept\<close> says that other tenants' rows are kept.
  \<^item> \<open>Keyset\<close>: the fetch-one-more page of both listings and the locale \<open>keyset\<close>, by which following
    cursors lists everything once.
  \<^item> \<open>Tag_Repo\<close>, \<open>Media_Repo\<close>, \<open>Media_Read\<close>, \<open>Media_Contract\<close>: \<^verbatim>\<open>postgres/tag_repo.go\<close> and
    \<^verbatim>\<open>postgres/media_repo.go\<close>; their statements are the functions \<open>sql_...\<close>, their closures
    \<open>..._tx\<close>, their methods \<open>TagRepo_...\<close> and \<open>MediaRepo_...\<close>; invariants, isolation, the effect of
    every operation, and the interpretations of the contracts.
  \<^item> \<open>Job_Queue\<close>, \<open>Job_Concurrency\<close>, \<open>Worker\<close>: \<^verbatim>\<open>postgres/job_queue.go\<close>, \<^verbatim>\<open>postgres/metrics.go\<close>,
    \<^verbatim>\<open>service/worker.go\<close>, \<^verbatim>\<open>service/job_handlers.go\<close>, \<^verbatim>\<open>sqs/sqs_queue.go\<close>; the row locks of a
    dequeue with SKIP LOCKED are the step relation \<open>pool_step\<close>, the pool of workers is a schedule of
    their polls.
  \<^item> \<open>Idempotency_Store\<close>, \<open>Auth_Verifier\<close>: \<^verbatim>\<open>postgres/idempotency_store.go\<close> and
    \<^verbatim>\<open>postgres/auth_verifier.go\<close>, with the key cache and the delayed update of the last use.
  \<^item> \<open>Storage\<close>: \<^verbatim>\<open>storage/local\<close> and \<^verbatim>\<open>storage/s3\<close>, both instances of \<open>file_storage\<close>.
  \<^item> \<open>Cursor\<close>, \<open>Text_Paging\<close>, \<open>Tag_Service\<close>, \<open>Media_Service\<close>, \<open>Media_Uploads\<close>, \<open>Media_Files\<close>,
    \<open>Media_Listing\<close>, \<open>Upload_Progress\<close>: \<^verbatim>\<open>service/cursor.go\<close>, \<^verbatim>\<open>service/tag_service.go\<close> and
    \<^verbatim>\<open>service/media_service.go\<close>.  The locale \<open>upload_service\<close> joins the contracts of a repository and
    a storage; its theorems about rows and their files are proved once and hold for both storages.
  \<^item> \<open>Http\<close>, \<open>Dto\<close>, \<open>Tag_Handler\<close>, \<open>Media_Handler\<close>, \<open>Rate_Limit\<close>, \<open>Middleware\<close>, \<open>Router\<close>,
    \<open>Replay\<close>, \<open>Isolation\<close>: \<^verbatim>\<open>adapter/http\<close> and \<^verbatim>\<open>adapter/server\<close>.  The response writer keeps the calls made on
    it, so that the first status wins and the wrappers of the middleware see what they see in Go.
    \<open>Server\<close> is the state of the process: the world, the key cache, the buckets, the counters, the log.
  \<^item> \<open>Config\<close>, \<open>App\<close>, \<open>Shutdown\<close>: \<^verbatim>\<open>config/config.go\<close> and \<^verbatim>\<open>cmd/api/main.go\<close>: settings, wiring,
    the order of start-up, the background loops that are started, the exit status; the end of the
    process beside the requests in flight, the workers and the loops, as the step relation
    \<open>shutdown_step\<close> with a clock, whose outcomes are those of \<open>run\<close> (\<open>exits_are_run_results\<close>).
  \<^item> \<open>Idem_Concurrency\<close>, \<open>Media_Concurrency\<close>, \<open>Stuck_Jobs\<close>: operations of the middleware and of the
    media service broken into their calls, between which other requests get in (\<open>idem_step\<close>,
    \<open>media_step\<close>); the locale \<open>concurrent_uploads\<close> extends the contract of \<open>upload_service\<close> by what
    the rest of the program may do and is interpreted on both storages; jobs nobody settles.
  \<^item> \<open>Demo\<close>, \<open>Demo_Text\<close>: concrete states and external functions for the witnesses.
  \<^item> \<open>Data_Properties\<close>, \<open>Job_Properties\<close>, \<open>Service_Properties\<close>, \<open>Http_Properties\<close>,
    \<open>Access_Properties\<close>, \<open>Concurrency_Properties\<close>, \<open>Process_Properties\<close>: the properties, marked C1 and so on in the order of their importance, each
    with a witness where it has hypotheses.

  \<^bold>\<open>What is shown.\<close>
  \<^item> Isolation: no write of a repository changes another tenant's rows or breaks a constraint
    (\<open>media_writes_isolated\<close>, \<open>tag_writes_isolated\<close>), and so no history of requests that are served
    as other tenants does (\<open>other_tenants_unaffected\<close>); a session without BYPASSRLS sees its own rows
    only (\<open>rls_backstop\<close>); a failed transaction leaves nothing (\<open>tenant_tx_all_or_nothing\<close>).
  \<^item> Effects: what creating, attaching, deleting and renaming do to the tenant's media and tags, on
    every outcome; names are canonical and sanitising twice changes nothing.
  \<^item> Listings: following the text cursors ends and gives exactly the matching rows, each once, whatever
    the limit; cursors read back as what they were made from.
  \<^item> Files: a successful upload stores the row and the file it returns; a failed one leaves no media row, unless
    its COMMIT took effect and was reported as failed, and at most one file (\<open>failed_upload_undone\<close>);
    unless that happens, every row keeps its file or its S3 object whatever uploads and deletions run
    at the same time and whichever calls fail, before or after their effect
    (\<open>interleaved_rows_keep_files\<close>, \<open>interleaved_rows_keep_objects\<close>); the local storage refines a map from paths to contents,
    a valid upload succeeds when no call fails.
  \<^item> Repeated requests: a replayed upload has no effect, how long a response lives; among requests
    that run at the same time, a stored response stays and wins (\<open>stored_response_wins\<close>) and comes
    from a successful request of the same tenant with the same key (\<open>replay_has_source\<close>), but two
    requests that both find nothing both run the handler (\<open>both_run\<close>).
  \<^item> The interleaved steps are the program's: run alone, they end as the operations do
    (\<open>idempotency_steps_refine\<close>, \<open>media_steps_refine\<close>).
  \<^item> Access: refused keys and missing scopes, revocation within the cache's time to live, what start-up
    guarantees, that 500 answers tell nothing; the rate limit as a bound and that nobody is locked out.
  \<^item> Jobs: exclusive and bounded delivery, order, back-off, clean-up, the worker's iteration, and that
    a fresh job cannot be dequeued because its error column is NULL (\<open>fresh_job_blocks\<close>).
  \<^item> The end of the process: workers and loops outlive the requests (\<open>shutdown_order\<close>), the shut-down
    takes at most twice its timeout and nothing that hangs keeps the process from its end
    (\<open>shutdown_bounded\<close>); a job it cuts off is never delivered again (\<open>interrupted_job_lost\<close>).

  \<^bold>\<open>Fuel and bounds.\<close>  \<open>follow\<close> and \<open>follow_text\<close>, the client's loop over pages, take fuel: one more
  than the number of rows is enough, which the listing theorems prove, so that the loop ends.  The JSON
  parser takes twice the number of bytes plus two, which its round trip proves to be enough for every
  printed value, and the nesting limit 10000 of the Go library.  The supply of UUIDs is a sequence; where freshness matters the
  first \<open>N\<close> of them are distinct and the run draws no more than \<open>N\<close> (\<open>fresh_ids\<close>, \<open>in_supply\<close>).  All
  other recursions of the model are total.

  \<^bold>\<open>Parameters.\<close>  The record \<open>Ext\<close> holds the functions of code that is not below \<^verbatim>\<open>src/\<close>: NFC, the
  text forms of UUIDs and instants, the collation, SHA-256, JSONB, content sniffing; hypotheses like
  \<open>uuid_text_spec\<close> and \<open>nfc_spec\<close> state what is documented of them, and the witnesses use functions
  that meet them.  \<open>Lib\<close> and \<open>Platform\<close> do the same for chi, Prometheus' handler, the file server, the
  migration library, S3 signing and \<^verbatim>\<open>http.Server\<close>.

  \<^bold>\<open>Interleavings.\<close>  In \<open>idem_step\<close> a lookup, the handler, and the storing of the answer are one step
  each; in \<open>media_step\<close> every call of a repository or of the storage is one step, a repository call
  being one transaction; in \<open>pool_step\<close> the steps are those of a dequeue and of settling a job.  What
  runs beside them is a relation: anything that leaves the stored responses alone (\<open>idem_frame\<close>),
  anything that leaves media rows and files alone (\<open>tables_beside\<close>).  Any number of requests take
  part.  In \<open>shutdown_step\<close> time is discrete and timers are prompt; requests and goroutines may
  take any number of steps or none.

  \<^bold>\<open>What is not modelled.\<close>  Log lines other than the access log; that a deadline (of the timeout
  middleware, whose context carries it, or of the readiness probe) or a cancellation passes, which shows
  as calls that fail; the rounding of the bucket's \<^verbatim>\<open>float64\<close> tokens, which are real numbers;
  directories of the local storage; durations in the metrics, which are counted but not measured; the
  registration of collectors; the streaming of a body (a file is its content, saved in one step); HTTP/1
  framing, TLS and multipart parsing (a request is its parsed form); the deferred close of the database
  at the very end of \<^verbatim>\<open>run\<close>; a file cut off in the middle of a write (a failed write leaves the whole
  content or nothing); other goroutines between finding a client's bucket and taking a token from it.  Outside the step relations above
  requests are run one after the other, each transaction atomically with respect to the others, as
  PostgreSQL's isolation is not part of the program.  The embedded migrations are modelled by the
  tables and policies they leave behind, not as files.  The API description, the container and build
  files hold no code of the program.
\<close>

end
